(* ===== verification/Prelude.thy ===== *)
theory Prelude
  imports Main "HOL-Library.Word" "HOL-Library.Multiset" "HOL-Library.Sublist"
    "HOL-Library.List_Lexorder" "HOL-Library.Char_ord"
begin

text \<open>
  What every component shares: the types that name the machine values of the Rust source,
  the errors, the state-and-error computations in which every effectful function of the
  source is written, a weakest-precondition calculus for them, and generic lemmas on lists.

  \<^item> \<open>u8\<close>, \<open>u32\<close>, \<open>u64\<close>, \<open>i64\<close>, \<open>uuid\<close>: words of the width of the Rust type; an \<open>i64\<close> is read
    with \<open>sint\<close>.
  \<^item> \<open>datetime\<close>: a \<open>DateTime<Utc>\<close> as its number of nanoseconds since the Unix epoch.
  \<^item> \<open>path\<close>: a \<open>PathBuf\<close> as the list of its components.
  \<^item> \<open>io\<close>: \<open>async fn(..) -> anyhow::Result<T>\<close>; the state is returned on both branches, so
    that what a failing call leaves behind is part of the model.
\<close>

section \<open>Types\<close>

type_synonym u8 = "8 word"
type_synonym u32 = "32 word"
type_synonym u64 = "64 word"
type_synonym i64 = "64 word"
type_synonym uuid = "128 word"
type_synonym bytes = "u8 list"
type_synonym datetime = int
type_synonym path = "string list"

datatype sync_error = MissingCredentials | LoginFailed string | DownloadFailed string

datatype error =
    IoError string
  | DbError string
  | JsonError
  | HttpError string
  | Anyhow string
  | SyncError sync_error
  | Panic string
  | Context string error

type_synonym ('w, 'a) io = "'w \<Rightarrow> (error + 'a) \<times> 'w"

section \<open>Computations with state and errors\<close>

definition return_io :: "'a \<Rightarrow> ('w, 'a) io" where
  "return_io x = (\<lambda>w. (Inr x, w))"

definition fail_io :: "error \<Rightarrow> ('w, 'a) io" where
  "fail_io e = (\<lambda>w. (Inl e, w))"

text \<open>\<open>bind_io m f\<close> is \<open>let x = m?; f(x)\<close>: the \<open>?\<close> operator returns early with the error.\<close>

definition bind_io :: "('w, 'a) io \<Rightarrow> ('a \<Rightarrow> ('w, 'b) io) \<Rightarrow> ('w, 'b) io" where
  "bind_io m f = (\<lambda>w. case m w of
      (Inl e, w') \<Rightarrow> (Inl e, w')
    | (Inr x, w') \<Rightarrow> f x w')"

definition seq_io :: "('w, 'a) io \<Rightarrow> ('w, 'b) io \<Rightarrow> ('w, 'b) io" where
  "seq_io m m' = bind_io m (\<lambda>_. m')"

definition map_err :: "(error \<Rightarrow> error) \<Rightarrow> ('w, 'a) io \<Rightarrow> ('w, 'a) io" where
  "map_err g m = (\<lambda>w. case m w of
      (Inl e, w') \<Rightarrow> (Inl (g e), w')
    | (Inr x, w') \<Rightarrow> (Inr x, w'))"

text \<open>\<open>try_io m\<close> is a \<open>match m.await\<close>: the error becomes a value.\<close>

definition try_io :: "('w, 'a) io \<Rightarrow> ('w, error + 'a) io" where
  "try_io m = (\<lambda>w. case m w of (r, w') \<Rightarrow> (Inr r, w'))"

text \<open>
  \<open>match\<close> and \<open>map_err\<close> on an awaited result see its errors, but not a panic, which unwinds through
  them: \<open>try_await\<close>.
\<close>

fun is_panic :: "error \<Rightarrow> bool" where
  "is_panic (Panic _) = True"
| "is_panic (Context _ e) = is_panic e"
| "is_panic _ = False"

definition try_await :: "('w, 'a) io \<Rightarrow> ('w, error + 'a) io" where
  "try_await m = (\<lambda>w. case m w of
      (Inl e, w') \<Rightarrow> (if is_panic e then Inl e else Inr (Inl e), w')
    | (Inr x, w') \<Rightarrow> (Inr (Inr x), w'))"

definition get_io :: "('w \<Rightarrow> 'a) \<Rightarrow> ('w, 'a) io" where
  "get_io g = (\<lambda>w. (Inr (g w), w))"

definition of_option :: "error \<Rightarrow> 'a option \<Rightarrow> ('w, 'a) io" where
  "of_option e r = (case r of None \<Rightarrow> fail_io e | Some x \<Rightarrow> return_io x)"

definition of_result :: "error + 'a \<Rightarrow> ('w, 'a) io" where
  "of_result r = (case r of Inl e \<Rightarrow> fail_io e | Inr x \<Rightarrow> return_io x)"

primrec for_each :: "('a \<Rightarrow> ('w, unit) io) \<Rightarrow> 'a list \<Rightarrow> ('w, unit) io" where
  "for_each body [] = return_io ()"
| "for_each body (x # xs) = seq_io (body x) (for_each body xs)"

text \<open>Collecting an iterator of results: the first error wins.\<close>

fun collect_results :: "('e + 'a) list \<Rightarrow> 'e + 'a list" where
  "collect_results [] = Inr []"
| "collect_results (Inl e # rs) = Inl e"
| "collect_results (Inr x # rs) =
     (case collect_results rs of Inl e \<Rightarrow> Inl e | Inr xs \<Rightarrow> Inr (x # xs))"

section \<open>Weakest preconditions\<close>

text \<open>
  \<open>runs m w Q R\<close>: run from \<open>w\<close>, the computation \<open>m\<close> ends in a value and state satisfying \<open>Q\<close>
  or in an error and state satisfying \<open>R\<close>.
\<close>

definition runs :: "('w, 'a) io \<Rightarrow> 'w \<Rightarrow> ('a \<Rightarrow> 'w \<Rightarrow> bool) \<Rightarrow> (error \<Rightarrow> 'w \<Rightarrow> bool) \<Rightarrow> bool" where
  "runs m w Q R = (case m w of (Inl e, w') \<Rightarrow> R e w' | (Inr x, w') \<Rightarrow> Q x w')"

named_theorems wp_simps \<open>rewriting a weakest precondition down to its primitive calls\<close>

lemma runs_return [wp_simps]: "runs (return_io x) w Q R = Q x w"
  by (simp add: runs_def return_io_def)

lemma runs_fail [wp_simps]: "runs (fail_io e) w Q R = R e w"
  by (simp add: runs_def fail_io_def)

lemma runs_bind [wp_simps]:
  "runs (bind_io m f) w Q R = runs m w (\<lambda>x w'. runs (f x) w' Q R) R"
  by (simp add: runs_def bind_io_def split: prod.splits sum.splits)

lemma runs_seq [wp_simps]: "runs (seq_io m m') w Q R = runs m w (\<lambda>_ w'. runs m' w' Q R) R"
  by (simp add: seq_io_def runs_bind)

lemma runs_map_err [wp_simps]: "runs (map_err g m) w Q R = runs m w Q (\<lambda>e. R (g e))"
  by (simp add: runs_def map_err_def split: prod.splits sum.splits)

lemma runs_try [wp_simps]:
  "runs (try_io m) w Q R = runs m w (\<lambda>x. Q (Inr x)) (\<lambda>e. Q (Inl e))"
  by (simp add: runs_def try_io_def split: prod.splits sum.splits)

lemma runs_try_await [wp_simps]:
  "runs (try_await m) w Q R =
     runs m w (\<lambda>x. Q (Inr x)) (\<lambda>e w'. if is_panic e then R e w' else Q (Inl e) w')"
  by (simp add: runs_def try_await_def split: prod.splits sum.splits)

lemma runs_get [wp_simps]: "runs (get_io g) w Q R = Q (g w) w"
  by (simp add: runs_def get_io_def)

lemma runs_of_option [wp_simps]:
  "runs (of_option e r) w Q R = (case r of None \<Rightarrow> R e w | Some x \<Rightarrow> Q x w)"
  by (simp add: of_option_def wp_simps split: option.splits)

lemma runs_of_result [wp_simps]:
  "runs (of_result r) w Q R = (case r of Inl e \<Rightarrow> R e w | Inr x \<Rightarrow> Q x w)"
  by (simp add: of_result_def wp_simps split: sum.splits)

lemma runs_mono:
  assumes "runs m w Q R"
    and "\<And>x w'. Q x w' \<Longrightarrow> Q' x w'"
    and "\<And>e w'. R e w' \<Longrightarrow> R' e w'"
  shows "runs m w Q' R'"
  using assms by (auto simp: runs_def split: prod.splits sum.splits)

lemma runs_conj: "runs m w Q R \<Longrightarrow> runs m w Q' R' \<Longrightarrow>
    runs m w (\<lambda>x w'. Q x w' \<and> Q' x w') (\<lambda>e w'. R e w' \<and> R' e w')"
  by (auto simp: runs_def split: prod.splits sum.splits)

lemma runs_okD: "runs m w Q R \<Longrightarrow> m w = (Inr x, w') \<Longrightarrow> Q x w'"
  by (simp add: runs_def)

lemma runs_errD: "runs m w Q R \<Longrightarrow> m w = (Inl e, w') \<Longrightarrow> R e w'"
  by (simp add: runs_def)

lemma runs_no_errorE:
  assumes "runs m w Q (\<lambda>_ _. False)"
  obtains x w' where "m w = (Inr x, w')" and "Q x w'"
  using assms by (auto simp: runs_def split: prod.splits sum.splits)

lemma runs_sndD: "runs m w (\<lambda>_. P) (\<lambda>_. P) \<Longrightarrow> P (snd (m w))"
  by (auto simp: runs_def split: prod.splits sum.splits)

lemma runs_resultI: "(\<And>r w'. m w = (r, w') \<Longrightarrow>
    (case r of Inl e \<Rightarrow> R e w' | Inr x \<Rightarrow> Q x w')) \<Longrightarrow> runs m w Q R"
  by (auto simp: runs_def split: prod.splits sum.splits)

text \<open>A loop keeps what its body keeps, on both branches.\<close>

lemma runs_for_each:
  assumes "I w"
    and "\<And>x w. x \<in> set xs \<Longrightarrow> I w \<Longrightarrow> runs (body x) w (\<lambda>_. I) (\<lambda>_. R)"
  shows "runs (for_each body xs) w (\<lambda>_. I) (\<lambda>_. R)"
  using assms
proof (induction xs arbitrary: w)
  case Nil
  then show ?case by (simp add: wp_simps)
next
  case (Cons x xs)
  have "runs (body x) w (\<lambda>_. I) (\<lambda>_. R)" using Cons.prems by simp
  then show ?case
    unfolding for_each.simps runs_seq
    by (rule runs_mono) (use Cons in auto)
qed

section \<open>Lists\<close>

lemma collect_results_map_Inr [simp]: "collect_results (map (\<lambda>x. Inr (f x)) xs) = Inr (map f xs)"
  by (induction xs) simp_all

lemma collect_results_Inr_iff:
  "collect_results rs = Inr xs \<longleftrightarrow> rs = map Inr xs"
proof (induction rs arbitrary: xs rule: collect_results.induct)
  case (3 x rs)
  then show ?case by (cases xs) (auto split: sum.splits)
qed auto

lemma mset_map_nth: "mset is = mset [0..<length xs] \<Longrightarrow> mset (map ((!) xs) is) = mset xs"
proof -
  assume "mset is = mset [0..<length xs]"
  then have "mset (map ((!) xs) is) = mset (map ((!) xs) [0..<length xs])"
    by simp
  then show ?thesis by (simp add: map_nth)
qed

lemma mset_filter_eq: "mset xs = mset ys \<Longrightarrow> mset (filter P xs) = mset (filter P ys)"
  by (simp add: mset_filter)

lemma mem_image_iff: "y \<in> f ` A \<longleftrightarrow> (\<exists>x \<in> A. f x = y)"
  by auto

lemma find_Some_distinct:
  "distinct (map f xs) \<Longrightarrow> x \<in> set xs \<Longrightarrow> find (\<lambda>y. f y = f x) xs = Some x"
  by (induction xs) auto

lemma find_cong_fun: "(\<And>x. x \<in> set xs \<Longrightarrow> P x = Q x) \<Longrightarrow> find P xs = find Q xs"
  by (induction xs) auto

lemma find_map: "find P (map f xs) = map_option f (find (P \<circ> f) xs)"
  by (induction xs) auto

lemma find_set: "find P xs = Some x \<Longrightarrow> x \<in> set xs \<and> P x"
  by (auto simp: find_Some_iff)

lemma distinct_map_filter_fst: "distinct (map f xs) \<Longrightarrow> distinct (map f (filter P xs))"
  by (induction xs) auto

lemma remdups_map_inj: "inj f \<Longrightarrow> remdups (map f xs) = map f (remdups xs)"
  by (induction xs) (auto simp: inj_eq)

lemma image_mset_Inr_eq: "image_mset Inr A = image_mset Inr B \<longleftrightarrow> A = B"
  by (rule inj_eq [OF multiset.inj_map]) simp

text \<open>The sizes of the groups of a list add up to its length.\<close>

lemma sum_list_count_remdups:
  "(\<Sum>x\<leftarrow>remdups xs. of_nat (count_list xs x) :: 'a :: semiring_1) = of_nat (length xs)"
proof -
  have "(\<Sum>x\<leftarrow>remdups xs. of_nat (count_list xs x) :: 'a) = (\<Sum>x\<in>set xs. of_nat (count_list xs x))"
    by (metis distinct_remdups set_remdups sum_list_distinct_conv_sum_set)
  also have "\<dots> = of_nat (\<Sum>x\<in>set xs. count_list xs x)" by simp
  finally show ?thesis by (simp add: sum_count_set [OF order_refl])
qed

end
