(* ===== verification/Rust_Std.thy ===== *)
theory Rust_Std
  imports Prelude
begin

text \<open>
  The functions of the Rust standard library that the source calls on strings, integers and
  paths. Strings are byte strings (UTF-8, as \<open>String\<close> is), one \<open>char\<close> per byte.

  \<^item> \<open>parse_i64\<close> is \<open>str::parse::<i64>\<close>, \<open>show_i64\<close> is \<open>i64::to_string\<close>; they are inverse.
  \<^item> \<open>path_join\<close> is \<open>Path::join\<close> on normalised component lists.
\<close>

section \<open>Definitions\<close>

definition starts_with :: "'a list \<Rightarrow> 'a list \<Rightarrow> bool" where
  "starts_with p s \<longleftrightarrow> take (length p) s = p"

definition strip_prefix :: "string \<Rightarrow> string \<Rightarrow> string option" where
  "strip_prefix p s = (if starts_with p s then Some (drop (length p) s) else None)"

definition trim_end_matches :: "char \<Rightarrow> string \<Rightarrow> string" where
  "trim_end_matches c s = rev (dropWhile (\<lambda>x. x = c) (rev s))"

definition to_ascii_lowercase :: "char \<Rightarrow> char" where
  "to_ascii_lowercase c =
     (let n = (of_char c :: nat) in if 65 \<le> n \<and> n \<le> 90 then char_of (n + 32) else c)"

definition eq_ignore_ascii_case :: "string \<Rightarrow> string \<Rightarrow> bool" where
  "eq_ignore_ascii_case a b \<longleftrightarrow> map to_ascii_lowercase a = map to_ascii_lowercase b"

definition replace_char :: "char \<Rightarrow> char \<Rightarrow> string \<Rightarrow> string" where
  "replace_char a b s = map (\<lambda>c. if c = a then b else c) s"

definition as_bytes :: "string \<Rightarrow> bytes" where
  "as_bytes s = map of_char s"

definition digit_char :: "nat \<Rightarrow> char" where
  "digit_char d = char_of (48 + d)"

definition digit_value :: "char \<Rightarrow> nat option" where
  "digit_value c =
     (let n = (of_char c :: nat) in if 48 \<le> n \<and> n \<le> 57 then Some (n - 48) else None)"

fun show_nat :: "nat \<Rightarrow> string" where
  "show_nat n = (if n < 10 then [digit_char n] else show_nat (n div 10) @ [digit_char (n mod 10)])"

declare show_nat.simps [simp del]

definition show_i64 :: "i64 \<Rightarrow> string" where
  "show_i64 w = (if sint w < 0 then CHR ''-'' # show_nat (nat (- sint w)) else show_nat (nat (sint w)))"

fun parse_digits :: "nat \<Rightarrow> string \<Rightarrow> nat option" where
  "parse_digits acc [] = Some acc"
| "parse_digits acc (c # cs) =
     (case digit_value c of None \<Rightarrow> None | Some d \<Rightarrow> parse_digits (10 * acc + d) cs)"

definition parse_i64 :: "string \<Rightarrow> i64 option" where
  "parse_i64 s =
     (case s of
        [] \<Rightarrow> None
      | c # cs \<Rightarrow>
          if c = CHR ''-'' then
            (if cs = [] then None
             else case parse_digits 0 cs of
                 None \<Rightarrow> None
               | Some n \<Rightarrow> if n \<le> 2 ^ 63 then Some (- of_nat n) else None)
          else
            (let ds = (if c = CHR ''+'' then cs else s) in
             if ds = [] then None
             else case parse_digits 0 ds of
                 None \<Rightarrow> None
               | Some n \<Rightarrow> if n < 2 ^ 63 then Some (of_nat n) else None))"

fun split_on :: "char \<Rightarrow> string \<Rightarrow> string list" where
  "split_on d [] = [[]]"
| "split_on d (c # cs) =
     (if c = d then [] # split_on d cs
      else case split_on d cs of [] \<Rightarrow> [[c]] | p # ps \<Rightarrow> (c # p) # ps)"

definition components :: "string \<Rightarrow> path" where
  "components s = filter (\<lambda>c. c \<noteq> [] \<and> c \<noteq> ''.'') (split_on (CHR ''/'') s)"

definition path_join :: "path \<Rightarrow> string \<Rightarrow> path" where
  "path_join p s = (if starts_with ''/'' s then components s else p @ components s)"

text \<open>A name that \<open>join\<close> appends as exactly one component of the path.\<close>

definition plain_name :: "string \<Rightarrow> bool" where
  "plain_name s \<longleftrightarrow> s \<noteq> [] \<and> s \<noteq> ''.'' \<and> s \<noteq> ''..'' \<and> CHR ''/'' \<notin> set s"

definition unwrap_or :: "'a option \<Rightarrow> 'a \<Rightarrow> 'a" where
  "unwrap_or r d = (case r of None \<Rightarrow> d | Some x \<Rightarrow> x)"

definition option_or :: "'a option \<Rightarrow> 'a option \<Rightarrow> 'a option" where
  "option_or a b = (case a of None \<Rightarrow> b | Some x \<Rightarrow> Some x)"

section \<open>Lemmas\<close>

lemma unwrap_or_simps [simp]: "unwrap_or None d = d" "unwrap_or (Some x) d = x"
  by (simp_all add: unwrap_or_def)

lemma option_or_simps [simp]: "option_or None b = b" "option_or (Some x) b = Some x"
  by (simp_all add: option_or_def)

lemma option_or_None_iff: "option_or a b = None \<longleftrightarrow> a = None \<and> b = None"
  by (cases a) auto

lemma starts_with_append [simp]: "starts_with p (p @ s)"
  by (simp add: starts_with_def)

lemma starts_with_iff: "starts_with p s \<longleftrightarrow> (\<exists>t. s = p @ t)"
  unfolding starts_with_def by (metis append_take_drop_id append_eq_conv_conj)

lemma strip_prefix_Some_iff: "strip_prefix p s = Some t \<longleftrightarrow> s = p @ t"
  by (auto simp: strip_prefix_def starts_with_iff)

lemma strip_prefix_None_iff: "strip_prefix p s = None \<longleftrightarrow> (\<forall>t. s \<noteq> p @ t)"
  by (auto simp: strip_prefix_def starts_with_iff)

lemma trim_end_matches_last:
  "trim_end_matches c s = [] \<or> last (trim_end_matches c s) \<noteq> c"
proof (cases "dropWhile (\<lambda>x. x = c) (rev s)")
  case Nil
  then show ?thesis by (simp add: trim_end_matches_def)
next
  case (Cons a as)
  then have "a \<noteq> c" by (metis (mono_tags, lifting) hd_dropWhile list.discI list.sel(1))
  with Cons show ?thesis by (simp add: trim_end_matches_def)
qed

lemma trim_end_matches_prefix: "\<exists>n. s = trim_end_matches c s @ replicate n c"
proof -
  have "rev s = takeWhile (\<lambda>x. x = c) (rev s) @ dropWhile (\<lambda>x. x = c) (rev s)" by simp
  then have "s = rev (dropWhile (\<lambda>x. x = c) (rev s)) @ rev (takeWhile (\<lambda>x. x = c) (rev s))"
    by (metis rev_append rev_rev_ident)
  moreover have "takeWhile (\<lambda>x. x = c) (rev s) = replicate (length (takeWhile (\<lambda>x. x = c) (rev s))) c"
    by (rule replicate_eqI) (auto dest: set_takeWhileD)
  ultimately show ?thesis
    unfolding trim_end_matches_def by (metis rev_replicate)
qed

lemma eq_ignore_ascii_case_refl [simp]: "eq_ignore_ascii_case s s"
  by (simp add: eq_ignore_ascii_case_def)

lemma unat_of_char: "unat (of_char c :: u8) = of_char c"
proof -
  have "(of_char c :: nat) < 256" by (rule nat_of_char_less_256)
  then have "unat (of_nat (of_char c) :: u8) = (of_char c :: nat)"
    by (simp add: unat_of_nat del: of_nat_of_char)
  then show ?thesis by (simp only: of_nat_of_char)
qed

lemma as_bytes_inj [simp]: "as_bytes s = as_bytes t \<longleftrightarrow> s = t"
proof -
  have "inj (of_char :: char \<Rightarrow> u8)"
  proof (rule injI)
    fix c d :: char
    assume "(of_char c :: u8) = of_char d"
    then have "(of_char c :: nat) = of_char d" using unat_of_char by metis
    then show "c = d" by simp
  qed
  then show ?thesis by (auto simp: as_bytes_def inj_map_eq_map)
qed

subsection \<open>Numbers: printing and parsing\<close>

lemma digit_value_digit_char [simp]: "d < 10 \<Longrightarrow> digit_value (digit_char d) = Some d"
  by (simp add: digit_value_def digit_char_def)

lemma show_nat_nonempty [simp]: "show_nat n \<noteq> []"
  by (subst show_nat.simps) simp

lemma parse_digits_append:
  "parse_digits acc (xs @ ys) = (case parse_digits acc xs of None \<Rightarrow> None | Some m \<Rightarrow> parse_digits m ys)"
  by (induction acc xs rule: parse_digits.induct) (simp_all split: option.splits)

lemma parse_digits_show_nat: "\<exists>k. \<forall>acc. parse_digits acc (show_nat n) = Some (acc * 10 ^ k + n)"
proof (induction n rule: show_nat.induct)
  case (1 n)
  show ?case
  proof (cases "n < 10")
    case True
    then have "\<forall>acc. parse_digits acc (show_nat n) = Some (acc * 10 ^ 1 + n)"
      by (subst show_nat.simps) simp
    then show ?thesis ..
  next
    case False
    with 1 obtain k where k: "\<forall>acc. parse_digits acc (show_nat (n div 10)) = Some (acc * 10 ^ k + n div 10)"
      by blast
    have "\<forall>acc. parse_digits acc (show_nat n) = Some (acc * 10 ^ Suc k + n)"
    proof
      fix acc
      have "show_nat n = show_nat (n div 10) @ [digit_char (n mod 10)]"
        using False by (subst show_nat.simps) simp
      moreover have "10 * (acc * 10 ^ k + n div 10) + n mod 10 = acc * 10 ^ Suc k + n"
        by (simp add: algebra_simps)
      ultimately show "parse_digits acc (show_nat n) = Some (acc * 10 ^ Suc k + n)"
        by (simp add: parse_digits_append k)
    qed
    then show ?thesis ..
  qed
qed

lemma parse_digits_show_nat_0 [simp]: "parse_digits 0 (show_nat n) = Some n"
  using parse_digits_show_nat [of n] by auto

lemma digit_char_sign: "d < 10 \<Longrightarrow> digit_char d \<noteq> CHR ''-'' \<and> digit_char d \<noteq> CHR ''+''"
proof -
  assume "d < 10"
  then have "digit_value (digit_char d) = Some d" by simp
  moreover have "digit_value (CHR ''-'') = None" "digit_value (CHR ''+'') = None"
    by (simp_all add: digit_value_def)
  ultimately show ?thesis by auto
qed

lemma show_nat_hd: "\<exists>d cs. d < 10 \<and> show_nat n = digit_char d # cs"
proof (induction n rule: show_nat.induct)
  case (1 n)
  show ?case
  proof (cases "n < 10")
    case True
    then show ?thesis by (subst show_nat.simps) auto
  next
    case False
    with 1 show ?thesis by (subst show_nat.simps) auto
  qed
qed

lemma show_nat_digits: "c \<in> set (show_nat n) \<Longrightarrow> \<exists>d < 10. c = digit_char d"
proof (induction n rule: show_nat.induct)
  case (1 n)
  have m: "n mod 10 < 10" by simp
  from 1 m show ?case
    by (cases "n < 10") (force simp: show_nat.simps [of n])+
qed

lemma parse_i64_show_i64: "parse_i64 (show_i64 w) = Some w"
proof -
  have lo: "- (2 ^ 63) \<le> sint w" and hi: "sint w < 2 ^ 63"
    using sint_ge [of w] sint_lt [of w] by simp_all
  obtain d cs where d: "d < 10" and hd: "show_nat (nat (sint w)) = digit_char d # cs"
    using show_nat_hd by blast
  have tail: "parse_digits 0 (digit_char d # cs) = Some (nat (sint w))"
    using parse_digits_show_nat_0 [of "nat (sint w)"] unfolding hd .
  show ?thesis
  proof (cases "sint w < 0")
    case True
    have "nat (- sint w) \<le> 2 ^ 63" using lo by (simp add: nat_le_iff)
    moreover have "(- of_nat (nat (- sint w)) :: i64) = w"
    proof -
      have "(of_nat (nat (- sint w)) :: i64) = of_int (- sint w)"
        using True by (simp add: of_nat_nat)
      then show ?thesis by simp
    qed
    ultimately show ?thesis using True by (simp add: parse_i64_def show_i64_def)
  next
    case False
    then have "nat (sint w) < 2 ^ 63" using hi by (simp add: nat_less_iff)
    moreover have "(of_nat (nat (sint w)) :: i64) = w"
      using False by (simp add: of_nat_nat)
    ultimately show ?thesis
      using False digit_char_sign [OF d] tail
      by (simp add: parse_i64_def show_i64_def hd)
  qed
qed

subsection \<open>Paths\<close>

lemma split_on_notin [simp]: "d \<notin> set s \<Longrightarrow> split_on d s = [s]"
  by (induction s) auto

lemma components_plain [simp]: "plain_name s \<Longrightarrow> components s = [s]"
  by (simp add: components_def plain_name_def)

lemma plain_name_not_absolute [simp]: "plain_name s \<Longrightarrow> \<not> starts_with ''/'' s"
  by (auto simp: plain_name_def starts_with_iff)

lemma path_join_plain [simp]: "plain_name s \<Longrightarrow> path_join p s = p @ [s]"
  by (simp add: path_join_def)

lemma path_join_empty: "path_join p [] = p"
  by (simp add: path_join_def components_def starts_with_def)

lemma plain_names [simp]:
  "plain_name ''backups''" "plain_name ''state''" "plain_name ''collection.anki2''"
  "plain_name ''metadata.json''" "plain_name ''metadata.db''"
  "plain_name ''current-pointer.json''" "plain_name ''current-pointer.json.tmp''"
  by (simp_all add: plain_name_def)

end
