(* ===== verification/Core_Backup.thy ===== *)
theory Core_Backup
  imports Rust_Std "HOL-Library.Monad_Syntax"
begin

text \<open>
  The crate \<open>crates/core\<close>: the domain types of \<open>backup.rs\<close> with the two constructors of
  \<open>NewBackupEntry\<close>, and \<open>content_hash\<close> of \<open>hash.rs\<close>.

  \<open>BackupEntry\<close> has the fields of \<open>NewBackupEntry\<close> and an id, and extends its record. The field
  \<open>content_hash\<close> is called \<open>entry_hash\<close>, because \<open>content_hash\<close> is the hash function. The
  \<open>derive(Serialize, Deserialize)\<close> instances that the program uses are written out as functions
  to and from \<open>json\<close>, the documents of \<open>serde_json\<close>; the text of a document is a parameter of
  the model (see \<open>World\<close>).
\<close>

section \<open>Domain types\<close>

datatype BackupStatus = Created | Skipped

datatype BackupSkipReason = Unchanged

record DeckStats =
  deck_id :: i64
  deck_name :: string
  card_count :: i64

record BackupStats =
  total_cards :: i64
  total_decks :: i64
  total_notes :: i64
  total_revlog :: i64
  deck_stats :: "DeckStats list"

record NewBackupEntry =
  created_at :: datetime
  timestamp_dir :: string
  entry_hash :: string
  status :: BackupStatus
  skip_reason :: "BackupSkipReason option"
  source_revision :: "string option"
  sync_duration_ms :: "i64 option"
  size_bytes :: i64
  stats :: "BackupStats option"

record BackupEntry = NewBackupEntry +
  backup_id :: uuid

definition new_created ::
  "datetime \<Rightarrow> string \<Rightarrow> string \<Rightarrow> string option \<Rightarrow> i64 option \<Rightarrow> i64 \<Rightarrow> BackupStats \<Rightarrow> NewBackupEntry"
where
  "new_created created dir hash revision duration sz st =
     \<lparr>created_at = created, timestamp_dir = dir, entry_hash = hash, status = Created,
      skip_reason = None, source_revision = revision, sync_duration_ms = duration,
      size_bytes = sz, stats = Some st\<rparr>"

definition skipped_unchanged :: "datetime \<Rightarrow> string \<Rightarrow> NewBackupEntry" where
  "skipped_unchanged created hash =
     \<lparr>created_at = created, timestamp_dir = [], entry_hash = hash, status = Skipped,
      skip_reason = Some Unchanged, source_revision = None, sync_duration_ms = None,
      size_bytes = 0, stats = None\<rparr>"

definition entry_of_new :: "uuid \<Rightarrow> NewBackupEntry \<Rightarrow> BackupEntry" where
  "entry_of_new u n =
     \<lparr>created_at = created_at n, timestamp_dir = timestamp_dir n, entry_hash = entry_hash n,
      status = status n, skip_reason = skip_reason n, source_revision = source_revision n,
      sync_duration_ms = sync_duration_ms n, size_bytes = size_bytes n, stats = stats n,
      backup_id = u\<rparr>"

text \<open>The shape of an entry that the two constructors give.\<close>

definition entry_shape :: "'a NewBackupEntry_scheme \<Rightarrow> bool" where
  "entry_shape e \<longleftrightarrow>
     (case status e of
        Created \<Rightarrow> skip_reason e = None \<and> stats e \<noteq> None \<and> plain_name (timestamp_dir e)
      | Skipped \<Rightarrow> skip_reason e = Some Unchanged \<and> stats e = None \<and> timestamp_dir e = [] \<and>
          size_bytes e = 0 \<and> source_revision e = None \<and> sync_duration_ms e = None)"

section \<open>Hashing\<close>

text \<open>
  \<open>hash.rs\<close>: the lower-case hexadecimal form of the SHA-256 digest. The crates \<open>sha2\<close> and
  \<open>hex\<close> are the two function arguments.
\<close>

definition content_hash :: "(bytes \<Rightarrow> bytes) \<Rightarrow> (bytes \<Rightarrow> string) \<Rightarrow> bytes \<Rightarrow> string" where
  "content_hash sha256 hex_encode content = hex_encode (sha256 content)"

section \<open>JSON documents and the derived instances\<close>

datatype json_number = IntNum int | FloatNum string

datatype json =
    JNull
  | JBool bool
  | JNumber json_number
  | JString string
  | JArray "json list"
  | JObject "(string \<times> json) list"

definition json_of_i64 :: "i64 \<Rightarrow> json" where
  "json_of_i64 w = JNumber (IntNum (sint w))"

definition json_of_option :: "('a \<Rightarrow> json) \<Rightarrow> 'a option \<Rightarrow> json" where
  "json_of_option f r = (case r of None \<Rightarrow> JNull | Some x \<Rightarrow> f x)"

definition json_of_deck_stats :: "DeckStats \<Rightarrow> json" where
  "json_of_deck_stats d =
     JObject [(''deck_id'', json_of_i64 (deck_id d)),
              (''deck_name'', JString (deck_name d)),
              (''card_count'', json_of_i64 (card_count d))]"

definition json_of_stats :: "BackupStats \<Rightarrow> json" where
  "json_of_stats s =
     JObject [(''total_cards'', json_of_i64 (total_cards s)),
              (''total_decks'', json_of_i64 (total_decks s)),
              (''total_notes'', json_of_i64 (total_notes s)),
              (''total_revlog'', json_of_i64 (total_revlog s)),
              (''deck_stats'', JArray (map json_of_deck_stats (deck_stats s)))]"

text \<open>\<open>format!("{:?}", status)\<close> and the serialised form of the enum are the variant's name.\<close>

definition status_name :: "BackupStatus \<Rightarrow> string" where
  "status_name s = (case s of Created \<Rightarrow> ''Created'' | Skipped \<Rightarrow> ''Skipped'')"

definition skip_reason_name :: "BackupSkipReason \<Rightarrow> string" where
  "skip_reason_name r = (case r of Unchanged \<Rightarrow> ''Unchanged'')"

definition json_of_entry :: "(uuid \<Rightarrow> string) \<Rightarrow> (datetime \<Rightarrow> string) \<Rightarrow> BackupEntry \<Rightarrow> json" where
  "json_of_entry show_uuid show_ts e =
     JObject [(''id'', JString (show_uuid (backup_id e))),
              (''created_at'', JString (show_ts (created_at e))),
              (''timestamp_dir'', JString (timestamp_dir e)),
              (''content_hash'', JString (entry_hash e)),
              (''status'', JString (status_name (status e))),
              (''skip_reason'', json_of_option (\<lambda>r. JString (skip_reason_name r)) (skip_reason e)),
              (''source_revision'', json_of_option JString (source_revision e)),
              (''sync_duration_ms'', json_of_option json_of_i64 (sync_duration_ms e)),
              (''size_bytes'', json_of_i64 (size_bytes e)),
              (''stats'', json_of_option json_of_stats (stats e))]"

text \<open>
  Deserialising: a struct is an object in which every field occurs exactly once (other keys are
  ignored) or the array of its fields in order; an \<open>i64\<close> is an integer number in range.
\<close>

definition json_field :: "string \<Rightarrow> (string \<times> json) list \<Rightarrow> json option" where
  "json_field k fs = (case filter (\<lambda>(k', _). k' = k) fs of [(_, v)] \<Rightarrow> Some v | _ \<Rightarrow> None)"

fun i64_of_json :: "json \<Rightarrow> i64 option" where
  "i64_of_json (JNumber (IntNum n)) =
     (if - (2 ^ 63) \<le> n \<and> n < 2 ^ 63 then Some (word_of_int n) else None)"
| "i64_of_json _ = None"

fun string_of_json :: "json \<Rightarrow> string option" where
  "string_of_json (JString s) = Some s"
| "string_of_json _ = None"

definition deck_stats_of_fields :: "json \<Rightarrow> json \<Rightarrow> json \<Rightarrow> DeckStats option" where
  "deck_stats_of_fields did name cnt =
     do { d \<leftarrow> i64_of_json did;
          n \<leftarrow> string_of_json name;
          c \<leftarrow> i64_of_json cnt;
          Some \<lparr>deck_id = d, deck_name = n, card_count = c\<rparr> }"

fun deck_stats_of_json :: "json \<Rightarrow> DeckStats option" where
  "deck_stats_of_json (JObject fs) =
     do { did \<leftarrow> json_field ''deck_id'' fs;
          name \<leftarrow> json_field ''deck_name'' fs;
          cnt \<leftarrow> json_field ''card_count'' fs;
          deck_stats_of_fields did name cnt }"
| "deck_stats_of_json (JArray [did, name, cnt]) = deck_stats_of_fields did name cnt"
| "deck_stats_of_json _ = None"

fun deck_list_of_json :: "json \<Rightarrow> DeckStats list option" where
  "deck_list_of_json (JArray js) = those (map deck_stats_of_json js)"
| "deck_list_of_json _ = None"

definition stats_of_fields :: "json \<Rightarrow> json \<Rightarrow> json \<Rightarrow> json \<Rightarrow> json \<Rightarrow> BackupStats option" where
  "stats_of_fields cards decks notes revlog per_deck =
     do { c \<leftarrow> i64_of_json cards;
          d \<leftarrow> i64_of_json decks;
          n \<leftarrow> i64_of_json notes;
          r \<leftarrow> i64_of_json revlog;
          ds \<leftarrow> deck_list_of_json per_deck;
          Some \<lparr>total_cards = c, total_decks = d, total_notes = n, total_revlog = r, deck_stats = ds\<rparr> }"

fun stats_of_json :: "json \<Rightarrow> BackupStats option" where
  "stats_of_json (JObject fs) =
     do { cards \<leftarrow> json_field ''total_cards'' fs;
          decks \<leftarrow> json_field ''total_decks'' fs;
          notes \<leftarrow> json_field ''total_notes'' fs;
          revlog \<leftarrow> json_field ''total_revlog'' fs;
          per_deck \<leftarrow> json_field ''deck_stats'' fs;
          stats_of_fields cards decks notes revlog per_deck }"
| "stats_of_json (JArray [cards, decks, notes, revlog, per_deck]) =
     stats_of_fields cards decks notes revlog per_deck"
| "stats_of_json _ = None"

section \<open>Lemmas\<close>

lemma new_created_simps [simp]:
  "created_at (new_created t d h v m z s) = t"
  "timestamp_dir (new_created t d h v m z s) = d"
  "entry_hash (new_created t d h v m z s) = h"
  "status (new_created t d h v m z s) = Created"
  "skip_reason (new_created t d h v m z s) = None"
  "source_revision (new_created t d h v m z s) = v"
  "sync_duration_ms (new_created t d h v m z s) = m"
  "size_bytes (new_created t d h v m z s) = z"
  "stats (new_created t d h v m z s) = Some s"
  by (simp_all add: new_created_def)

lemma skipped_unchanged_simps [simp]:
  "created_at (skipped_unchanged t h) = t"
  "timestamp_dir (skipped_unchanged t h) = []"
  "entry_hash (skipped_unchanged t h) = h"
  "status (skipped_unchanged t h) = Skipped"
  "skip_reason (skipped_unchanged t h) = Some Unchanged"
  "source_revision (skipped_unchanged t h) = None"
  "sync_duration_ms (skipped_unchanged t h) = None"
  "size_bytes (skipped_unchanged t h) = 0"
  "stats (skipped_unchanged t h) = None"
  by (simp_all add: skipped_unchanged_def)

lemma entry_of_new_simps [simp]:
  "created_at (entry_of_new u n) = created_at n"
  "timestamp_dir (entry_of_new u n) = timestamp_dir n"
  "entry_hash (entry_of_new u n) = entry_hash n"
  "status (entry_of_new u n) = status n"
  "skip_reason (entry_of_new u n) = skip_reason n"
  "source_revision (entry_of_new u n) = source_revision n"
  "sync_duration_ms (entry_of_new u n) = sync_duration_ms n"
  "size_bytes (entry_of_new u n) = size_bytes n"
  "stats (entry_of_new u n) = stats n"
  "backup_id (entry_of_new u n) = u"
  by (simp_all add: entry_of_new_def)

lemma entry_shape_of_new [simp]: "entry_shape (entry_of_new u n) = entry_shape n"
  by (simp add: entry_shape_def cong: BackupStatus.case_cong)

lemma entry_shape_created [simp]:
  "entry_shape (new_created t d h v m z s) \<longleftrightarrow> plain_name d"
  by (simp add: entry_shape_def)

lemma entry_shape_skipped [simp]: "entry_shape (skipped_unchanged t h)"
  by (simp add: entry_shape_def)

lemma entry_shape_CreatedD:
  "entry_shape e \<Longrightarrow> status e = Created \<Longrightarrow> plain_name (timestamp_dir e)"
  by (simp add: entry_shape_def)

lemma BackupStatus_not_Created [simp]: "s \<noteq> Created \<longleftrightarrow> s = Skipped"
  by (cases s) simp_all

lemma i64_of_json_of_i64 [simp]: "i64_of_json (json_of_i64 w) = Some w"
  using sint_ge [of w] sint_lt [of w] by (simp add: json_of_i64_def)

lemma deck_stats_json_roundtrip [simp]: "deck_stats_of_json (json_of_deck_stats d) = Some d"
  by (simp add: json_of_deck_stats_def json_field_def deck_stats_of_fields_def)

lemma those_map_Some [simp]: "those (map (\<lambda>x. Some (f x)) xs) = Some (map f xs)"
  by (induction xs) simp_all

lemma deck_list_json_roundtrip [simp]:
  "deck_list_of_json (JArray (map json_of_deck_stats ds)) = Some ds"
  by (simp add: comp_def those_map_Some [where f = "\<lambda>x. x", simplified])

lemma stats_json_roundtrip [simp]: "stats_of_json (json_of_stats s) = Some s"
  by (simp add: json_of_stats_def json_field_def stats_of_fields_def
      del: deck_list_of_json.simps)

end
