(* ===== verification/World.thy ===== *)
theory World
  imports Core_Backup
begin

text \<open>
  The world the program runs in: the file system behind \<open>std::fs\<close>, a metadata database, the
  clock, the random generator, the network and the crates the source calls.

  Everything the repository does not contain is a field of \<open>env\<close>, fixed for a run. What the
  environment answers may differ from call to call, so those fields take the number of the
  call, \<open>step\<close>, which every primitive counts up: the clock reading, the UUID drawn, the
  order in which a query without \<open>ORDER BY\<close> returns its rows, the reply of the network, and
  whether the call fails. A failing call is either clean (\<open>FailClean\<close>: nothing happened) or
  torn (\<open>FailTorn\<close>: a write stored only a prefix, a recursive delete removed only some of the
  files, a database statement took effect although its reply was lost). Renaming a file is
  atomic, as POSIX documents. Theorems hold for every choice of these answers.

  The named hypotheses at the end of the definitions state the documented behaviour of the
  crates that the program relies on.
\<close>

section \<open>Files, requests and collections\<close>

datatype node = Dir | File bytes

type_synonym file_system = "path \<Rightarrow> node option"

datatype fault = FailClean | FailTorn nat "path \<Rightarrow> bool"

record http_request =
  req_url :: string
  req_anki_sync :: string
  req_content_type :: string
  req_body :: bytes

record http_response =
  resp_status :: nat
  resp_location :: "string option"
  resp_body :: bytes

text \<open>
  A collection file as the queries of \<open>extract_stats\<close> see it: a table is \<open>None\<close> when the
  statement that reads it cannot be prepared.
\<close>

datatype sql_value = SqlNull | SqlInteger i64 | SqlReal string | SqlText string | SqlBlob bytes

record collection =
  col_cards :: "sql_value list option"
  col_cards_has_did :: bool
  col_notes :: "nat option"
  col_revlog :: "nat option"
  col_decks_table :: "(sql_value \<times> sql_value) list option"
  col_decks_json :: "sql_value list option"

section \<open>The environment and the world\<close>

record env =
  clock :: "nat \<Rightarrow> datetime"
  fresh_uuid :: "nat \<Rightarrow> uuid"
  random_u32 :: "nat \<Rightarrow> u32"
  elapsed_ms :: "nat \<Rightarrow> nat \<Rightarrow> nat"
  fault_at :: "nat \<Rightarrow> fault option"
  row_order :: "nat \<Rightarrow> nat \<Rightarrow> nat list"
  http_reply :: "nat \<Rightarrow> http_request \<Rightarrow> http_response option"
  sha256 :: "bytes \<Rightarrow> bytes"
  hex_encode :: "bytes \<Rightarrow> string"
  uuid_to_string :: "uuid \<Rightarrow> string"
  uuid_parse_str :: "string \<Rightarrow> uuid option"
  to_rfc3339 :: "datetime \<Rightarrow> string"
  parse_from_rfc3339 :: "string \<Rightarrow> datetime option"
  to_rfc3339_secs :: "datetime \<Rightarrow> string"
  serde_datetime :: "datetime \<Rightarrow> string"
  format_datetime :: "datetime \<Rightarrow> string"
  minute :: "datetime \<Rightarrow> u32"
  second :: "datetime \<Rightarrow> u32"
  num_seconds :: "int \<Rightarrow> int"
  minus_days :: "datetime \<Rightarrow> i64 \<Rightarrow> datetime option"
  pg_timestamp :: "datetime \<Rightarrow> datetime"
  pg_uuid_text :: "uuid \<Rightarrow> string"
  json_to_string :: "json \<Rightarrow> string option"
  json_to_string_pretty :: "json \<Rightarrow> string option"
  json_from_str :: "string \<Rightarrow> json option"
  open_collection :: "bytes \<Rightarrow> collection option"
  header_to_str :: "string \<Rightarrow> string option"
  status_text :: "nat \<Rightarrow> string"
  response_text :: "bytes \<Rightarrow> string"
  tar_single_file :: "string \<Rightarrow> bytes \<Rightarrow> bytes option"
  zstd_encode :: "bytes \<Rightarrow> bytes option"
  zstd_decode :: "bytes \<Rightarrow> bytes option"

record 'db world =
  files :: file_system
  db :: 'db
  step :: nat
  env :: env
  sent :: "http_request list"

section \<open>Primitive calls\<close>

definition tick_io :: "(env \<Rightarrow> nat \<Rightarrow> 'a) \<Rightarrow> ('db world, 'a) io" where
  "tick_io f = (\<lambda>w. (Inr (f (env w) (step w)), w\<lparr>step := Suc (step w)\<rparr>))"

definition utc_now :: "('db world, datetime) io" where
  "utc_now = tick_io clock"

definition uuid_new_v4 :: "('db world, uuid) io" where
  "uuid_new_v4 = tick_io fresh_uuid"

text \<open>
  A file-system call: \<open>eff\<close> is what it does (\<open>None\<close> when the call is refused), \<open>torn\<close> what a
  torn failure leaves.
\<close>

definition fs_call ::
  "(file_system \<Rightarrow> ('a \<times> file_system) option) \<Rightarrow>
   (nat \<Rightarrow> (path \<Rightarrow> bool) \<Rightarrow> file_system \<Rightarrow> file_system) \<Rightarrow> ('db world, 'a) io"
where
  "fs_call eff torn = (\<lambda>w.
     let w1 = w\<lparr>step := Suc (step w)\<rparr> in
     case fault_at (env w) (step w) of
       None \<Rightarrow>
         (case eff (files w) of
            None \<Rightarrow> (Inl (IoError ''refused''), w1)
          | Some (x, f) \<Rightarrow> (Inr x, w1\<lparr>files := f\<rparr>))
     | Some FailClean \<Rightarrow> (Inl (IoError ''failed''), w1)
     | Some (FailTorn n keep) \<Rightarrow> (Inl (IoError ''failed''), w1\<lparr>files := torn n keep (files w)\<rparr>))"

text \<open>A database statement: a torn failure is one whose effect happened and whose reply was lost.\<close>

definition db_call :: "(env \<Rightarrow> nat \<Rightarrow> 'db \<Rightarrow> error + ('a \<times> 'db)) \<Rightarrow> ('db world, 'a) io" where
  "db_call eff = (\<lambda>w.
     let w1 = w\<lparr>step := Suc (step w)\<rparr> in
     case fault_at (env w) (step w) of
       None \<Rightarrow>
         (case eff (env w) (step w) (db w) of
            Inl e \<Rightarrow> (Inl e, w1)
          | Inr (x, d) \<Rightarrow> (Inr x, w1\<lparr>db := d\<rparr>))
     | Some FailClean \<Rightarrow> (Inl (DbError ''failed''), w1)
     | Some (FailTorn n keep) \<Rightarrow>
         (Inl (DbError ''failed''),
          (case eff (env w) (step w) (db w) of Inl e \<Rightarrow> w1 | Inr (x, d) \<Rightarrow> w1\<lparr>db := d\<rparr>)))"

definition is_file :: "node option \<Rightarrow> bool" where
  "is_file n = (case n of Some (File _) \<Rightarrow> True | _ \<Rightarrow> False)"

definition mk_dirs :: "path \<Rightarrow> file_system \<Rightarrow> file_system" where
  "mk_dirs p f = (\<lambda>q. if prefix q p then Some Dir else f q)"

definition create_dir_all :: "path \<Rightarrow> ('db world, unit) io" where
  "create_dir_all p = fs_call
     (\<lambda>f. if list_all (\<lambda>q. \<not> is_file (f q)) (prefixes p) then Some ((), mk_dirs p f) else None)
     (\<lambda>n keep f. if list_all (\<lambda>q. \<not> is_file (f q)) (prefixes (take n p))
                 then mk_dirs (take n p) f else f)"

definition can_write :: "path \<Rightarrow> file_system \<Rightarrow> bool" where
  "can_write p f \<longleftrightarrow> p \<noteq> [] \<and> f (butlast p) = Some Dir \<and> f p \<noteq> Some Dir"

definition fs_write :: "path \<Rightarrow> bytes \<Rightarrow> ('db world, unit) io" where
  "fs_write p content = fs_call
     (\<lambda>f. if can_write p f then Some ((), f(p \<mapsto> File content)) else None)
     (\<lambda>n keep f. if can_write p f then f(p \<mapsto> File (take n content)) else f)"

definition fs_read :: "path \<Rightarrow> ('db world, bytes) io" where
  "fs_read p = fs_call
     (\<lambda>f. case f p of Some (File content) \<Rightarrow> Some (content, f) | _ \<Rightarrow> None)
     (\<lambda>n keep f. f)"

definition fs_len :: "path \<Rightarrow> ('db world, nat) io" where
  "fs_len p = fs_call
     (\<lambda>f. case f p of Some (File content) \<Rightarrow> Some (length content, f) | Some Dir \<Rightarrow> Some (0, f) | None \<Rightarrow> None)
     (\<lambda>n keep f. f)"

definition fs_rename :: "path \<Rightarrow> path \<Rightarrow> ('db world, unit) io" where
  "fs_rename src dst = fs_call
     (\<lambda>f. case f src of
            Some (File content) \<Rightarrow>
              if can_write dst f then Some ((), (f(src := None))(dst \<mapsto> File content)) else None
          | _ \<Rightarrow> None)
     (\<lambda>n keep f. f)"

definition remove_dir_all :: "path \<Rightarrow> ('db world, unit) io" where
  "remove_dir_all p = fs_call
     (\<lambda>f. if f p = Some Dir then Some ((), \<lambda>q. if prefix p q then None else f q) else None)
     (\<lambda>n keep f. if f p = Some Dir then (\<lambda>q. if prefix p q \<and> \<not> keep q then None else f q) else f)"

text \<open>\<open>Path::exists\<close> answers \<open>false\<close> when the file cannot be inspected.\<close>

definition fs_exists :: "path \<Rightarrow> ('db world, bool) io" where
  "fs_exists p = (\<lambda>w. (Inr (fault_at (env w) (step w) = None \<and> files w p \<noteq> None),
                       w\<lparr>step := Suc (step w)\<rparr>))"

section \<open>Row orders\<close>

text \<open>
  SQL leaves the order of rows open where no \<open>ORDER BY\<close> fixes it, also between rows with equal
  keys. \<open>scan_rows\<close> is the arrangement the engine picked at this call; sorting an arbitrary
  arrangement with a stable sort gives every arrangement \<open>ORDER BY .. DESC\<close> allows.
\<close>

definition scan_rows :: "env \<Rightarrow> nat \<Rightarrow> 'a list \<Rightarrow> 'a list" where
  "scan_rows E k rs = map ((!) rs) (row_order E k (length rs))"

definition order_by_desc :: "('a \<Rightarrow> 'k::linorder) \<Rightarrow> env \<Rightarrow> nat \<Rightarrow> 'a list \<Rightarrow> 'a list" where
  "order_by_desc key E k rs = rev (sort_key key (scan_rows E k rs))"

section \<open>Named hypotheses on the crates\<close>

text \<open>Years 0000 to 9999, for which RFC 3339 text has a fixed layout.\<close>

definition ts_window :: "datetime \<Rightarrow> bool" where
  "ts_window t \<longleftrightarrow> - 62167219200 * 10 ^ 9 \<le> t \<and> t < 253402300800 * 10 ^ 9"

definition uuid_codec :: "env \<Rightarrow> bool" where
  "uuid_codec E \<longleftrightarrow> (\<forall>u. uuid_parse_str E (uuid_to_string E u) = Some u)"

definition rfc3339_codec :: "env \<Rightarrow> bool" where
  "rfc3339_codec E \<longleftrightarrow> (\<forall>t. ts_window t \<longrightarrow> parse_from_rfc3339 E (to_rfc3339 E t) = Some t)"

definition rfc3339_ordered :: "env \<Rightarrow> bool" where
  "rfc3339_ordered E \<longleftrightarrow>
     (\<forall>t u. ts_window t \<longrightarrow> ts_window u \<longrightarrow> t < u \<longrightarrow> to_rfc3339 E t < to_rfc3339 E u)"

definition stats_json_codec :: "env \<Rightarrow> bool" where
  "stats_json_codec E \<longleftrightarrow>
     (\<forall>s. \<exists>raw. json_to_string E (json_of_stats s) = Some raw \<and>
               json_from_str E raw = Some (json_of_stats s))"

definition row_order_ok :: "env \<Rightarrow> bool" where
  "row_order_ok E \<longleftrightarrow> (\<forall>k n. mset (row_order E k n) = mset [0..<n])"

definition pg_timestamp_mono :: "env \<Rightarrow> bool" where
  "pg_timestamp_mono E \<longleftrightarrow> (\<forall>t u. t \<le> u \<longrightarrow> pg_timestamp E t \<le> pg_timestamp E u)"

definition dir_names_plain :: "env \<Rightarrow> bool" where
  "dir_names_plain E \<longleftrightarrow>
     (\<forall>t. ts_window t \<longrightarrow> plain_name (replace_char (CHR '':'') (CHR ''-'') (to_rfc3339_secs E t)))"

section \<open>Frames\<close>

definition later :: "'db world \<Rightarrow> 'db world \<Rightarrow> bool" where
  "later w w' \<longleftrightarrow> env w' = env w \<and> step w \<le> step w'"

definition db_only :: "'db world \<Rightarrow> 'db world \<Rightarrow> bool" where
  "db_only w w' \<longleftrightarrow> later w w' \<and> files w' = files w \<and> sent w' = sent w"

definition files_only :: "'db world \<Rightarrow> 'db world \<Rightarrow> bool" where
  "files_only w w' \<longleftrightarrow> later w w' \<and> db w' = db w \<and> sent w' = sent w"

definition read_only :: "'db world \<Rightarrow> 'db world \<Rightarrow> bool" where
  "read_only w w' \<longleftrightarrow> later w w' \<and> db w' = db w \<and> files w' = files w \<and> sent w' = sent w"

text \<open>A call between the two worlds failed.\<close>

definition faulted :: "'db world \<Rightarrow> 'db world \<Rightarrow> bool" where
  "faulted w w' \<longleftrightarrow> (\<exists>k. step w \<le> k \<and> k < step w' \<and> fault_at (env w) k \<noteq> None)"

text \<open>No call from here on fails.\<close>

definition quiet :: "'db world \<Rightarrow> bool" where
  "quiet w \<longleftrightarrow> (\<forall>k. step w \<le> k \<longrightarrow> fault_at (env w) k = None)"

lemmas frame_defs = later_def db_only_def files_only_def read_only_def

section \<open>Lemmas\<close>

subsection \<open>Frames\<close>

lemma later_refl [simp]: "later w w"
  by (simp add: later_def)

lemma later_trans [trans]: "later a b \<Longrightarrow> later b c \<Longrightarrow> later a c"
  by (simp add: later_def)

lemma read_only_refl [simp]: "read_only w w"
  by (simp add: frame_defs)

lemma read_only_trans [trans]: "read_only a b \<Longrightarrow> read_only b c \<Longrightarrow> read_only a c"
  by (simp add: frame_defs)

lemma db_only_trans [trans]: "db_only a b \<Longrightarrow> db_only b c \<Longrightarrow> db_only a c"
  by (simp add: frame_defs)

lemma files_only_trans [trans]: "files_only a b \<Longrightarrow> files_only b c \<Longrightarrow> files_only a c"
  by (simp add: frame_defs)

lemma read_only_db_only: "read_only a b \<Longrightarrow> db_only a b"
  and read_only_files_only: "read_only a b \<Longrightarrow> files_only a b"
  and read_only_later: "read_only a b \<Longrightarrow> later a b"
  and db_only_later: "db_only a b \<Longrightarrow> later a b"
  and files_only_later: "files_only a b \<Longrightarrow> later a b"
  by (simp_all add: frame_defs)

lemma quiet_later: "quiet w \<Longrightarrow> later w w' \<Longrightarrow> quiet w'"
  by (auto simp: quiet_def later_def)

lemma quiet_not_faulted: "quiet w \<Longrightarrow> \<not> faulted w w'"
  by (auto simp: quiet_def faulted_def)

lemma faulted_extend_left: "later a b \<Longrightarrow> faulted b c \<Longrightarrow> faulted a c"
  unfolding faulted_def later_def by (metis order_trans)

lemma faulted_extend_right: "later b c \<Longrightarrow> faulted a b \<Longrightarrow> faulted a c"
  unfolding faulted_def later_def by (metis order_less_le_trans)

subsection \<open>Primitive calls\<close>

lemma runs_tick [wp_simps]:
  "runs (tick_io f) w Q R = Q (f (env w) (step w)) (w\<lparr>step := Suc (step w)\<rparr>)"
  by (simp add: runs_def tick_io_def)

lemma runs_utc_now [wp_simps]:
  "runs utc_now w Q R = Q (clock (env w) (step w)) (w\<lparr>step := Suc (step w)\<rparr>)"
  by (simp add: utc_now_def wp_simps)

lemma runs_uuid_new_v4 [wp_simps]:
  "runs uuid_new_v4 w Q R = Q (fresh_uuid (env w) (step w)) (w\<lparr>step := Suc (step w)\<rparr>)"
  by (simp add: uuid_new_v4_def wp_simps)

lemma runs_fs_exists [wp_simps]:
  "runs (fs_exists p) w Q R =
     Q (fault_at (env w) (step w) = None \<and> files w p \<noteq> None) (w\<lparr>step := Suc (step w)\<rparr>)"
  by (simp add: runs_def fs_exists_def)

lemma faulted_now: "fault_at (env w) (step w) \<noteq> None \<Longrightarrow> faulted w (w\<lparr>step := Suc (step w)\<rparr>)"
  by (auto simp: faulted_def)

lemma faulted_at_step: "fault_at (env w) (step w) \<noteq> None \<Longrightarrow> step w < step w' \<Longrightarrow> faulted w w'"
  by (auto simp: faulted_def)

lemma faulted_SomeI: "fault_at (env w) k = Some y \<Longrightarrow> step w \<le> k \<Longrightarrow> k < step w' \<Longrightarrow> faulted w w'"
  by (auto simp: faulted_def)

text \<open>
  The rules for the two kinds of fallible calls: a success happened at a step without fault,
  an error is a fault or a refusal, and each leaves one of the listed states.
\<close>

lemma runs_fs_call:
  assumes "\<And>x f. eff (files w) = Some (x, f) \<Longrightarrow> fault_at (env w) (step w) = None \<Longrightarrow>
      Q x (w\<lparr>step := Suc (step w), files := f\<rparr>)"
    and "\<And>m. fault_at (env w) (step w) \<noteq> None \<or> eff (files w) = None \<Longrightarrow>
      R (IoError m) (w\<lparr>step := Suc (step w)\<rparr>)"
    and "\<And>m n keep. fault_at (env w) (step w) = Some (FailTorn n keep) \<Longrightarrow>
      R (IoError m) (w\<lparr>step := Suc (step w), files := torn n keep (files w)\<rparr>)"
  shows "runs (fs_call eff torn) w Q R"
  using assms by (auto simp: runs_def fs_call_def Let_def split: option.splits fault.splits)

lemma runs_db_call:
  assumes "\<And>x d. eff (env w) (step w) (db w) = Inr (x, d) \<Longrightarrow> fault_at (env w) (step w) = None \<Longrightarrow>
      Q x (w\<lparr>step := Suc (step w), db := d\<rparr>)"
    and "\<And>m. fault_at (env w) (step w) \<noteq> None \<Longrightarrow> R (DbError m) (w\<lparr>step := Suc (step w)\<rparr>)"
    and "\<And>e. fault_at (env w) (step w) = None \<Longrightarrow> eff (env w) (step w) (db w) = Inl e \<Longrightarrow>
      R e (w\<lparr>step := Suc (step w)\<rparr>)"
    and "\<And>m x d. fault_at (env w) (step w) \<noteq> None \<Longrightarrow> eff (env w) (step w) (db w) = Inr (x, d) \<Longrightarrow>
      R (DbError m) (w\<lparr>step := Suc (step w), db := d\<rparr>)"
  shows "runs (db_call eff) w Q R"
  using assms by (auto simp: runs_def db_call_def Let_def split: option.splits fault.splits sum.splits)

text \<open>
  A statement that changes the database, seen from an earlier world \<open>w0\<close>: it ends in the new
  view \<open>N\<close>; if it fails, the view is the old one \<open>Ol\<close> or, after a lost reply, the new one, and
  without a fault the failure has the cause \<open>C\<close>.
\<close>

lemma runs_db_change:
  assumes "db_only w0 w"
    and "\<And>x d. eff (env w) (step w) (db w) = Inr (x, d) \<Longrightarrow> N (w\<lparr>step := Suc (step w), db := d\<rparr>)"
    and "Ol (w\<lparr>step := Suc (step w)\<rparr>)"
    and "\<And>e. eff (env w) (step w) (db w) = Inl e \<Longrightarrow> C (w\<lparr>step := Suc (step w)\<rparr>)"
  shows "runs (db_call eff) w (\<lambda>_ w'. db_only w0 w' \<and> N w')
    (\<lambda>_ w'. db_only w0 w' \<and> (faulted w0 w' \<and> (Ol w' \<or> N w') \<or> Ol w' \<and> C w'))"
proof -
  have f: "faulted w0 w'" if "fault_at (env w) (step w) \<noteq> None" "later w w'" "step w < step w'" for w'
    using that assms(1) by (auto simp: faulted_def frame_defs)
  have l: "db_only w0 (w\<lparr>step := Suc (step w), db := d\<rparr>)" "db_only w0 (w\<lparr>step := Suc (step w)\<rparr>)" for d
    using assms(1) by (simp_all add: frame_defs)
  show ?thesis
    by (rule runs_db_call) (use assms(2-4) f l in \<open>simp_all add: later_def\<close>)
qed

subsection \<open>Row orders\<close>

lemma mset_scan_rows [simp]: "row_order_ok E \<Longrightarrow> mset (scan_rows E k rs) = mset rs"
  unfolding scan_rows_def row_order_ok_def by (rule mset_map_nth) blast

lemma set_scan_rows [simp]: "row_order_ok E \<Longrightarrow> set (scan_rows E k rs) = set rs"
  by (metis mset_scan_rows set_mset_mset)

lemma scan_rows_map: "scan_rows E k (map f rs) = map f (scan_rows E k rs)" if "row_order_ok E"
proof -
  have "set (row_order E k (length rs)) = set [0..<length rs]"
    using that unfolding row_order_ok_def by (metis set_mset_mset)
  then show ?thesis by (simp add: scan_rows_def)
qed

lemma mset_order_by_desc [simp]: "row_order_ok E \<Longrightarrow> mset (order_by_desc key E k rs) = mset rs"
  by (simp add: order_by_desc_def)

lemma set_order_by_desc [simp]: "row_order_ok E \<Longrightarrow> set (order_by_desc key E k rs) = set rs"
  by (metis mset_order_by_desc set_mset_mset)

lemma sorted_order_by_desc: "sorted_wrt (\<lambda>a b. key b \<le> key a) (order_by_desc key E k rs)"
proof -
  have "sorted_wrt (\<lambda>a b. key a \<le> key b) (sort_key key (scan_rows E k rs))"
    using sorted_sort_key [of key "scan_rows E k rs"] by (simp add: sorted_wrt_map)
  then show ?thesis by (simp add: order_by_desc_def sorted_wrt_rev)
qed

lemma order_by_desc_hd:
  assumes "row_order_ok E"
  shows "case take 1 (order_by_desc key E k rs) of
      [] \<Rightarrow> rs = []
    | r # _ \<Rightarrow> r \<in> set rs \<and> (\<forall>r' \<in> set rs. key r' \<le> key r)"
proof (cases "order_by_desc key E k rs")
  case Nil
  then have "set rs = {}" using set_order_by_desc [OF assms, of key k rs] by simp
  with Nil show ?thesis by simp
next
  case (Cons r rest)
  have "set rs = insert r (set rest)"
    using set_order_by_desc [OF assms, of key k rs] Cons by simp
  moreover have "\<forall>r' \<in> set rest. key r' \<le> key r"
    using sorted_order_by_desc [of key E k rs] Cons by simp
  ultimately show ?thesis using Cons by simp
qed

subsection \<open>Timestamps as text\<close>

lemma rfc3339_less_iff:
  assumes "rfc3339_ordered E" "ts_window t" "ts_window u"
  shows "to_rfc3339 E t < to_rfc3339 E u \<longleftrightarrow> t < u"
  using assms unfolding rfc3339_ordered_def by (metis less_asym less_irrefl linorder_less_linear)

lemma rfc3339_le_iff:
  assumes "rfc3339_ordered E" "ts_window t" "ts_window u"
  shows "to_rfc3339 E t \<le> to_rfc3339 E u \<longleftrightarrow> t \<le> u"
  using rfc3339_less_iff [OF assms(1,3,2)] by (simp add: linorder_not_less [symmetric])

lemma uuid_to_string_inj: "uuid_codec E \<Longrightarrow> uuid_to_string E u = uuid_to_string E v \<longleftrightarrow> u = v"
  unfolding uuid_codec_def by (metis option.inject)

end
