(* ===== verification/Store_Spec.thy ===== *)
theory Store_Spec
  imports World
begin

text \<open>
  \<open>crates/storage/src/store.rs\<close>: the trait \<open>MetadataStore\<close>. An \<open>Arc<dyn MetadataStore>\<close> is a
  record of its six methods. The locale \<open>metadata_store_laws\<close> is what the two backends promise
  to the repository: an abstract view (the entries, and the rollback events) and, for every
  method, what it returns and how the view changes, on success and on failure. The backends
  are interpreted in \<open>Sqlite_Store\<close> and \<open>Postgres_Store\<close>; the repository's lemmas are proved
  once, in the locale.

  \<open>stored_ts\<close> is what a timestamp becomes when it is stored (Postgres keeps microseconds only)
  and \<open>good_ts\<close> the timestamps a backend stores without damage.
\<close>

section \<open>The trait\<close>

record 'db MetadataStore =
  insert_entry :: "BackupEntry \<Rightarrow> ('db world, unit) io"
  list_backups :: "('db world, BackupEntry list) io"
  get_backup :: "uuid \<Rightarrow> ('db world, BackupEntry option) io"
  insert_rollback_event :: "uuid \<Rightarrow> ('db world, unit) io"
  last_created_hash :: "('db world, string option) io"
  prune_created_before :: "datetime \<Rightarrow> ('db world, (string \<times> string) list) io"

section \<open>The column of statistics\<close>

text \<open>Both backends keep the statistics as JSON text in \<open>stats_json\<close>.\<close>

text \<open>\<open>stats.as_ref().map(serde_json::to_string).transpose()?\<close> and its inverse.\<close>

definition stats_to_text :: "env \<Rightarrow> BackupStats option \<Rightarrow> string option option" where
  "stats_to_text E s =
     (case s of None \<Rightarrow> Some None | Some x \<Rightarrow> map_option Some (json_to_string E (json_of_stats x)))"

definition stats_of_text :: "env \<Rightarrow> string option \<Rightarrow> BackupStats option option" where
  "stats_of_text E raw =
     (case raw of None \<Rightarrow> Some None
      | Some x \<Rightarrow> map_option Some (Option.bind (json_from_str E x) stats_of_json))"

section \<open>The abstract view\<close>

abbreviation ids_of :: "BackupEntry list \<Rightarrow> uuid set" where
  "ids_of es \<equiv> backup_id ` set es"

definition is_created :: "BackupEntry \<Rightarrow> bool" where
  "is_created e \<longleftrightarrow> status e = Created"

definition with_ts :: "datetime \<Rightarrow> BackupEntry \<Rightarrow> BackupEntry" where
  "with_ts t e = e\<lparr>created_at := t\<rparr>"

definition doomed :: "datetime \<Rightarrow> BackupEntry \<Rightarrow> bool" where
  "doomed cutoff e \<longleftrightarrow> is_created e \<and> created_at e < cutoff"

text \<open>What \<open>last_created_hash\<close> may answer: the hash of a newest created entry.\<close>

definition newest_hash :: "BackupEntry list \<Rightarrow> string option \<Rightarrow> bool" where
  "newest_hash es r \<longleftrightarrow>
     (case r of
        None \<Rightarrow> filter is_created es = []
      | Some h \<Rightarrow> \<exists>e \<in> set es. is_created e \<and> entry_hash e = h \<and>
          (\<forall>e' \<in> set es. is_created e' \<longrightarrow> created_at e' \<le> created_at e))"

definition newest_first :: "BackupEntry list \<Rightarrow> bool" where
  "newest_first es \<longleftrightarrow> sorted_wrt (\<lambda>a b. created_at b \<le> created_at a) es"

text \<open>An event id drawn between the two worlds was taken already.\<close>

definition id_clash :: "uuid set \<Rightarrow> 'db world \<Rightarrow> 'db world \<Rightarrow> bool" where
  "id_clash used w w' \<longleftrightarrow> (\<exists>k. step w \<le> k \<and> k < step w' \<and> fresh_uuid (env w) k \<in> used)"

section \<open>The contract\<close>

locale metadata_store_laws =
  fixes st :: "'db MetadataStore"
    and rows :: "'db world \<Rightarrow> BackupEntry list"
    and events :: "'db world \<Rightarrow> (uuid \<times> uuid) list"
    and stored_ts :: "env \<Rightarrow> datetime \<Rightarrow> datetime"
    and good_ts :: "datetime \<Rightarrow> bool"
    and invar :: "'db world \<Rightarrow> bool"
  assumes invar_distinct: "invar w \<Longrightarrow> distinct (map backup_id (rows w))"
    and view_db: "invar w \<Longrightarrow> env w' = env w \<Longrightarrow> db w' = db w \<Longrightarrow>
      invar w' \<and> rows w' = rows w \<and> events w' = events w"
    and stored_ts_mono: "invar w \<Longrightarrow> t \<le> t' \<Longrightarrow> stored_ts (env w) t \<le> stored_ts (env w) t'"
    and insert_entry_law: "invar w \<Longrightarrow> good_ts (created_at e) \<Longrightarrow>
      runs (insert_entry st e) w
        (\<lambda>_ w'. invar w' \<and> db_only w w' \<and> events w' = events w \<and>
           backup_id e \<notin> ids_of (rows w) \<and>
           rows w' = rows w @ [with_ts (stored_ts (env w) (created_at e)) e])
        (\<lambda>_ w'. invar w' \<and> db_only w w' \<and> events w' = events w \<and>
           (faulted w w' \<or> backup_id e \<in> ids_of (rows w)) \<and>
           (rows w' = rows w \<or>
            backup_id e \<notin> ids_of (rows w) \<and>
            rows w' = rows w @ [with_ts (stored_ts (env w) (created_at e)) e]))"
    and list_backups_law: "invar w \<Longrightarrow>
      runs (list_backups st) w
        (\<lambda>es w'. read_only w w' \<and> mset es = mset (rows w) \<and> newest_first es)
        (\<lambda>_ w'. read_only w w' \<and> faulted w w')"
    and get_backup_law: "invar w \<Longrightarrow>
      runs (get_backup st u) w
        (\<lambda>r w'. read_only w w' \<and> r = find (\<lambda>e. backup_id e = u) (rows w))
        (\<lambda>_ w'. read_only w w' \<and> faulted w w')"
    and insert_rollback_event_law: "invar w \<Longrightarrow>
      runs (insert_rollback_event st u) w
        (\<lambda>_ w'. invar w' \<and> db_only w w' \<and> rows w' = rows w \<and>
           (\<exists>v. events w' = events w @ [(v, u)]))
        (\<lambda>_ w'. invar w' \<and> db_only w w' \<and> rows w' = rows w \<and>
           (faulted w w' \<or> id_clash (fst ` set (events w)) w w') \<and>
           (events w' = events w \<or> (\<exists>v. events w' = events w @ [(v, u)])))"
    and last_created_hash_law: "invar w \<Longrightarrow>
      runs (last_created_hash st) w
        (\<lambda>r w'. read_only w w' \<and> newest_hash (rows w) r)
        (\<lambda>_ w'. read_only w w' \<and> faulted w w')"
    and prune_law: "invar w \<Longrightarrow> good_ts c \<Longrightarrow>
      runs (prune_created_before st c) w
        (\<lambda>r w'. invar w' \<and> db_only w w' \<and> events w' = events w \<and>
           rows w' = filter (\<lambda>e. \<not> doomed (stored_ts (env w) c) e) (rows w) \<and>
           mset (map snd r) =
             mset (map timestamp_dir (filter (doomed (stored_ts (env w) c)) (rows w))))
        (\<lambda>_ w'. invar w' \<and> db_only w w' \<and> events w' = events w \<and> faulted w w' \<and>
           (\<exists>P. rows w' = filter P (rows w) \<and>
             (\<forall>e \<in> set (rows w). \<not> doomed (stored_ts (env w) c) e \<longrightarrow> P e)))"
begin

lemma view_read_only:
  assumes "invar w" and "read_only w w'"
  shows "invar w'" and "rows w' = rows w" and "events w' = events w"
  using view_db [of w w'] assms by (auto simp: frame_defs)

lemma view_files_only:
  assumes "invar w" and "files_only w w'"
  shows "invar w'" and "rows w' = rows w" and "events w' = events w"
  using view_db [of w w'] assms by (auto simp: frame_defs)

text \<open>Round trip: what was inserted is what \<open>get_backup\<close> returns.\<close>

lemma insert_then_get:
  assumes "invar w" and "good_ts (created_at e)"
    and ins: "insert_entry st e w = (Inr (), w1)"
    and get: "get_backup st (backup_id e) w1 = (Inr r, w2)"
  shows "r = Some (with_ts (stored_ts (env w) (created_at e)) e)"
proof -
  have i: "invar w1 \<and> rows w1 = rows w @ [with_ts (stored_ts (env w) (created_at e)) e]"
    using runs_okD [OF insert_entry_law [OF assms(1,2)] ins] by simp
  then have "r = find (\<lambda>e'. backup_id e' = backup_id e) (rows w1)"
    using runs_okD [OF get_backup_law get] by simp
  moreover have "distinct (map backup_id (rows w1))" using i invar_distinct by blast
  moreover have "with_ts (stored_ts (env w) (created_at e)) e \<in> set (rows w1)"
    using i by simp
  ultimately show ?thesis
    using find_Some_distinct [of backup_id "rows w1" "with_ts (stored_ts (env w) (created_at e)) e"]
    by (simp add: with_ts_def)
qed

text \<open>A second insertion under the same id is refused and changes nothing.\<close>

lemma insert_duplicate:
  assumes "invar w" and "good_ts (created_at e)" and "backup_id e \<in> ids_of (rows w)"
  shows "\<exists>err w'. insert_entry st e w = (Inl err, w') \<and> rows w' = rows w"
proof -
  obtain r w' where rw: "insert_entry st e w = (r, w')" by (cases "insert_entry st e w")
  show ?thesis
  proof (cases r)
    case (Inl err)
    then show ?thesis
      using runs_errD [OF insert_entry_law [OF assms(1,2)]] rw assms(3) by fastforce
  next
    case (Inr x)
    then show ?thesis
      using runs_okD [OF insert_entry_law [OF assms(1,2)]] rw assms(3) by fastforce
  qed
qed

text \<open>Pruning twice with the same cutoff finds nothing the second time.\<close>

lemma prune_idempotent:
  assumes "invar w" and "good_ts c"
    and first: "prune_created_before st c w = (Inr r1, w1)"
    and second: "prune_created_before st c w1 = (Inr r2, w2)"
  shows "r2 = []" and "rows w2 = rows w1"
proof -
  have f: "invar w1 \<and> env w1 = env w \<and>
      rows w1 = filter (\<lambda>e. \<not> doomed (stored_ts (env w) c) e) (rows w)"
    using runs_okD [OF prune_law [OF assms(1,2)] first] by (simp add: frame_defs)
  then have s: "rows w2 = filter (\<lambda>e. \<not> doomed (stored_ts (env w) c) e) (rows w1)"
    and m: "mset (map snd r2) =
      mset (map timestamp_dir (filter (doomed (stored_ts (env w) c)) (rows w1)))"
    using runs_okD [OF prune_law [OF _ assms(2)] second] by simp_all
  show "rows w2 = rows w1" using f s by simp
  have "filter (doomed (stored_ts (env w) c)) (rows w1) = []" using f by simp
  then show "r2 = []" using m by simp
qed

end

section \<open>Lemmas\<close>

lemma stats_text_roundtrip:
  assumes "stats_json_codec E"
  obtains enc where "stats_to_text E s = Some enc" and "stats_of_text E enc = Some s"
proof (cases s)
  case None
  then show ?thesis using that [of None] by (simp add: stats_to_text_def stats_of_text_def)
next
  case (Some x)
  obtain raw where "json_to_string E (json_of_stats x) = Some raw"
    and "json_from_str E raw = Some (json_of_stats x)"
    using assms unfolding stats_json_codec_def by blast
  then show ?thesis
    using that [of "Some raw"] Some by (simp add: stats_to_text_def stats_of_text_def)
qed

lemma with_ts_simps [simp]:
  "created_at (with_ts t e) = t"
  "backup_id (with_ts t e) = backup_id e"
  "status (with_ts t e) = status e"
  "timestamp_dir (with_ts t e) = timestamp_dir e"
  "entry_hash (with_ts t e) = entry_hash e"
  "size_bytes (with_ts t e) = size_bytes e"
  "stats (with_ts t e) = stats e"
  "skip_reason (with_ts t e) = skip_reason e"
  "source_revision (with_ts t e) = source_revision e"
  "sync_duration_ms (with_ts t e) = sync_duration_ms e"
  by (simp_all add: with_ts_def)

lemma with_ts_same [simp]: "with_ts (created_at e) e = e"
  by (simp add: with_ts_def)

lemma is_created_with_ts [simp]: "is_created (with_ts t e) = is_created e"
  by (simp add: is_created_def)

lemma entry_shape_with_ts [simp]: "entry_shape (with_ts t e) = entry_shape e"
  by (simp add: entry_shape_def cong: BackupStatus.case_cong)

lemma doomed_is_created: "doomed c e \<Longrightarrow> is_created e"
  by (simp add: doomed_def)

lemma id_clashI:
  "fresh_uuid (env w) (step w') \<in> ids \<Longrightarrow> later w w' \<Longrightarrow> step w' < step w'' \<Longrightarrow> id_clash ids w w''"
  unfolding id_clash_def later_def by (intro exI [of _ "step w'"]) simp

lemma id_clash_extend_left: "later w w' \<Longrightarrow> id_clash ids w' w'' \<Longrightarrow> id_clash ids w w''"
  unfolding id_clash_def later_def by (metis order_trans)

end
