(* ===== verification/Sqlite_Store.thy ===== *)
theory Sqlite_Store
  imports Store_Spec
begin

text \<open>
  \<open>crates/storage/src/sqlite_store.rs\<close>: the SQLite backend. A row holds what SQLite holds:
  ids, timestamps, states and statistics as text. The SQL statements of the source are the
  operations on the list of rows they denote (\<open>INSERT\<close> refuses a duplicate primary key, text is
  compared bytewise, \<open>CREATE TABLE IF NOT EXISTS\<close> keeps an existing table); a table that does not
  exist is \<open>None\<close>. Every method opens a connection first, which can fail by itself.

  The lemmas show that a row decodes to the entry it was made from, that the textual order of
  the timestamps is their order in time, and with that the interpretation of the contract.
\<close>

section \<open>Tables\<close>

record sqlite_row =
  r_id :: string
  r_created_at :: string
  r_timestamp_dir :: string
  r_content_hash :: string
  r_status :: string
  r_skip_reason :: "string option"
  r_source_revision :: "string option"
  r_sync_duration_ms :: "i64 option"
  r_size_bytes :: i64
  r_stats_json :: "string option"

record sqlite_event =
  ev_id :: string
  ev_backup_id :: string
  ev_created_at :: string

record sqlite_db =
  backups_table :: "sqlite_row list option"
  rollback_events_table :: "sqlite_event list option"

section \<open>Column codecs\<close>

definition parse_uuid :: "env \<Rightarrow> string \<Rightarrow> uuid" where
  "parse_uuid E raw = unwrap_or (uuid_parse_str E raw) 0"

definition parse_ts :: "env \<Rightarrow> datetime \<Rightarrow> string \<Rightarrow> datetime" where
  "parse_ts E now raw = unwrap_or (parse_from_rfc3339 E raw) now"

definition parse_status :: "string \<Rightarrow> BackupStatus" where
  "parse_status raw = (if eq_ignore_ascii_case raw ''skipped'' then Skipped else Created)"

definition status_str :: "BackupStatus \<Rightarrow> string" where
  "status_str s = (case s of Created \<Rightarrow> ''created'' | Skipped \<Rightarrow> ''skipped'')"

definition parse_skip_reason :: "string \<Rightarrow> BackupSkipReason" where
  "parse_skip_reason raw = (if raw = ''unchanged'' then Unchanged else Unchanged)"

definition skip_reason_str :: "BackupSkipReason \<Rightarrow> string" where
  "skip_reason_str r = (case r of Unchanged \<Rightarrow> ''unchanged'')"

text \<open>The \<open>params![..]\<close> of the \<open>INSERT\<close>.\<close>

definition sqlite_row_of_entry :: "env \<Rightarrow> BackupEntry \<Rightarrow> sqlite_row option" where
  "sqlite_row_of_entry E e = map_option (\<lambda>text.
     \<lparr>r_id = uuid_to_string E (backup_id e),
      r_created_at = to_rfc3339 E (created_at e),
      r_timestamp_dir = timestamp_dir e,
      r_content_hash = entry_hash e,
      r_status = status_str (status e),
      r_skip_reason = map_option skip_reason_str (skip_reason e),
      r_source_revision = source_revision e,
      r_sync_duration_ms = sync_duration_ms e,
      r_size_bytes = size_bytes e,
      r_stats_json = text\<rparr>) (stats_to_text E (stats e))"

definition row_to_entry :: "env \<Rightarrow> datetime \<Rightarrow> sqlite_row \<Rightarrow> error + BackupEntry" where
  "row_to_entry E now r =
     (case stats_of_text E (r_stats_json r) of
        None \<Rightarrow> Inl JsonError
      | Some s \<Rightarrow> Inr
         \<lparr>created_at = parse_ts E now (r_created_at r),
          timestamp_dir = r_timestamp_dir r,
          entry_hash = r_content_hash r,
          status = parse_status (r_status r),
          skip_reason = map_option parse_skip_reason (r_skip_reason r),
          source_revision = r_source_revision r,
          sync_duration_ms = r_sync_duration_ms r,
          size_bytes = r_size_bytes r,
          stats = s,
          backup_id = parse_uuid E (r_id r)\<rparr>)"

section \<open>The methods\<close>

definition sqlite_connect :: "(sqlite_db world, unit) io" where
  "sqlite_connect = map_err (Context ''open metadata db'') (db_call (\<lambda>E k d. Inr ((), d)))"

text \<open>\<open>execute_batch\<close> runs its statements one after the other, outside a transaction.\<close>

definition init_db :: "(sqlite_db world, unit) io" where
  "init_db = seq_io sqlite_connect
     (seq_io
       (db_call (\<lambda>E k d. Inr ((), d\<lparr>backups_table := Some (unwrap_or (backups_table d) [])\<rparr>)))
       (db_call (\<lambda>E k d. Inr ((), d\<lparr>rollback_events_table := Some (unwrap_or (rollback_events_table d) [])\<rparr>))))"

definition insert_stmt :: "sqlite_row \<Rightarrow> sqlite_db \<Rightarrow> error + (unit \<times> sqlite_db)" where
  "insert_stmt row d =
     (case backups_table d of
        None \<Rightarrow> Inl (DbError ''no such table: backups'')
      | Some rs \<Rightarrow>
          if r_id row \<in> set (map r_id rs) then Inl (DbError ''UNIQUE constraint failed: backups.id'')
          else Inr ((), d\<lparr>backups_table := Some (rs @ [row])\<rparr>))"

definition sqlite_insert_entry :: "BackupEntry \<Rightarrow> (sqlite_db world, unit) io" where
  "sqlite_insert_entry e = seq_io sqlite_connect
     (bind_io (get_io env) (\<lambda>E.
      bind_io (of_option JsonError (sqlite_row_of_entry E e)) (\<lambda>row.
      db_call (\<lambda>_ _. insert_stmt row))))"

text \<open>A \<open>SELECT\<close>: the rows of the table, the answer computed from them, nothing changed.\<close>

definition select_backups :: "(env \<Rightarrow> nat \<Rightarrow> sqlite_row list \<Rightarrow> error + 'a) \<Rightarrow> (sqlite_db world, 'a) io" where
  "select_backups q = db_call (\<lambda>E k d.
     case backups_table d of
       None \<Rightarrow> Inl (DbError ''no such table: backups'')
     | Some rs \<Rightarrow> (case q E k rs of Inl err \<Rightarrow> Inl err | Inr x \<Rightarrow> Inr (x, d)))"

definition sqlite_list_backups :: "(sqlite_db world, BackupEntry list) io" where
  "sqlite_list_backups = seq_io sqlite_connect
     (select_backups (\<lambda>E k rs.
        collect_results (map (row_to_entry E (clock E k)) (order_by_desc r_created_at E k rs))))"

definition sqlite_get_backup :: "uuid \<Rightarrow> (sqlite_db world, BackupEntry option) io" where
  "sqlite_get_backup u = seq_io sqlite_connect
     (select_backups (\<lambda>E k rs.
        case scan_rows E k (filter (\<lambda>r. r_id r = uuid_to_string E u) rs) of
          [] \<Rightarrow> Inr None
        | r # _ \<Rightarrow> (case row_to_entry E (clock E k) r of Inl err \<Rightarrow> Inl err | Inr e \<Rightarrow> Inr (Some e))))"

definition insert_event_stmt :: "sqlite_event \<Rightarrow> sqlite_db \<Rightarrow> error + (unit \<times> sqlite_db)" where
  "insert_event_stmt ev d =
     (case rollback_events_table d of
        None \<Rightarrow> Inl (DbError ''no such table: rollback_events'')
      | Some evs \<Rightarrow>
          if ev_id ev \<in> set (map ev_id evs) then Inl (DbError ''UNIQUE constraint failed: rollback_events.id'')
          else Inr ((), d\<lparr>rollback_events_table := Some (evs @ [ev])\<rparr>))"

definition sqlite_insert_rollback_event :: "uuid \<Rightarrow> (sqlite_db world, unit) io" where
  "sqlite_insert_rollback_event u = seq_io sqlite_connect
     (bind_io (get_io env) (\<lambda>E.
      bind_io uuid_new_v4 (\<lambda>v.
      bind_io utc_now (\<lambda>now.
      db_call (\<lambda>_ _. insert_event_stmt
        \<lparr>ev_id = uuid_to_string E v, ev_backup_id = uuid_to_string E u,
         ev_created_at = to_rfc3339 E now\<rparr>)))))"

definition sqlite_last_created_hash :: "(sqlite_db world, string option) io" where
  "sqlite_last_created_hash = seq_io sqlite_connect
     (select_backups (\<lambda>E k rs.
        case take 1 (order_by_desc r_created_at E k (filter (\<lambda>r. r_status r = ''created'') rs)) of
          [] \<Rightarrow> Inr None
        | r # _ \<Rightarrow> Inr (Some (r_content_hash r))))"

definition row_doomed :: "string \<Rightarrow> sqlite_row \<Rightarrow> bool" where
  "row_doomed cutoff r \<longleftrightarrow> r_status r = ''created'' \<and> r_created_at r < cutoff"

definition delete_stmt :: "string \<Rightarrow> sqlite_db \<Rightarrow> error + (unit \<times> sqlite_db)" where
  "delete_stmt i d =
     (case backups_table d of
        None \<Rightarrow> Inl (DbError ''no such table: backups'')
      | Some rs \<Rightarrow> Inr ((), d\<lparr>backups_table := Some (filter (\<lambda>r. r_id r \<noteq> i) rs)\<rparr>))"

definition sqlite_prune_created_before :: "datetime \<Rightarrow> (sqlite_db world, (string \<times> string) list) io" where
  "sqlite_prune_created_before cutoff = seq_io sqlite_connect
     (bind_io (select_backups (\<lambda>E k rs. Inr
        (map (\<lambda>r. (r_id r, r_timestamp_dir r))
          (scan_rows E k (filter (row_doomed (to_rfc3339 E cutoff)) rs))))) (\<lambda>doomed_rows.
      seq_io (for_each (\<lambda>(i, _). db_call (\<lambda>_ _. delete_stmt i)) doomed_rows)
        (return_io doomed_rows)))"

definition sqlite_store :: "sqlite_db MetadataStore" where
  "sqlite_store =
     \<lparr>insert_entry = sqlite_insert_entry,
      list_backups = sqlite_list_backups,
      get_backup = sqlite_get_backup,
      insert_rollback_event = sqlite_insert_rollback_event,
      last_created_hash = sqlite_last_created_hash,
      prune_created_before = sqlite_prune_created_before\<rparr>"

section \<open>The view and the invariant\<close>

definition decode_row :: "env \<Rightarrow> sqlite_row \<Rightarrow> BackupEntry" where
  "decode_row E r = projr (row_to_entry E 0 r)"

definition canonical_row :: "env \<Rightarrow> sqlite_row \<Rightarrow> bool" where
  "canonical_row E r \<longleftrightarrow> (\<exists>e. ts_window (created_at e) \<and> sqlite_row_of_entry E e = Some r)"

definition sqlite_rows :: "sqlite_db world \<Rightarrow> BackupEntry list" where
  "sqlite_rows w = map (decode_row (env w)) (unwrap_or (backups_table (db w)) [])"

definition decode_event :: "env \<Rightarrow> sqlite_event \<Rightarrow> uuid \<times> uuid" where
  "decode_event E ev = (parse_uuid E (ev_id ev), parse_uuid E (ev_backup_id ev))"

definition sqlite_events :: "sqlite_db world \<Rightarrow> (uuid \<times> uuid) list" where
  "sqlite_events w = map (decode_event (env w)) (unwrap_or (rollback_events_table (db w)) [])"

definition sqlite_libs :: "env \<Rightarrow> bool" where
  "sqlite_libs E \<longleftrightarrow> uuid_codec E \<and> rfc3339_codec E \<and> rfc3339_ordered E \<and>
     stats_json_codec E \<and> row_order_ok E"

definition sqlite_tables :: "env \<Rightarrow> sqlite_db \<Rightarrow> bool" where
  "sqlite_tables E d \<longleftrightarrow>
     (\<exists>rs. backups_table d = Some rs \<and> list_all (canonical_row E) rs \<and> distinct (map r_id rs)) \<and>
     (\<exists>evs. rollback_events_table d = Some evs \<and>
        list_all (\<lambda>ev. \<exists>v. ev_id ev = uuid_to_string E v) evs)"

definition sqlite_inv :: "sqlite_db world \<Rightarrow> bool" where
  "sqlite_inv w \<longleftrightarrow> sqlite_libs (env w) \<and> sqlite_tables (env w) (db w)"

definition without_ids :: "string set \<Rightarrow> sqlite_row list \<Rightarrow> sqlite_db \<Rightarrow> sqlite_db" where
  "without_ids S rs d = d\<lparr>backups_table := Some (filter (\<lambda>r. r_id r \<notin> S) rs)\<rparr>"

section \<open>Lemmas\<close>

subsection \<open>Codecs\<close>

lemma parse_status_status_str [simp]: "parse_status (status_str s) = s"
  by (cases s) (simp_all add: parse_status_def status_str_def eq_ignore_ascii_case_def to_ascii_lowercase_def)

lemma status_str_created [simp]: "status_str s = ''created'' \<longleftrightarrow> s = Created"
  by (cases s) (simp_all add: status_str_def)

lemma parse_skip_reason_str [simp]: "parse_skip_reason (skip_reason_str r) = r"
  by (cases r) (simp add: parse_skip_reason_def)

lemma parse_uuid_to_string [simp]: "uuid_codec E \<Longrightarrow> parse_uuid E (uuid_to_string E u) = u"
  by (simp add: parse_uuid_def uuid_codec_def)

lemma parse_ts_to_rfc3339 [simp]:
  "rfc3339_codec E \<Longrightarrow> ts_window t \<Longrightarrow> parse_ts E now (to_rfc3339 E t) = t"
  by (simp add: parse_ts_def rfc3339_codec_def)

lemma row_of_entry_total: "stats_json_codec E \<Longrightarrow> \<exists>r. sqlite_row_of_entry E e = Some r"
  by (rule stats_text_roundtrip [of E "stats e"]) (simp_all add: sqlite_row_of_entry_def)

lemma row_of_entry_roundtrip:
  assumes "sqlite_libs E" "ts_window (created_at e)" "sqlite_row_of_entry E e = Some r"
  shows "row_to_entry E now r = Inr e"
proof -
  obtain enc where "stats_to_text E (stats e) = Some enc" "stats_of_text E enc = Some (stats e)"
    using stats_text_roundtrip assms(1) unfolding sqlite_libs_def by blast
  then show ?thesis
    using assms by (auto simp: sqlite_row_of_entry_def row_to_entry_def sqlite_libs_def comp_def
        option.map_comp map_option_case split: option.splits)
qed

lemma canonical_rowD:
  assumes "sqlite_libs E" "canonical_row E r"
  shows row_to_entry_canonical: "row_to_entry E now r = Inr (decode_row E r)"
    and canonical_row_of_entry: "sqlite_row_of_entry E (decode_row E r) = Some r"
    and canonical_ts: "ts_window (created_at (decode_row E r))"
proof -
  obtain e where e: "ts_window (created_at e)" "sqlite_row_of_entry E e = Some r"
    using assms(2) unfolding canonical_row_def by blast
  have "decode_row E r = e"
    unfolding decode_row_def using row_of_entry_roundtrip [OF assms(1) e] by simp
  then show "row_to_entry E now r = Inr (decode_row E r)"
    and "sqlite_row_of_entry E (decode_row E r) = Some r"
    and "ts_window (created_at (decode_row E r))"
    using row_of_entry_roundtrip [OF assms(1) e] e by simp_all
qed

lemma row_of_entry_columns:
  assumes "sqlite_row_of_entry E e = Some r"
  shows "r_id r = uuid_to_string E (backup_id e)"
    and "r_created_at r = to_rfc3339 E (created_at e)"
    and "r_status r = ''created'' \<longleftrightarrow> is_created e"
    and "r_timestamp_dir r = timestamp_dir e"
    and "r_content_hash r = entry_hash e"
  using assms by (auto simp: sqlite_row_of_entry_def is_created_def)

lemmas canonical_columns = row_of_entry_columns [OF canonical_row_of_entry]

lemma decode_row_of_entry:
  "sqlite_libs E \<Longrightarrow> ts_window (created_at e) \<Longrightarrow> sqlite_row_of_entry E e = Some r \<Longrightarrow>
   decode_row E r = e"
  unfolding decode_row_def using row_of_entry_roundtrip by fastforce

subsection \<open>Statements\<close>

lemma runs_sqlite_connect:
  assumes "\<And>w'. read_only w w' \<Longrightarrow> Q () w'"
    and "\<And>e w'. read_only w w' \<Longrightarrow> faulted w w' \<Longrightarrow> R e w'"
  shows "runs sqlite_connect w Q R"
  unfolding sqlite_connect_def runs_map_err
  by (rule runs_db_call) (auto intro!: assms simp: frame_defs faulted_at_step)

lemma runs_select_backups:
  assumes "backups_table (db w) = Some rs"
    and "\<And>x w'. q (env w) (step w) rs = Inr x \<Longrightarrow> read_only w w' \<Longrightarrow> Q x w'"
    and "\<And>e w'. read_only w w' \<Longrightarrow> faulted w w' \<or> q (env w) (step w) rs = Inl e \<Longrightarrow> R e w'"
  shows "runs (select_backups q) w Q R"
  unfolding select_backups_def
  by (rule runs_db_call)
     (auto intro!: assms(2,3) simp: assms(1) frame_defs faulted_at_step split: sum.splits)

text \<open>A connection followed by a query that always has an answer.\<close>

lemma runs_query:
  assumes "sqlite_inv w"
    and "\<And>k rs. backups_table (db w) = Some rs \<Longrightarrow> \<exists>x. q (env w) k rs = Inr x \<and> A x"
  shows "runs (seq_io sqlite_connect (select_backups q)) w
    (\<lambda>x w'. read_only w w' \<and> A x) (\<lambda>_ w'. read_only w w' \<and> faulted w w')"
  unfolding runs_seq
proof (rule runs_sqlite_connect)
  fix w1
  assume w1: "read_only w w1"
  obtain rs where rs: "backups_table (db w) = Some rs"
    using assms(1) unfolding sqlite_inv_def sqlite_tables_def by blast
  then obtain x where x: "q (env w1) (step w1) rs = Inr x" "A x"
    using assms(2) [OF rs, of "step w1"] w1 by (auto simp: frame_defs)
  show "runs (select_backups q) w1
      (\<lambda>x w'. read_only w w' \<and> A x) (\<lambda>_ w'. read_only w w' \<and> faulted w w')"
    by (rule runs_select_backups [where rs = rs])
       (use w1 rs x in \<open>auto simp: frame_defs intro: read_only_trans faulted_extend_left\<close>)
qed auto

lemma sqlite_inv_rows:
  assumes "sqlite_inv w" "backups_table (db w) = Some rs"
  shows "sqlite_rows w = map (decode_row (env w)) rs"
    and "\<And>r. r \<in> set rs \<Longrightarrow> canonical_row (env w) r"
    and "distinct (map r_id rs)"
    and "sqlite_libs (env w)"
  using assms by (auto simp: sqlite_inv_def sqlite_tables_def sqlite_rows_def list_all_iff)

text \<open>How the view and the invariant follow the database.\<close>

lemma sqlite_view_same:
  assumes "sqlite_inv w" "env w' = env w" "db w' = db w"
  shows "sqlite_inv w'" "sqlite_rows w' = sqlite_rows w" "sqlite_events w' = sqlite_events w"
  using assms by (simp_all add: sqlite_inv_def sqlite_rows_def sqlite_events_def)

lemma sqlite_view_backups:
  assumes "sqlite_inv w" "env w' = env w" "db w' = (db w)\<lparr>backups_table := Some rs'\<rparr>"
    and "list_all (canonical_row (env w)) rs'" "distinct (map r_id rs')"
  shows "sqlite_inv w'" "sqlite_rows w' = map (decode_row (env w)) rs'"
    "sqlite_events w' = sqlite_events w"
  using assms by (simp_all add: sqlite_inv_def sqlite_tables_def sqlite_rows_def sqlite_events_def)

lemma sqlite_view_events:
  assumes "sqlite_inv w" "env w' = env w" "rollback_events_table (db w) = Some evs"
    and "db w' = (db w)\<lparr>rollback_events_table := Some (evs @ [ev])\<rparr>"
    and "ev_id ev = uuid_to_string (env w) v" "ev_backup_id ev = uuid_to_string (env w) u"
  shows "sqlite_inv w'" "sqlite_rows w' = sqlite_rows w"
    "sqlite_events w' = sqlite_events w @ [(v, u)]"
  using assms
  by (auto simp: sqlite_inv_def sqlite_libs_def sqlite_tables_def sqlite_rows_def sqlite_events_def
      decode_event_def)

lemma sqlite_distinct_ids:
  assumes "sqlite_inv w"
  shows "distinct (map backup_id (sqlite_rows w))"
proof -
  obtain rs where rs: "backups_table (db w) = Some rs"
    using assms unfolding sqlite_inv_def sqlite_tables_def by blast
  note inv = sqlite_inv_rows [OF assms rs]
  have "map r_id rs = map (uuid_to_string (env w)) (map backup_id (sqlite_rows w))"
    using inv canonical_columns(1) by auto
  then show ?thesis using inv(3) by (metis distinct_map)
qed

lemma sqlite_row_id_iff:
  assumes "sqlite_libs E" "canonical_row E r"
  shows "r_id r = uuid_to_string E u \<longleftrightarrow> backup_id (decode_row E r) = u"
  using canonical_columns(1) [OF assms] assms(1)
  by (simp add: sqlite_libs_def uuid_to_string_inj)

lemma sqlite_row_doomed_iff:
  assumes "sqlite_libs E" "canonical_row E r" "ts_window c"
  shows "row_doomed (to_rfc3339 E c) r \<longleftrightarrow> doomed c (decode_row E r)"
  using canonical_columns(2,3) [OF assms(1,2)] canonical_ts [OF assms(1,2)] assms(1,3)
  by (simp add: row_doomed_def doomed_def sqlite_libs_def rfc3339_less_iff)

subsection \<open>The laws\<close>

lemma sqlite_list_law:
  assumes "sqlite_inv w"
  shows "runs sqlite_list_backups w
    (\<lambda>es w'. read_only w w' \<and> mset es = mset (sqlite_rows w) \<and> newest_first es)
    (\<lambda>_ w'. read_only w w' \<and> faulted w w')"
  unfolding sqlite_list_backups_def
proof (rule runs_query [OF assms])
  fix k rs
  let ?E = "env w"
  assume rs: "backups_table (db w) = Some rs"
  note inv = sqlite_inv_rows [OF assms rs]
  let ?ord = "order_by_desc r_created_at ?E k rs"
  have ok: "row_order_ok ?E" using inv(4) by (simp add: sqlite_libs_def)
  have canon: "canonical_row ?E r" if "r \<in> set ?ord" for r
    using that inv(2) ok by simp
  then have all: "map (row_to_entry ?E (clock ?E k)) ?ord = map (\<lambda>r. Inr (decode_row ?E r)) ?ord"
    using row_to_entry_canonical [OF inv(4)] by simp
  have "mset (map (decode_row ?E) ?ord) = mset (sqlite_rows w)"
    using ok inv(1) by simp
  moreover have "newest_first (map (decode_row ?E) ?ord)"
    unfolding newest_first_def sorted_wrt_map
  proof (rule sorted_wrt_mono_rel [OF _ sorted_order_by_desc])
    fix r r'
    assume "r \<in> set ?ord" "r' \<in> set ?ord" "r_created_at r' \<le> r_created_at r"
    then show "created_at (decode_row ?E r') \<le> created_at (decode_row ?E r)"
      using canon canonical_columns(2) [OF inv(4)] canonical_ts [OF inv(4)] inv(4)
      by (simp add: sqlite_libs_def rfc3339_le_iff)
  qed
  ultimately show "\<exists>es. collect_results (map (row_to_entry ?E (clock ?E k)) ?ord) = Inr es \<and>
      mset es = mset (sqlite_rows w) \<and> newest_first es"
    unfolding all collect_results_map_Inr by blast
qed

lemma sqlite_get_law:
  assumes "sqlite_inv w"
  shows "runs (sqlite_get_backup u) w
    (\<lambda>r w'. read_only w w' \<and> r = find (\<lambda>e. backup_id e = u) (sqlite_rows w))
    (\<lambda>_ w'. read_only w w' \<and> faulted w w')"
  unfolding sqlite_get_backup_def
proof (rule runs_query [OF assms])
  fix k rs
  let ?E = "env w"
  assume rs: "backups_table (db w) = Some rs"
  note inv = sqlite_inv_rows [OF assms rs]
  let ?sel = "scan_rows ?E k (filter (\<lambda>r. r_id r = uuid_to_string ?E u) rs)"
  have ok: "row_order_ok ?E" using inv(4) by (simp add: sqlite_libs_def)
  have set: "set ?sel = {r \<in> set rs. r_id r = uuid_to_string ?E u}"
    using ok by simp
  show "\<exists>x. (case ?sel of [] \<Rightarrow> Inr None
        | r # _ \<Rightarrow> (case row_to_entry ?E (clock ?E k) r of Inl err \<Rightarrow> Inl err | Inr e \<Rightarrow> Inr (Some e))) = Inr x \<and>
      x = find (\<lambda>e. backup_id e = u) (sqlite_rows w)"
  proof (cases ?sel)
    case Nil
    then have "\<forall>r \<in> set rs. backup_id (decode_row ?E r) \<noteq> u"
      using set sqlite_row_id_iff [OF inv(4) inv(2)] by auto
    then have "find (\<lambda>e. backup_id e = u) (sqlite_rows w) = None"
      using inv(1) by (auto simp: find_None_iff)
    with Nil show ?thesis by simp
  next
    case (Cons r rest)
    then have r: "r \<in> set rs" "r_id r = uuid_to_string ?E u" using set by auto
    then have "decode_row ?E r \<in> set (sqlite_rows w)" "backup_id (decode_row ?E r) = u"
      using inv sqlite_row_id_iff [OF inv(4) inv(2)] by auto
    then have "find (\<lambda>e. backup_id e = u) (sqlite_rows w) = Some (decode_row ?E r)"
      using find_Some_distinct [OF sqlite_distinct_ids [OF assms]] by force
    then show ?thesis
      using Cons row_to_entry_canonical [OF inv(4) inv(2) [OF r(1)]] by simp
  qed
qed

lemma sqlite_last_hash_law:
  assumes "sqlite_inv w"
  shows "runs sqlite_last_created_hash w
    (\<lambda>r w'. read_only w w' \<and> newest_hash (sqlite_rows w) r)
    (\<lambda>_ w'. read_only w w' \<and> faulted w w')"
  unfolding sqlite_last_created_hash_def
proof (rule runs_query [OF assms])
  fix k rs
  let ?E = "env w"
  assume rs: "backups_table (db w) = Some rs"
  note inv = sqlite_inv_rows [OF assms rs]
  let ?cr = "filter (\<lambda>r. r_status r = ''created'') rs"
  have ok: "row_order_ok ?E" using inv(4) by (simp add: sqlite_libs_def)
  have cr: "set ?cr = {r \<in> set rs. is_created (decode_row ?E r)}"
    using canonical_columns(3) [OF inv(4) inv(2)] by auto
  show "\<exists>x. (case take 1 (order_by_desc r_created_at ?E k ?cr) of
        [] \<Rightarrow> Inr None | r # _ \<Rightarrow> Inr (Some (r_content_hash r))) = Inr x \<and>
      newest_hash (sqlite_rows w) x"
  proof (cases "take 1 (order_by_desc r_created_at ?E k ?cr)")
    case Nil
    then have "?cr = []" using order_by_desc_hd [OF ok, where key = r_created_at and k = k and rs = ?cr] by simp
    then have "filter is_created (sqlite_rows w) = []"
      using cr inv(1) by (auto simp: filter_empty_conv)
    with Nil show ?thesis by (simp add: newest_hash_def)
  next
    case (Cons r rest)
    then have r: "r \<in> set ?cr" and max: "\<forall>r' \<in> set ?cr. r_created_at r' \<le> r_created_at r"
      using order_by_desc_hd [OF ok, where key = r_created_at and k = k and rs = ?cr] by simp_all
    have ts: "created_at (decode_row ?E r') \<le> created_at (decode_row ?E r)"
      if "r' \<in> set rs" "is_created (decode_row ?E r')" for r'
    proof -
      have "r' \<in> set ?cr" using that cr by simp
      then have "r_created_at r' \<le> r_created_at r" using max by blast
      moreover have "canonical_row ?E r'" "canonical_row ?E r" using that(1) r inv(2) by auto
      ultimately show ?thesis
        using canonical_columns(2) [OF inv(4)] canonical_ts [OF inv(4)] inv(4)
        by (simp add: sqlite_libs_def rfc3339_le_iff)
    qed
    have "canonical_row ?E r" "r \<in> set rs" "is_created (decode_row ?E r)" using r cr inv(2) by auto
    then have "newest_hash (sqlite_rows w) (Some (r_content_hash r))"
      using canonical_columns(5) [OF inv(4)] ts inv(1) by (auto simp: newest_hash_def)
    with Cons show ?thesis by simp
  qed
qed

lemma sqlite_insert_law:
  assumes "sqlite_inv w" and "ts_window (created_at e)"
  shows "runs (sqlite_insert_entry e) w
    (\<lambda>_ w'. sqlite_inv w' \<and> db_only w w' \<and> sqlite_events w' = sqlite_events w \<and>
       backup_id e \<notin> ids_of (sqlite_rows w) \<and> sqlite_rows w' = sqlite_rows w @ [e])
    (\<lambda>_ w'. sqlite_inv w' \<and> db_only w w' \<and> sqlite_events w' = sqlite_events w \<and>
       (faulted w w' \<or> backup_id e \<in> ids_of (sqlite_rows w)) \<and>
       (sqlite_rows w' = sqlite_rows w \<or>
        backup_id e \<notin> ids_of (sqlite_rows w) \<and> sqlite_rows w' = sqlite_rows w @ [e]))"
  (is "runs _ _ ?Q ?R")
proof -
  obtain rs where rs: "backups_table (db w) = Some rs"
    using assms(1) unfolding sqlite_inv_def sqlite_tables_def by blast
  note inv = sqlite_inv_rows [OF assms(1) rs]
  obtain row where row: "sqlite_row_of_entry (env w) e = Some row"
    using row_of_entry_total inv(4) unfolding sqlite_libs_def by blast
  have canon: "canonical_row (env w) row" using row assms(2) by (auto simp: canonical_row_def)
  have dec: "decode_row (env w) row = e" by (rule decode_row_of_entry [OF inv(4) assms(2) row])
  have dup: "r_id row \<in> set (map r_id rs) \<longleftrightarrow> backup_id e \<in> ids_of (sqlite_rows w)"
  proof -
    have "r_id row \<in> set (map r_id rs) \<longleftrightarrow>
        (\<exists>r \<in> set rs. r_id r = uuid_to_string (env w) (backup_id e))"
      by (simp add: mem_image_iff row_of_entry_columns(1) [OF row])
    also have "\<dots> \<longleftrightarrow> (\<exists>r \<in> set rs. backup_id (decode_row (env w) r) = backup_id e)"
      using sqlite_row_id_iff [OF inv(4) inv(2)] by blast
    finally show ?thesis by (simp add: inv(1) mem_image_iff)
  qed
  have new: "sqlite_inv w'" "sqlite_rows w' = sqlite_rows w @ [e]" "sqlite_events w' = sqlite_events w"
    if "r_id row \<notin> set (map r_id rs)" "env w' = env w"
      "db w' = (db w)\<lparr>backups_table := Some (rs @ [row])\<rparr>" for w'
    using sqlite_view_backups [OF assms(1) that(2,3)] that(1) inv canon dec by (auto simp: list_all_iff)
  note same = sqlite_view_same [OF assms(1)]
  let ?N = "\<lambda>w'. backup_id e \<notin> ids_of (sqlite_rows w) \<and> sqlite_inv w' \<and>
    sqlite_rows w' = sqlite_rows w @ [e] \<and> sqlite_events w' = sqlite_events w"
  let ?O = "\<lambda>w'. sqlite_inv w' \<and> sqlite_rows w' = sqlite_rows w \<and> sqlite_events w' = sqlite_events w"
  let ?C = "backup_id e \<in> ids_of (sqlite_rows w)"
  show ?thesis
    unfolding sqlite_insert_entry_def runs_seq
  proof (rule runs_sqlite_connect)
    fix w1
    assume w1: "read_only w w1"
    have E: "env w1 = env w" and d: "db w1 = db w" using w1 by (simp_all add: frame_defs)
    have "runs (db_call (\<lambda>_ _. insert_stmt row)) w1
      (\<lambda>_ w'. db_only w w' \<and> ?N w')
      (\<lambda>_ w'. db_only w w' \<and> (faulted w w' \<and> (?O w' \<or> ?N w') \<or> ?O w' \<and> ?C))"
    proof (rule runs_db_change)
      fix x d'
      assume "insert_stmt row (db w1) = Inr (x, d')"
      then have "r_id row \<notin> set (map r_id rs)" "d' = (db w)\<lparr>backups_table := Some (rs @ [row])\<rparr>"
        using rs d by (simp_all add: insert_stmt_def split: if_splits)
      then show "?N (w1\<lparr>step := Suc (step w1), db := d'\<rparr>)"
        using new [of "w1\<lparr>step := Suc (step w1), db := d'\<rparr>"] E dup by simp
    next
      fix err
      assume "insert_stmt row (db w1) = Inl err"
      then show ?C using rs d dup by (simp add: insert_stmt_def split: if_splits)
    qed (use w1 same [of "w1\<lparr>step := Suc (step w1)\<rparr>"] in \<open>simp_all add: frame_defs\<close>)
    then have "runs (db_call (\<lambda>_ _. insert_stmt row)) w1 ?Q ?R"
      by (rule runs_mono) auto
    then show "runs (bind_io (get_io env) (\<lambda>E. bind_io (of_option JsonError (sqlite_row_of_entry E e))
        (\<lambda>row. db_call (\<lambda>_ _. insert_stmt row)))) w1 ?Q ?R"
      by (simp add: runs_bind runs_get runs_of_option E row)
  next
    fix err w'
    assume "read_only w w'" "faulted w w'"
    then show "?R err w'" using same [of w'] by (simp add: frame_defs)
  qed
qed

lemma sqlite_event_law:
  assumes "sqlite_inv w"
  shows "runs (sqlite_insert_rollback_event u) w
    (\<lambda>_ w'. sqlite_inv w' \<and> db_only w w' \<and> sqlite_rows w' = sqlite_rows w \<and>
       (\<exists>v. sqlite_events w' = sqlite_events w @ [(v, u)]))
    (\<lambda>_ w'. sqlite_inv w' \<and> db_only w w' \<and> sqlite_rows w' = sqlite_rows w \<and>
       (faulted w w' \<or> id_clash (fst ` set (sqlite_events w)) w w') \<and>
       (sqlite_events w' = sqlite_events w \<or> (\<exists>v. sqlite_events w' = sqlite_events w @ [(v, u)])))"
  (is "runs _ _ ?Q ?R")
proof -
  obtain evs where evs: "rollback_events_table (db w) = Some evs"
    and evc: "\<And>ev. ev \<in> set evs \<Longrightarrow> \<exists>v. ev_id ev = uuid_to_string (env w) v"
    using assms unfolding sqlite_inv_def sqlite_tables_def list_all_iff by blast
  have codec: "uuid_codec (env w)" using assms by (simp add: sqlite_inv_def sqlite_libs_def)
  note same = sqlite_view_same [OF assms]
  let ?N = "\<lambda>w'. sqlite_inv w' \<and> sqlite_rows w' = sqlite_rows w \<and>
    (\<exists>v. sqlite_events w' = sqlite_events w @ [(v, u)])"
  let ?O = "\<lambda>w'. sqlite_inv w' \<and> sqlite_rows w' = sqlite_rows w \<and> sqlite_events w' = sqlite_events w"
  let ?C = "id_clash (fst ` set (sqlite_events w)) w"
  show ?thesis
    unfolding sqlite_insert_rollback_event_def runs_seq
  proof (rule runs_sqlite_connect)
    fix w1
    assume w1: "read_only w w1"
    define v where "v = fresh_uuid (env w) (step w1)"
    define w2 where "w2 = w1\<lparr>step := Suc (Suc (step w1))\<rparr>"
    define ev where "ev = \<lparr>ev_id = uuid_to_string (env w) v, ev_backup_id = uuid_to_string (env w) u,
      ev_created_at = to_rfc3339 (env w) (clock (env w) (Suc (step w1)))\<rparr>"
    have w2: "read_only w w2" and E: "env w1 = env w" and d2: "db w2 = db w"
      using w1 by (simp_all add: frame_defs w2_def)
    have clash: "id_clash (fst ` set (sqlite_events w)) w (w2\<lparr>step := Suc (step w2)\<rparr>)"
      if "ev_id ev \<in> set (map ev_id evs)"
    proof -
      have "uuid_to_string (env w) v \<in> ev_id ` set evs" using that by (simp add: ev_def)
      then obtain ev' where "ev' \<in> set evs" "ev_id ev' = uuid_to_string (env w) v"
        unfolding mem_image_iff by blast
      then have "v \<in> fst ` set (sqlite_events w)"
        using evs codec by (force simp: sqlite_events_def decode_event_def)
      moreover have "step w \<le> step w1" "step w1 < Suc (step w2)"
        using w1 by (simp_all add: frame_defs w2_def)
      ultimately show ?thesis
        unfolding id_clash_def v_def by (intro exI [of _ "step w1"]) simp
    qed
    have "runs (db_call (\<lambda>_ _. insert_event_stmt ev)) w2
      (\<lambda>_ w'. db_only w w' \<and> ?N w')
      (\<lambda>_ w'. db_only w w' \<and> (faulted w w' \<and> (?O w' \<or> ?N w') \<or> ?O w' \<and> ?C w'))"
    proof (rule runs_db_change)
      fix x d'
      let ?w' = "w2\<lparr>step := Suc (step w2), db := d'\<rparr>"
      assume "insert_event_stmt ev (db w2) = Inr (x, d')"
      then have "d' = (db w)\<lparr>rollback_events_table := Some (evs @ [ev])\<rparr>"
        using evs d2 by (simp add: insert_event_stmt_def split: if_splits)
      then show "?N ?w'"
        using sqlite_view_events [OF assms _ evs, of ?w' ev v u] w2 by (simp add: ev_def frame_defs)
    next
      fix err
      assume "insert_event_stmt ev (db w2) = Inl err"
      then show "?C (w2\<lparr>step := Suc (step w2)\<rparr>)"
        using clash evs d2 by (simp add: insert_event_stmt_def split: if_splits)
    qed (use w2 same [of "w2\<lparr>step := Suc (step w2)\<rparr>"] in \<open>simp_all add: frame_defs\<close>)
    then have "runs (db_call (\<lambda>_ _. insert_event_stmt ev)) w2 ?Q ?R"
      by (rule runs_mono) auto
    then show "runs (bind_io (get_io env) (\<lambda>E. bind_io uuid_new_v4 (\<lambda>v. bind_io utc_now (\<lambda>now.
        db_call (\<lambda>_ _. insert_event_stmt \<lparr>ev_id = uuid_to_string E v,
          ev_backup_id = uuid_to_string E u, ev_created_at = to_rfc3339 E now\<rparr>))))) w1 ?Q ?R"
      by (simp add: wp_simps E ev_def v_def w2_def)
  next
    fix err w'
    assume "read_only w w'" "faulted w w'"
    then show "?R err w'" using same [of w'] by (simp add: frame_defs)
  qed
qed

text \<open>The deletions: all of them, or after a fault those of some of the ids.\<close>

lemma without_ids_without_ids:
  "without_ids S (filter (\<lambda>r. r_id r \<notin> T) rs) (without_ids T rs d) = without_ids (T \<union> S) rs d"
  by (simp add: without_ids_def)

lemma without_ids_empty: "backups_table d = Some rs \<Longrightarrow> without_ids {} rs d = d"
  by (simp add: without_ids_def)

lemma runs_delete_all:
  assumes "backups_table (db w) = Some rs"
  shows "runs (for_each (\<lambda>(i, _). db_call (\<lambda>_ _. delete_stmt i)) ds) w
    (\<lambda>_ w'. db_only w w' \<and> db w' = without_ids (fst ` set ds) rs (db w))
    (\<lambda>_ w'. db_only w w' \<and> faulted w w' \<and> (\<exists>S \<subseteq> fst ` set ds. db w' = without_ids S rs (db w)))"
  using assms
proof (induction ds arbitrary: w rs)
  case Nil
  then show ?case by (simp add: wp_simps frame_defs without_ids_empty)
next
  case (Cons p ds)
  obtain i t where p: "p = (i, t)" by (cases p)
  have step: "runs (db_call (\<lambda>_ _. delete_stmt i)) w
    (\<lambda>_ w'. db_only w w' \<and> db w' = without_ids {i} rs (db w))
    (\<lambda>_ w'. db_only w w' \<and> (faulted w w' \<and> (db w' = db w \<or> db w' = without_ids {i} rs (db w)) \<or>
       db w' = db w \<and> False))"
    by (rule runs_db_change)
       (use Cons.prems in \<open>simp_all add: delete_stmt_def without_ids_def frame_defs\<close>)
  show ?case
    unfolding for_each.simps runs_seq p prod.case
  proof (rule runs_mono [OF step])
    fix x w1
    assume w1: "db_only w w1 \<and> db w1 = without_ids {i} rs (db w)"
    then have "backups_table (db w1) = Some (filter (\<lambda>r. r_id r \<notin> {i}) rs)"
      by (simp add: without_ids_def)
    note IH = Cons.IH [OF this]
    have w': "db_only w w'" if "db_only w1 w'" for w'
      using w1 that db_only_trans by blast
    have S': "without_ids S (filter (\<lambda>r. r_id r \<notin> {i}) rs) (db w1) = without_ids (insert i S) rs (db w)" for S
      using w1 without_ids_without_ids [of S "{i}" rs "db w"] by simp
    show "runs (for_each (\<lambda>(i, _). db_call (\<lambda>_ _. delete_stmt i)) ds) w1
      (\<lambda>_ w'. db_only w w' \<and> db w' = without_ids (fst ` set ((i, t) # ds)) rs (db w))
      (\<lambda>_ w'. db_only w w' \<and> faulted w w' \<and>
         (\<exists>S \<subseteq> fst ` set ((i, t) # ds). db w' = without_ids S rs (db w)))"
    proof (rule runs_mono [OF IH])
      fix e w2
      assume "db_only w1 w2 \<and> faulted w1 w2 \<and> (\<exists>S \<subseteq> fst ` set ds.
        db w2 = without_ids S (filter (\<lambda>r. r_id r \<notin> {i}) rs) (db w1))"
      then obtain S where S: "S \<subseteq> fst ` set ds" "db_only w1 w2" "faulted w1 w2"
        "db w2 = without_ids (insert i S) rs (db w)" using S' by auto
      then show "db_only w w2 \<and> faulted w w2 \<and>
          (\<exists>S \<subseteq> fst ` set ((i, t) # ds). db w2 = without_ids S rs (db w))"
        using w' faulted_extend_left [OF db_only_later, of w w1 w2] w1
        by (intro conjI exI [of _ "insert i S"]) auto
    qed (use S' w' in simp)
  next
    fix e w1
    assume "db_only w w1 \<and> (faulted w w1 \<and> (db w1 = db w \<or> db w1 = without_ids {i} rs (db w)) \<or>
      db w1 = db w \<and> False)"
    then consider "db_only w w1" "faulted w w1" "db w1 = without_ids {} rs (db w)"
      | "db_only w w1" "faulted w w1" "db w1 = without_ids {i} rs (db w)"
      using without_ids_empty [OF Cons.prems] by auto
    then show "db_only w w1 \<and> faulted w w1 \<and>
        (\<exists>S \<subseteq> fst ` set ((i, t) # ds). db w1 = without_ids S rs (db w))"
      by cases (intro conjI; (assumption | rule exI [of _ "{}"] exI [of _ "{i}"]); simp)+
  qed
qed

lemma sqlite_view_without:
  assumes "sqlite_inv w" "backups_table (db w) = Some rs"
    and "env w' = env w" "db w' = without_ids S rs (db w)"
  shows "sqlite_inv w'" "sqlite_events w' = sqlite_events w"
    "sqlite_rows w' = filter (\<lambda>e. uuid_to_string (env w) (backup_id e) \<notin> S) (sqlite_rows w)"
proof -
  note inv = sqlite_inv_rows [OF assms(1,2)]
  have v: "list_all (canonical_row (env w)) (filter (\<lambda>r. r_id r \<notin> S) rs)"
    "distinct (map r_id (filter (\<lambda>r. r_id r \<notin> S) rs))"
    using inv(2) by (auto simp: list_all_iff distinct_map_filter_fst [OF inv(3)])
  note view = sqlite_view_backups [OF assms(1,3) assms(4) [unfolded without_ids_def] v]
  show "sqlite_inv w'" "sqlite_events w' = sqlite_events w" by (fact view)+
  have "filter (\<lambda>r. r_id r \<notin> S) rs =
      filter (\<lambda>r. uuid_to_string (env w) (backup_id (decode_row (env w) r)) \<notin> S) rs"
    using canonical_columns(1) [OF inv(4) inv(2)] by (auto intro: filter_cong)
  then show "sqlite_rows w' = filter (\<lambda>e. uuid_to_string (env w) (backup_id e) \<notin> S) (sqlite_rows w)"
    using view(2) inv(1) by (simp add: filter_map comp_def)
qed

lemma sqlite_doomed_ids:
  assumes "sqlite_inv w" "backups_table (db w) = Some rs" "ts_window c"
    and ds: "mset ds = mset (map (\<lambda>r. (r_id r, r_timestamp_dir r))
      (filter (row_doomed (to_rfc3339 (env w) c)) rs))"
  shows "e \<in> set (sqlite_rows w) \<Longrightarrow>
      uuid_to_string (env w) (backup_id e) \<in> fst ` set ds \<longleftrightarrow> doomed c e"
    and "mset (map snd ds) = mset (map timestamp_dir (filter (doomed c) (sqlite_rows w)))"
proof -
  note inv = sqlite_inv_rows [OF assms(1,2)]
  let ?E = "env w"
  have doom: "row_doomed (to_rfc3339 ?E c) r \<longleftrightarrow> doomed c (decode_row ?E r)" if "r \<in> set rs" for r
    using sqlite_row_doomed_iff [OF inv(4) inv(2) [OF that] assms(3)] .
  then have fil: "filter (row_doomed (to_rfc3339 ?E c)) rs = filter (\<lambda>r. doomed c (decode_row ?E r)) rs"
    by (simp cong: filter_cong)
  have "set ds = (\<lambda>r. (r_id r, r_timestamp_dir r)) ` {r \<in> set rs. doomed c (decode_row ?E r)}"
    using mset_eq_setD [OF ds] unfolding fil by simp
  then have ids: "fst ` set ds = r_id ` {r \<in> set rs. doomed c (decode_row ?E r)}"
    by (simp add: image_image)
  show "uuid_to_string ?E (backup_id e) \<in> fst ` set ds \<longleftrightarrow> doomed c e"
    if e: "e \<in> set (sqlite_rows w)"
  proof
    assume "uuid_to_string ?E (backup_id e) \<in> fst ` set ds"
    then obtain r where r: "r \<in> set rs" "doomed c (decode_row ?E r)" "r_id r = uuid_to_string ?E (backup_id e)"
      unfolding ids mem_image_iff by blast
    then have "backup_id (decode_row ?E r) = backup_id e"
      using sqlite_row_id_iff [OF inv(4) inv(2)] by blast
    moreover have "decode_row ?E r \<in> set (sqlite_rows w)" using r(1) inv(1) by simp
    ultimately have "decode_row ?E r = e"
      using e sqlite_distinct_ids [OF assms(1)] by (metis inj_onD distinct_map)
    then show "doomed c e" using r(2) by simp
  next
    assume "doomed c e"
    obtain r where r: "r \<in> set rs" "e = decode_row ?E r" using e inv(1) by auto
    then show "uuid_to_string ?E (backup_id e) \<in> fst ` set ds"
      unfolding ids using canonical_columns(1) [OF inv(4) inv(2) [OF r(1)]] \<open>doomed c e\<close> by force
  qed
  have "mset (map snd ds) = mset (map r_timestamp_dir (filter (\<lambda>r. doomed c (decode_row ?E r)) rs))"
    using arg_cong [OF ds, of "image_mset snd"] unfolding fil by (simp add: image_mset.compositionality comp_def)
  also have "map r_timestamp_dir (filter (\<lambda>r. doomed c (decode_row ?E r)) rs) =
      map timestamp_dir (filter (doomed c) (sqlite_rows w))"
    using canonical_columns(4) [OF inv(4) inv(2)] inv(1) by (simp add: filter_map comp_def)
  finally show "mset (map snd ds) = mset (map timestamp_dir (filter (doomed c) (sqlite_rows w)))" .
qed

lemma sqlite_prune_law:
  assumes "sqlite_inv w" and "ts_window c"
  shows "runs (sqlite_prune_created_before c) w
    (\<lambda>r w'. sqlite_inv w' \<and> db_only w w' \<and> sqlite_events w' = sqlite_events w \<and>
       sqlite_rows w' = filter (\<lambda>e. \<not> doomed c e) (sqlite_rows w) \<and>
       mset (map snd r) = mset (map timestamp_dir (filter (doomed c) (sqlite_rows w))))
    (\<lambda>_ w'. sqlite_inv w' \<and> db_only w w' \<and> sqlite_events w' = sqlite_events w \<and> faulted w w' \<and>
       (\<exists>P. sqlite_rows w' = filter P (sqlite_rows w) \<and>
         (\<forall>e \<in> set (sqlite_rows w). \<not> doomed c e \<longrightarrow> P e)))"
  (is "runs _ _ ?Q ?R")
proof -
  obtain rs where rs: "backups_table (db w) = Some rs"
    using assms(1) unfolding sqlite_inv_def sqlite_tables_def by blast
  note inv = sqlite_inv_rows [OF assms(1) rs] and view = sqlite_view_without [OF assms(1) rs]
  have same: "?R err w'" if "read_only w w'" "faulted w w'" for err w'
    using sqlite_view_same [OF assms(1), of w'] that by (auto simp: frame_defs intro: exI [of _ "\<lambda>_. True"])
  show ?thesis
    unfolding sqlite_prune_created_before_def runs_seq runs_bind
  proof (intro runs_sqlite_connect runs_select_backups [where rs = rs])
    fix w1 ds w2
    assume w1: "read_only w w1" and w2: "read_only w1 w2"
      and "Inr (map (\<lambda>r. (r_id r, r_timestamp_dir r)) (scan_rows (env w1) (step w1)
        (filter (row_doomed (to_rfc3339 (env w1) c)) rs))) = Inr ds"
    then have ds: "mset ds = mset (map (\<lambda>r. (r_id r, r_timestamp_dir r))
        (filter (row_doomed (to_rfc3339 (env w) c)) rs))"
      using inv(4) by (auto simp: frame_defs sqlite_libs_def)
    note dids = sqlite_doomed_ids [OF assms(1) rs assms(2) ds]
    have ro: "read_only w w2" using w1 w2 by (rule read_only_trans)
    then have E2: "env w2 = env w" "db w2 = db w" by (simp_all add: frame_defs)
    have "runs (for_each (\<lambda>(i, _). db_call (\<lambda>_ _. delete_stmt i)) ds) w2
      (\<lambda>_ w'. db_only w2 w' \<and> db w' = without_ids (fst ` set ds) rs (db w))
      (\<lambda>_ w'. db_only w2 w' \<and> faulted w2 w' \<and> (\<exists>S \<subseteq> fst ` set ds. db w' = without_ids S rs (db w)))"
      using runs_delete_all [of w2 rs ds] rs E2 by simp
    then show "runs (for_each (\<lambda>(i, _). db_call (\<lambda>_ _. delete_stmt i)) ds) w2
      (\<lambda>_ w'. runs (return_io ds) w' ?Q ?R) ?R"
      unfolding runs_return
    proof (rule runs_mono)
      fix x w'
      assume w': "db_only w2 w' \<and> db w' = without_ids (fst ` set ds) rs (db w)"
      have "filter (\<lambda>e. uuid_to_string (env w) (backup_id e) \<notin> fst ` set ds) (sqlite_rows w) =
          filter (\<lambda>e. \<not> doomed c e) (sqlite_rows w)"
        using dids(1) by (simp cong: filter_cong)
      then show "?Q ds w'"
        using view [of w' "fst ` set ds"] w' ro dids(2) by (simp add: frame_defs)
    next
      fix err w'
      assume "db_only w2 w' \<and> faulted w2 w' \<and> (\<exists>S \<subseteq> fst ` set ds. db w' = without_ids S rs (db w))"
      then obtain S where S: "S \<subseteq> fst ` set ds" "db w' = without_ids S rs (db w)"
        and w': "db_only w2 w'" "faulted w2 w'" by blast
      have "faulted w w'" using faulted_extend_left [OF read_only_later [OF ro] w'(2)] .
      moreover have "\<forall>e \<in> set (sqlite_rows w). \<not> doomed c e \<longrightarrow> uuid_to_string (env w) (backup_id e) \<notin> S"
        using dids(1) S(1) by blast
      ultimately show "?R err w'"
        using view [OF _ S(2)] w' ro by (auto simp: frame_defs)
    qed
  next
    fix w1 w2 and err :: error
    assume "read_only w w1" "read_only w1 w2"
      and "faulted w1 w2 \<or> Inr (map (\<lambda>r. (r_id r, r_timestamp_dir r)) (scan_rows (env w1) (step w1)
        (filter (row_doomed (to_rfc3339 (env w1) c)) rs))) = Inl err"
    then have "read_only w w2" "faulted w w2"
      using read_only_trans [of w w1 w2] faulted_extend_left [OF read_only_later, of w w1 w2] by auto
    then show "?R err w2" by (rule same)
  qed (use rs same in \<open>simp_all add: frame_defs\<close>)
qed

subsection \<open>The interpretation\<close>

lemma sqlite_store_methods [simp]:
  "insert_entry sqlite_store = sqlite_insert_entry"
  "list_backups sqlite_store = sqlite_list_backups"
  "get_backup sqlite_store = sqlite_get_backup"
  "insert_rollback_event sqlite_store = sqlite_insert_rollback_event"
  "last_created_hash sqlite_store = sqlite_last_created_hash"
  "prune_created_before sqlite_store = sqlite_prune_created_before"
  by (simp_all add: sqlite_store_def)

interpretation sqlite: metadata_store_laws sqlite_store sqlite_rows sqlite_events
  "\<lambda>_ t. t" ts_window sqlite_inv
proof (unfold_locales, unfold sqlite_store_methods with_ts_same, goal_cases)
  case (1 w) then show ?case by (rule sqlite_distinct_ids)
next
  case (2 w w') then show ?case using sqlite_view_same [of w w'] by simp
next
  case (3 w t t') then show ?case by simp
next
  case (4 w e) then show ?case by (rule sqlite_insert_law)
next
  case (5 w) then show ?case by (rule sqlite_list_law)
next
  case (6 w u) then show ?case by (rule sqlite_get_law)
next
  case (7 w u) then show ?case by (rule sqlite_event_law)
next
  case (8 w) then show ?case by (rule sqlite_last_hash_law)
next
  case (9 w c) then show ?case by (rule sqlite_prune_law)
qed

text \<open>\<open>SqliteStore::new\<close> creates the tables that are missing and keeps the others.\<close>

lemma runs_init_db:
  assumes "sqlite_libs (env w)"
    and "\<And>rs. backups_table (db w) = Some rs \<Longrightarrow>
      list_all (canonical_row (env w)) rs \<and> distinct (map r_id rs)"
    and "\<And>evs. rollback_events_table (db w) = Some evs \<Longrightarrow>
      list_all (\<lambda>ev. \<exists>v. ev_id ev = uuid_to_string (env w) v) evs"
  shows "runs init_db w
    (\<lambda>_ w'. sqlite_inv w' \<and> db_only w w' \<and> sqlite_rows w' = sqlite_rows w \<and>
       sqlite_events w' = sqlite_events w)
    (\<lambda>_ w'. db_only w w' \<and> faulted w w' \<and> sqlite_rows w' = sqlite_rows w \<and>
       sqlite_events w' = sqlite_events w)"
  (is "runs _ _ ?Q ?R")
proof -
  let ?V = "\<lambda>w'. sqlite_rows w' = sqlite_rows w \<and> sqlite_events w' = sqlite_events w"
  let ?d1 = "(db w)\<lparr>backups_table := Some (unwrap_or (backups_table (db w)) [])\<rparr>"
  let ?d2 = "?d1\<lparr>rollback_events_table := Some (unwrap_or (rollback_events_table (db w)) [])\<rparr>"
  have view: "?V w'" if "env w' = env w" "db w' = db w \<or> db w' = ?d1 \<or> db w' = ?d2" for w'
    using that by (auto simp: sqlite_rows_def sqlite_events_def)
  have inv: "sqlite_inv w'" if "env w' = env w" "db w' = ?d2" for w'
    using that assms by (cases "backups_table (db w)"; cases "rollback_events_table (db w)")
      (simp_all add: sqlite_inv_def sqlite_tables_def)
  let ?ok = "\<lambda>w'. db_only w w' \<and> db w' = ?d2"
  let ?err = "\<lambda>w'. db_only w w' \<and> faulted w w' \<and> (db w' = db w \<or> db w' = ?d1 \<or> db w' = ?d2)"
  have "runs init_db w (\<lambda>_. ?ok) (\<lambda>_. ?err)"
    unfolding init_db_def runs_seq
  proof (rule runs_sqlite_connect)
    fix w1
    assume w1: "read_only w w1"
    show "runs (db_call (\<lambda>E k d. Inr ((), d\<lparr>backups_table := Some (unwrap_or (backups_table d) [])\<rparr>))) w1
      (\<lambda>_ w'. runs (db_call (\<lambda>E k d. Inr ((), d\<lparr>rollback_events_table :=
         Some (unwrap_or (rollback_events_table d) [])\<rparr>))) w' (\<lambda>_. ?ok) (\<lambda>_. ?err)) (\<lambda>_. ?err)"
    proof (rule runs_mono [OF runs_db_change [where ?w0.0 = w and N = "\<lambda>w'. db w' = ?d1"
          and Ol = "\<lambda>w'. db w' = db w" and C = "\<lambda>_. False"]])
      fix x w2
      assume w2: "db_only w w2 \<and> db w2 = ?d1"
      show "runs (db_call (\<lambda>E k d. Inr ((), d\<lparr>rollback_events_table :=
         Some (unwrap_or (rollback_events_table d) [])\<rparr>))) w2 (\<lambda>_. ?ok) (\<lambda>_. ?err)"
        by (rule runs_mono [OF runs_db_change [where ?w0.0 = w and N = "\<lambda>w'. db w' = ?d2"
          and Ol = "\<lambda>w'. db w' = ?d1" and C = "\<lambda>_. False"]]) (use w2 in auto)
    qed (use w1 read_only_db_only in \<open>auto simp: frame_defs\<close>)
  qed (use read_only_db_only in \<open>auto simp: frame_defs\<close>)
  then show ?thesis
  proof (rule runs_mono)
    fix x w'
    assume "?ok w'"
    then show "?Q x w'" using view [of w'] inv [of w'] by (simp add: frame_defs)
  next
    fix e w'
    assume "?err w'"
    then show "?R e w'" using view [of w'] by (simp add: frame_defs)
  qed
qed

end
