(* ===== verification/Postgres_Store.thy ===== *)
theory Postgres_Store
  imports Store_Spec
begin

text \<open>
  \<open>crates/storage/src/postgres_store.rs\<close>: the Postgres backend. Ids are \<open>UUID\<close> columns and
  timestamps \<open>TIMESTAMPTZ\<close> columns, which keep a timestamp at the resolution of the database
  (\<open>pg_timestamp\<close>); pruning is one \<open>DELETE .. RETURNING\<close>. As in the source, the small column
  codecs are a second copy of those of the SQLite backend.
\<close>

section \<open>Tables\<close>

record pg_row =
  p_id :: uuid
  p_created_at :: datetime
  p_timestamp_dir :: string
  p_content_hash :: string
  p_status :: string
  p_skip_reason :: "string option"
  p_source_revision :: "string option"
  p_sync_duration_ms :: "i64 option"
  p_size_bytes :: i64
  p_stats_json :: "string option"

record pg_event =
  pe_id :: uuid
  pe_backup_id :: uuid
  pe_created_at :: datetime

record pg_db =
  pg_backups :: "pg_row list option"
  pg_rollback_events :: "pg_event list option"

section \<open>Column codecs\<close>

definition pg_parse_status :: "string \<Rightarrow> BackupStatus" where
  "pg_parse_status raw = (if eq_ignore_ascii_case raw ''skipped'' then Skipped else Created)"

definition pg_status_str :: "BackupStatus \<Rightarrow> string" where
  "pg_status_str s = (case s of Created \<Rightarrow> ''created'' | Skipped \<Rightarrow> ''skipped'')"

definition pg_parse_skip_reason :: "string \<Rightarrow> BackupSkipReason" where
  "pg_parse_skip_reason raw = (if raw = ''unchanged'' then Unchanged else Unchanged)"

definition pg_skip_reason_str :: "BackupSkipReason \<Rightarrow> string" where
  "pg_skip_reason_str r = (case r of Unchanged \<Rightarrow> ''unchanged'')"

definition pg_row_of_entry :: "env \<Rightarrow> BackupEntry \<Rightarrow> pg_row option" where
  "pg_row_of_entry E e = map_option (\<lambda>enc.
     \<lparr>p_id = backup_id e,
      p_created_at = pg_timestamp E (created_at e),
      p_timestamp_dir = timestamp_dir e,
      p_content_hash = entry_hash e,
      p_status = pg_status_str (status e),
      p_skip_reason = map_option pg_skip_reason_str (skip_reason e),
      p_source_revision = source_revision e,
      p_sync_duration_ms = sync_duration_ms e,
      p_size_bytes = size_bytes e,
      p_stats_json = enc\<rparr>) (stats_to_text E (stats e))"

definition pg_row_to_entry :: "env \<Rightarrow> pg_row \<Rightarrow> error + BackupEntry" where
  "pg_row_to_entry E r =
     (case stats_of_text E (p_stats_json r) of
        None \<Rightarrow> Inl (Context ''parse stats_json'' JsonError)
      | Some s \<Rightarrow> Inr
         \<lparr>created_at = p_created_at r,
          timestamp_dir = p_timestamp_dir r,
          entry_hash = p_content_hash r,
          status = pg_parse_status (p_status r),
          skip_reason = map_option pg_parse_skip_reason (p_skip_reason r),
          source_revision = p_source_revision r,
          sync_duration_ms = p_sync_duration_ms r,
          size_bytes = p_size_bytes r,
          stats = s,
          backup_id = p_id r\<rparr>)"

section \<open>The methods\<close>

definition pg_run_migrations :: "(pg_db world, unit) io" where
  "pg_run_migrations = seq_io
     (map_err (Context ''create backups table'')
       (db_call (\<lambda>E k d. Inr ((), d\<lparr>pg_backups := Some (unwrap_or (pg_backups d) [])\<rparr>))))
     (map_err (Context ''create rollback_events table'')
       (db_call (\<lambda>E k d. Inr ((), d\<lparr>pg_rollback_events := Some (unwrap_or (pg_rollback_events d) [])\<rparr>))))"

definition pg_new :: "(pg_db world, unit) io" where
  "pg_new = seq_io (map_err (Context ''connect to postgres'') (db_call (\<lambda>E k d. Inr ((), d))))
     pg_run_migrations"

definition pg_insert_stmt :: "pg_row \<Rightarrow> pg_db \<Rightarrow> error + (unit \<times> pg_db)" where
  "pg_insert_stmt row d =
     (case pg_backups d of
        None \<Rightarrow> Inl (DbError ''relation backups does not exist'')
      | Some rs \<Rightarrow>
          if p_id row \<in> set (map p_id rs) then Inl (DbError ''duplicate key: backups_pkey'')
          else Inr ((), d\<lparr>pg_backups := Some (rs @ [row])\<rparr>))"

definition pg_insert_entry :: "BackupEntry \<Rightarrow> (pg_db world, unit) io" where
  "pg_insert_entry e =
     bind_io (get_io env) (\<lambda>E.
     bind_io (of_option JsonError (pg_row_of_entry E e)) (\<lambda>row.
     db_call (\<lambda>_ _. pg_insert_stmt row)))"

definition pg_select :: "(env \<Rightarrow> nat \<Rightarrow> pg_row list \<Rightarrow> 'a) \<Rightarrow> (pg_db world, 'a) io" where
  "pg_select q = db_call (\<lambda>E k d.
     case pg_backups d of
       None \<Rightarrow> Inl (DbError ''relation backups does not exist'')
     | Some rs \<Rightarrow> Inr (q E k rs, d))"

definition pg_list_backups :: "(pg_db world, BackupEntry list) io" where
  "pg_list_backups =
     bind_io (pg_select (\<lambda>E k rs. order_by_desc p_created_at E k rs)) (\<lambda>rows.
     bind_io (get_io env) (\<lambda>E. of_result (collect_results (map (pg_row_to_entry E) rows))))"

definition pg_get_backup :: "uuid \<Rightarrow> (pg_db world, BackupEntry option) io" where
  "pg_get_backup u =
     bind_io (pg_select (\<lambda>E k rs.
       case scan_rows E k (filter (\<lambda>r. p_id r = u) rs) of [] \<Rightarrow> None | r # _ \<Rightarrow> Some r)) (\<lambda>row.
     bind_io (get_io env) (\<lambda>E.
       case row of
         Some r \<Rightarrow> bind_io (of_result (pg_row_to_entry E r)) (\<lambda>e. return_io (Some e))
       | None \<Rightarrow> return_io None))"

definition pg_insert_event_stmt :: "pg_event \<Rightarrow> pg_db \<Rightarrow> error + (unit \<times> pg_db)" where
  "pg_insert_event_stmt ev d =
     (case pg_rollback_events d of
        None \<Rightarrow> Inl (DbError ''relation rollback_events does not exist'')
      | Some evs \<Rightarrow>
          if pe_id ev \<in> set (map pe_id evs) then Inl (DbError ''duplicate key: rollback_events_pkey'')
          else Inr ((), d\<lparr>pg_rollback_events := Some (evs @ [ev])\<rparr>))"

definition pg_insert_rollback_event :: "uuid \<Rightarrow> (pg_db world, unit) io" where
  "pg_insert_rollback_event u =
     bind_io (get_io env) (\<lambda>E.
     bind_io uuid_new_v4 (\<lambda>v.
     bind_io utc_now (\<lambda>now.
     db_call (\<lambda>_ _. pg_insert_event_stmt
       \<lparr>pe_id = v, pe_backup_id = u, pe_created_at = pg_timestamp E now\<rparr>))))"

definition pg_last_created_hash :: "(pg_db world, string option) io" where
  "pg_last_created_hash = pg_select (\<lambda>E k rs.
     case take 1 (order_by_desc p_created_at E k (filter (\<lambda>r. p_status r = ''created'') rs)) of
       [] \<Rightarrow> None
     | r # _ \<Rightarrow> Some (p_content_hash r))"

definition pg_row_doomed :: "datetime \<Rightarrow> pg_row \<Rightarrow> bool" where
  "pg_row_doomed cutoff r \<longleftrightarrow> p_status r = ''created'' \<and> p_created_at r < cutoff"

definition pg_prune_created_before :: "datetime \<Rightarrow> (pg_db world, (string \<times> string) list) io" where
  "pg_prune_created_before cutoff = db_call (\<lambda>E k d.
     case pg_backups d of
       None \<Rightarrow> Inl (DbError ''relation backups does not exist'')
     | Some rs \<Rightarrow> Inr
        (map (\<lambda>r. (pg_uuid_text E (p_id r), p_timestamp_dir r))
           (scan_rows E k (filter (pg_row_doomed (pg_timestamp E cutoff)) rs)),
         d\<lparr>pg_backups := Some (filter (\<lambda>r. \<not> pg_row_doomed (pg_timestamp E cutoff) r) rs)\<rparr>))"

definition postgres_store :: "pg_db MetadataStore" where
  "postgres_store =
     \<lparr>insert_entry = pg_insert_entry,
      list_backups = pg_list_backups,
      get_backup = pg_get_backup,
      insert_rollback_event = pg_insert_rollback_event,
      last_created_hash = pg_last_created_hash,
      prune_created_before = pg_prune_created_before\<rparr>"

section \<open>The view and the invariant\<close>

definition pg_decode :: "env \<Rightarrow> pg_row \<Rightarrow> BackupEntry" where
  "pg_decode E r = projr (pg_row_to_entry E r)"

definition pg_canonical :: "env \<Rightarrow> pg_row \<Rightarrow> bool" where
  "pg_canonical E r \<longleftrightarrow> (\<exists>e. pg_row_of_entry E e = Some r)"

definition pg_rows :: "pg_db world \<Rightarrow> BackupEntry list" where
  "pg_rows w = map (pg_decode (env w)) (unwrap_or (pg_backups (db w)) [])"

definition pg_events :: "pg_db world \<Rightarrow> (uuid \<times> uuid) list" where
  "pg_events w = map (\<lambda>ev. (pe_id ev, pe_backup_id ev)) (unwrap_or (pg_rollback_events (db w)) [])"

definition pg_libs :: "env \<Rightarrow> bool" where
  "pg_libs E \<longleftrightarrow> pg_timestamp_mono E \<and> stats_json_codec E \<and> row_order_ok E"

definition pg_tables :: "env \<Rightarrow> pg_db \<Rightarrow> bool" where
  "pg_tables E d \<longleftrightarrow>
     (\<exists>rs. pg_backups d = Some rs \<and> list_all (pg_canonical E) rs \<and> distinct (map p_id rs)) \<and>
     pg_rollback_events d \<noteq> None"

definition pg_inv :: "pg_db world \<Rightarrow> bool" where
  "pg_inv w \<longleftrightarrow> pg_libs (env w) \<and> pg_tables (env w) (db w)"

section \<open>Lemmas\<close>

subsection \<open>Codecs\<close>

lemma pg_parse_status_str [simp]: "pg_parse_status (pg_status_str s) = s"
  by (cases s) (simp_all add: pg_parse_status_def pg_status_str_def eq_ignore_ascii_case_def to_ascii_lowercase_def)

lemma pg_status_str_created [simp]: "pg_status_str s = ''created'' \<longleftrightarrow> s = Created"
  by (cases s) (simp_all add: pg_status_str_def)

lemma pg_parse_skip_reason_str [simp]: "pg_parse_skip_reason (pg_skip_reason_str r) = r"
  by (cases r) (simp add: pg_parse_skip_reason_def)

lemma pg_row_of_entry_total: "stats_json_codec E \<Longrightarrow> \<exists>r. pg_row_of_entry E e = Some r"
  by (rule stats_text_roundtrip [of E "stats e"]) (simp_all add: pg_row_of_entry_def)

lemma pg_row_roundtrip:
  assumes "pg_libs E" "pg_row_of_entry E e = Some r"
  shows "pg_row_to_entry E r = Inr (with_ts (pg_timestamp E (created_at e)) e)"
proof -
  obtain enc where "stats_to_text E (stats e) = Some enc" "stats_of_text E enc = Some (stats e)"
    using stats_text_roundtrip assms(1) unfolding pg_libs_def by blast
  then show ?thesis
    using assms by (auto simp: pg_row_of_entry_def pg_row_to_entry_def with_ts_def comp_def
        option.map_comp map_option_case split: option.splits)
qed

lemma pg_decode_of_entry:
  "pg_libs E \<Longrightarrow> pg_row_of_entry E e = Some r \<Longrightarrow>
   pg_decode E r = with_ts (pg_timestamp E (created_at e)) e"
  unfolding pg_decode_def by (simp add: pg_row_roundtrip)

lemma pg_canonicalD:
  assumes "pg_libs E" "pg_canonical E r"
  shows "pg_row_to_entry E r = Inr (pg_decode E r)"
    and "p_id r = backup_id (pg_decode E r)"
    and "p_created_at r = created_at (pg_decode E r)"
    and "p_status r = ''created'' \<longleftrightarrow> is_created (pg_decode E r)"
    and "p_timestamp_dir r = timestamp_dir (pg_decode E r)"
    and "p_content_hash r = entry_hash (pg_decode E r)"
proof -
  obtain e where e: "pg_row_of_entry E e = Some r" using assms(2) unfolding pg_canonical_def by blast
  note dec = pg_decode_of_entry [OF assms(1) e]
  show "pg_row_to_entry E r = Inr (pg_decode E r)"
    unfolding dec by (rule pg_row_roundtrip [OF assms(1) e])
  have r: "p_id r = backup_id e" "p_created_at r = pg_timestamp E (created_at e)"
    "p_status r = pg_status_str (status e)" "p_timestamp_dir r = timestamp_dir e"
    "p_content_hash r = entry_hash e"
    using e by (auto simp: pg_row_of_entry_def)
  show "p_id r = backup_id (pg_decode E r)" "p_created_at r = created_at (pg_decode E r)"
    "p_status r = ''created'' \<longleftrightarrow> is_created (pg_decode E r)"
    "p_timestamp_dir r = timestamp_dir (pg_decode E r)" "p_content_hash r = entry_hash (pg_decode E r)"
    unfolding dec r by (simp_all add: is_created_def)
qed

subsection \<open>The view\<close>

lemma pg_inv_rows:
  assumes "pg_inv w" "pg_backups (db w) = Some rs"
  shows "pg_rows w = map (pg_decode (env w)) rs"
    and "\<And>r. r \<in> set rs \<Longrightarrow> pg_canonical (env w) r"
    and "distinct (map p_id rs)"
    and "pg_libs (env w)"
  using assms by (auto simp: pg_inv_def pg_tables_def pg_rows_def list_all_iff)

lemma pg_view_same:
  assumes "pg_inv w" "env w' = env w" "db w' = db w"
  shows "pg_inv w'" "pg_rows w' = pg_rows w" "pg_events w' = pg_events w"
  using assms by (simp_all add: pg_inv_def pg_rows_def pg_events_def)

lemma pg_view_backups:
  assumes "pg_inv w" "env w' = env w" "db w' = (db w)\<lparr>pg_backups := Some rs'\<rparr>"
    and "list_all (pg_canonical (env w)) rs'" "distinct (map p_id rs')"
  shows "pg_inv w'" "pg_rows w' = map (pg_decode (env w)) rs'" "pg_events w' = pg_events w"
  using assms by (simp_all add: pg_inv_def pg_tables_def pg_rows_def pg_events_def)

lemma pg_view_events:
  assumes "pg_inv w" "env w' = env w" "pg_rollback_events (db w) = Some evs"
    and "db w' = (db w)\<lparr>pg_rollback_events := Some (evs @ [ev])\<rparr>"
  shows "pg_inv w'" "pg_rows w' = pg_rows w"
    "pg_events w' = pg_events w @ [(pe_id ev, pe_backup_id ev)]"
  using assms by (simp_all add: pg_inv_def pg_tables_def pg_rows_def pg_events_def)

lemma pg_ids: "pg_inv w \<Longrightarrow> pg_backups (db w) = Some rs \<Longrightarrow> map p_id rs = map backup_id (pg_rows w)"
  using pg_inv_rows pg_canonicalD(2) by auto

lemma pg_distinct_ids: "pg_inv w \<Longrightarrow> distinct (map backup_id (pg_rows w))"
proof -
  assume inv: "pg_inv w"
  then obtain rs where "pg_backups (db w) = Some rs" unfolding pg_inv_def pg_tables_def by blast
  then show ?thesis using pg_ids [OF inv] pg_inv_rows(3) [OF inv] by metis
qed

lemma runs_pg_select:
  assumes "pg_inv w"
    and "\<And>k rs. pg_backups (db w) = Some rs \<Longrightarrow> A (q (env w) k rs)"
  shows "runs (pg_select q) w (\<lambda>x w'. read_only w w' \<and> A x) (\<lambda>_ w'. read_only w w' \<and> faulted w w')"
proof -
  obtain rs where rs: "pg_backups (db w) = Some rs"
    using assms(1) unfolding pg_inv_def pg_tables_def by blast
  show ?thesis
    unfolding pg_select_def
    by (rule runs_db_call) (use rs assms(2) [OF rs] in \<open>auto simp: frame_defs faulted_at_step\<close>)
qed

subsection \<open>The laws\<close>

lemma pg_list_law:
  assumes "pg_inv w"
  shows "runs pg_list_backups w
    (\<lambda>es w'. read_only w w' \<and> mset es = mset (pg_rows w) \<and> newest_first es)
    (\<lambda>_ w'. read_only w w' \<and> faulted w w')"
  unfolding pg_list_backups_def runs_bind
proof (rule runs_mono [OF runs_pg_select [where A = "\<lambda>ord. collect_results (map (pg_row_to_entry (env w)) ord) =
      Inr (map (pg_decode (env w)) ord) \<and> mset (map (pg_decode (env w)) ord) = mset (pg_rows w) \<and>
      newest_first (map (pg_decode (env w)) ord)"]])
  fix k and rs :: "pg_row list"
  let ?E = "env w" and ?ord = "order_by_desc p_created_at (env w) k rs"
  assume "pg_backups (db w) = Some rs"
  note inv = pg_inv_rows [OF assms this]
  have ok: "row_order_ok ?E" using inv(4) by (simp add: pg_libs_def)
  have canon: "pg_canonical ?E r" if "r \<in> set ?ord" for r using that inv(2) ok by simp
  have "map (pg_row_to_entry ?E) ?ord = map (\<lambda>r. Inr (pg_decode ?E r)) ?ord"
    using pg_canonicalD(1) [OF inv(4) canon] by simp
  then have "collect_results (map (pg_row_to_entry ?E) ?ord) = Inr (map (pg_decode ?E) ?ord)"
    by (simp only: collect_results_map_Inr)
  moreover have "newest_first (map (pg_decode ?E) ?ord)"
    unfolding newest_first_def sorted_wrt_map
    by (rule sorted_wrt_mono_rel [OF _ sorted_order_by_desc]) (simp add: pg_canonicalD(3) [OF inv(4) canon])
  ultimately show "collect_results (map (pg_row_to_entry ?E) ?ord) = Inr (map (pg_decode ?E) ?ord) \<and>
      mset (map (pg_decode ?E) ?ord) = mset (pg_rows w) \<and> newest_first (map (pg_decode ?E) ?ord)"
    using ok inv(1) by simp
qed (use assms in \<open>simp_all add: wp_simps frame_defs\<close>)

lemma pg_get_law:
  assumes "pg_inv w"
  shows "runs (pg_get_backup u) w
    (\<lambda>r w'. read_only w w' \<and> r = find (\<lambda>e. backup_id e = u) (pg_rows w))
    (\<lambda>_ w'. read_only w w' \<and> faulted w w')"
  unfolding pg_get_backup_def runs_bind
proof (rule runs_mono [OF runs_pg_select [where A = "\<lambda>row.
    (case row of None \<Rightarrow> True | Some r \<Rightarrow> pg_row_to_entry (env w) r = Inr (pg_decode (env w) r)) \<and>
    map_option (pg_decode (env w)) row = find (\<lambda>e. backup_id e = u) (pg_rows w)"]])
  fix k and rs :: "pg_row list"
  let ?E = "env w"
  let ?sel = "scan_rows ?E k (filter (\<lambda>r. p_id r = u) rs)"
  let ?row = "case ?sel of [] \<Rightarrow> None | r # _ \<Rightarrow> Some r"
  assume rs: "pg_backups (db w) = Some rs"
  note inv = pg_inv_rows [OF assms rs]
  have set: "set ?sel = {r \<in> set rs. p_id r = u}" using inv(4) by (simp add: pg_libs_def)
  have id: "backup_id (pg_decode ?E r) = p_id r" if "r \<in> set rs" for r
    using pg_canonicalD(2) [OF inv(4) inv(2) [OF that]] by simp
  show "(case ?row of None \<Rightarrow> True | Some r \<Rightarrow> pg_row_to_entry ?E r = Inr (pg_decode ?E r)) \<and>
      map_option (pg_decode ?E) ?row = find (\<lambda>e. backup_id e = u) (pg_rows w)"
  proof (cases ?sel)
    case Nil
    then have "find (\<lambda>e. backup_id e = u) (pg_rows w) = None"
      using set id inv(1) by (auto simp: find_None_iff)
    with Nil show ?thesis by simp
  next
    case (Cons r rest)
    then have r: "r \<in> set rs" "p_id r = u" using set by auto
    then have "find (\<lambda>e. backup_id e = u) (pg_rows w) = Some (pg_decode ?E r)"
      using find_Some_distinct [OF pg_distinct_ids [OF assms], of "pg_decode ?E r"] id [OF r(1)] inv(1)
      by simp
    then show ?thesis using Cons pg_canonicalD(1) [OF inv(4) inv(2) [OF r(1)]] by simp
  qed
qed (use assms in \<open>auto simp: wp_simps frame_defs split: option.splits\<close>)

lemma pg_last_hash_law:
  assumes "pg_inv w"
  shows "runs pg_last_created_hash w
    (\<lambda>r w'. read_only w w' \<and> newest_hash (pg_rows w) r)
    (\<lambda>_ w'. read_only w w' \<and> faulted w w')"
  unfolding pg_last_created_hash_def
proof (rule runs_pg_select [OF assms])
  fix k and rs :: "pg_row list"
  let ?E = "env w"
  assume rs: "pg_backups (db w) = Some rs"
  note inv = pg_inv_rows [OF assms rs]
  let ?cr = "filter (\<lambda>r. p_status r = ''created'') rs"
  have ok: "row_order_ok ?E" using inv(4) by (simp add: pg_libs_def)
  have cr: "set ?cr = {r \<in> set rs. is_created (pg_decode ?E r)}"
    using pg_canonicalD(4) [OF inv(4) inv(2)] by auto
  note top = order_by_desc_hd [OF ok, where key = p_created_at and k = k and rs = ?cr]
  show "newest_hash (pg_rows w) (case take 1 (order_by_desc p_created_at ?E k ?cr) of
      [] \<Rightarrow> None | r # _ \<Rightarrow> Some (p_content_hash r))"
  proof (cases "take 1 (order_by_desc p_created_at ?E k ?cr)")
    case Nil
    then have "?cr = []" using top by simp
    then have "filter is_created (pg_rows w) = []"
      using cr inv(1) by (auto simp: filter_empty_conv)
    with Nil show ?thesis by (simp add: newest_hash_def)
  next
    case (Cons r rest)
    then have r: "r \<in> set ?cr" and max: "\<forall>r' \<in> set ?cr. p_created_at r' \<le> p_created_at r"
      using top by simp_all
    then have "r \<in> set rs" "is_created (pg_decode ?E r)" using cr by auto
    moreover have "\<forall>r' \<in> set rs. is_created (pg_decode ?E r') \<longrightarrow>
        created_at (pg_decode ?E r') \<le> created_at (pg_decode ?E r)"
      using max cr pg_canonicalD(3) [OF inv(4) inv(2)] calculation(1) by auto
    ultimately show ?thesis
      using Cons pg_canonicalD(6) [OF inv(4) inv(2)] inv(1) by (auto simp: newest_hash_def)
  qed
qed

lemma pg_insert_law:
  fixes e :: BackupEntry
  assumes "pg_inv w"
  defines "e' \<equiv> with_ts (pg_timestamp (env w) (created_at e)) e"
  shows "runs (pg_insert_entry e) w
    (\<lambda>_ w'. pg_inv w' \<and> db_only w w' \<and> pg_events w' = pg_events w \<and>
       backup_id e \<notin> ids_of (pg_rows w) \<and> pg_rows w' = pg_rows w @ [e'])
    (\<lambda>_ w'. pg_inv w' \<and> db_only w w' \<and> pg_events w' = pg_events w \<and>
       (faulted w w' \<or> backup_id e \<in> ids_of (pg_rows w)) \<and>
       (pg_rows w' = pg_rows w \<or> backup_id e \<notin> ids_of (pg_rows w) \<and> pg_rows w' = pg_rows w @ [e']))"
  (is "runs _ _ ?Q ?R")
proof -
  obtain rs where rs: "pg_backups (db w) = Some rs"
    using assms(1) unfolding pg_inv_def pg_tables_def by blast
  note inv = pg_inv_rows [OF assms(1) rs]
  obtain row where row: "pg_row_of_entry (env w) e = Some row"
    using pg_row_of_entry_total inv(4) unfolding pg_libs_def by blast
  have canon: "pg_canonical (env w) row" using row by (auto simp: pg_canonical_def)
  have dec: "pg_decode (env w) row = e'" unfolding e'_def by (rule pg_decode_of_entry [OF inv(4) row])
  have "set (map p_id rs) = ids_of (pg_rows w)" using arg_cong [OF pg_ids [OF assms(1) rs], of set] by simp
  moreover have "p_id row = backup_id e" using row by (auto simp: pg_row_of_entry_def)
  ultimately have dup: "p_id row \<in> set (map p_id rs) \<longleftrightarrow> backup_id e \<in> ids_of (pg_rows w)" by simp
  let ?N = "\<lambda>w'. backup_id e \<notin> ids_of (pg_rows w) \<and> pg_inv w' \<and>
    pg_rows w' = pg_rows w @ [e'] \<and> pg_events w' = pg_events w"
  let ?O = "\<lambda>w'. pg_inv w' \<and> pg_rows w' = pg_rows w \<and> pg_events w' = pg_events w"
  have "runs (db_call (\<lambda>_ _. pg_insert_stmt row)) w
    (\<lambda>_ w'. db_only w w' \<and> ?N w')
    (\<lambda>_ w'. db_only w w' \<and> (faulted w w' \<and> (?O w' \<or> ?N w') \<or> ?O w' \<and> backup_id e \<in> ids_of (pg_rows w)))"
  proof (rule runs_db_change)
    fix x d'
    let ?w' = "w\<lparr>step := Suc (step w), db := d'\<rparr>"
    assume "pg_insert_stmt row (db w) = Inr (x, d')"
    then have *: "p_id row \<notin> set (map p_id rs)" "d' = (db w)\<lparr>pg_backups := Some (rs @ [row])\<rparr>"
      using rs by (simp_all add: pg_insert_stmt_def split: if_splits)
    show "?N ?w'"
      using pg_view_backups [OF assms(1), of ?w' "rs @ [row]"] * dup inv canon dec by (simp add: list_all_iff)
  qed (use rs dup pg_view_same [OF assms(1), of "w\<lparr>step := Suc (step w)\<rparr>"] in
      \<open>simp_all add: frame_defs pg_insert_stmt_def split: if_splits\<close>)
  then have "runs (db_call (\<lambda>_ _. pg_insert_stmt row)) w ?Q ?R"
    by (rule runs_mono) auto
  then show ?thesis by (simp add: pg_insert_entry_def runs_bind runs_get runs_of_option row)
qed

lemma pg_event_law:
  assumes "pg_inv w"
  shows "runs (pg_insert_rollback_event u) w
    (\<lambda>_ w'. pg_inv w' \<and> db_only w w' \<and> pg_rows w' = pg_rows w \<and>
       (\<exists>v. pg_events w' = pg_events w @ [(v, u)]))
    (\<lambda>_ w'. pg_inv w' \<and> db_only w w' \<and> pg_rows w' = pg_rows w \<and>
       (faulted w w' \<or> id_clash (fst ` set (pg_events w)) w w') \<and>
       (pg_events w' = pg_events w \<or> (\<exists>v. pg_events w' = pg_events w @ [(v, u)])))"
  (is "runs _ _ ?Q ?R")
proof -
  obtain evs where evs: "pg_rollback_events (db w) = Some evs"
    using assms unfolding pg_inv_def pg_tables_def by blast
  define v where "v = fresh_uuid (env w) (step w)"
  define w2 where "w2 = w\<lparr>step := Suc (Suc (step w))\<rparr>"
  define ev where "ev = \<lparr>pe_id = v, pe_backup_id = u,
    pe_created_at = pg_timestamp (env w) (clock (env w) (Suc (step w)))\<rparr>"
  let ?N = "\<lambda>w'. pg_inv w' \<and> pg_rows w' = pg_rows w \<and> (\<exists>v. pg_events w' = pg_events w @ [(v, u)])"
  let ?O = "\<lambda>w'. pg_inv w' \<and> pg_rows w' = pg_rows w \<and> pg_events w' = pg_events w"
  let ?C = "id_clash (fst ` set (pg_events w)) w"
  have clash: "?C (w2\<lparr>step := Suc (step w2)\<rparr>)" if "pe_id ev \<in> set (map pe_id evs)"
  proof -
    have "v \<in> fst ` set (pg_events w)"
      using that evs by (simp add: pg_events_def ev_def image_image)
    then show ?thesis
      unfolding id_clash_def v_def by (intro exI [of _ "step w"]) (simp add: w2_def)
  qed
  have "runs (db_call (\<lambda>_ _. pg_insert_event_stmt ev)) w2
    (\<lambda>_ w'. db_only w w' \<and> ?N w')
    (\<lambda>_ w'. db_only w w' \<and> (faulted w w' \<and> (?O w' \<or> ?N w') \<or> ?O w' \<and> ?C w'))"
  proof (rule runs_db_change)
    fix x d'
    let ?w' = "w2\<lparr>step := Suc (step w2), db := d'\<rparr>"
    assume "pg_insert_event_stmt ev (db w2) = Inr (x, d')"
    then have "d' = (db w)\<lparr>pg_rollback_events := Some (evs @ [ev])\<rparr>"
      using evs by (simp add: w2_def pg_insert_event_stmt_def split: if_splits)
    then show "?N ?w'"
      using pg_view_events [OF assms _ evs, of ?w' ev] by (simp add: ev_def w2_def)
  next
    fix err
    assume "pg_insert_event_stmt ev (db w2) = Inl err"
    then show "?C (w2\<lparr>step := Suc (step w2)\<rparr>)"
      using clash evs by (simp add: w2_def pg_insert_event_stmt_def split: if_splits)
  qed (use pg_view_same [OF assms, of "w2\<lparr>step := Suc (step w2)\<rparr>"] in \<open>simp_all add: w2_def frame_defs\<close>)
  then have "runs (db_call (\<lambda>_ _. pg_insert_event_stmt ev)) w2 ?Q ?R"
    by (rule runs_mono) auto
  then show ?thesis by (simp add: pg_insert_rollback_event_def wp_simps ev_def v_def w2_def)
qed

lemma pg_prune_law:
  fixes c :: datetime
  assumes "pg_inv w"
  defines "t \<equiv> pg_timestamp (env w) c"
  shows "runs (pg_prune_created_before c) w
    (\<lambda>r w'. pg_inv w' \<and> db_only w w' \<and> pg_events w' = pg_events w \<and>
       pg_rows w' = filter (\<lambda>e. \<not> doomed t e) (pg_rows w) \<and>
       mset (map snd r) = mset (map timestamp_dir (filter (doomed t) (pg_rows w))))
    (\<lambda>_ w'. pg_inv w' \<and> db_only w w' \<and> pg_events w' = pg_events w \<and> faulted w w' \<and>
       (\<exists>P. pg_rows w' = filter P (pg_rows w) \<and>
         (\<forall>e \<in> set (pg_rows w). \<not> doomed t e \<longrightarrow> P e)))"
  (is "runs _ _ ?Q ?R")
proof -
  obtain rs where rs: "pg_backups (db w) = Some rs"
    using assms(1) unfolding pg_inv_def pg_tables_def by blast
  note inv = pg_inv_rows [OF assms(1) rs]
  let ?E = "env w"
  have doom: "pg_row_doomed t r \<longleftrightarrow> doomed t (pg_decode ?E r)" if "r \<in> set rs" for r
    using pg_canonicalD(3,4) [OF inv(4) inv(2) [OF that]] by (simp add: pg_row_doomed_def doomed_def)
  let ?rest = "filter (\<lambda>r. \<not> pg_row_doomed t r) rs"
  have new: "pg_inv w'" "pg_rows w' = filter (\<lambda>e. \<not> doomed t e) (pg_rows w)" "pg_events w' = pg_events w"
    if "env w' = ?E" "db w' = (db w)\<lparr>pg_backups := Some ?rest\<rparr>" for w'
    using pg_view_backups [OF assms(1) that] inv doom distinct_map_filter_fst [OF inv(3)]
    by (simp_all add: list_all_iff filter_map comp_def cong: filter_cong)
  note same = pg_view_same [OF assms(1), of "w\<lparr>step := Suc (step w)\<rparr>"]
  have ret: "mset (map snd (map (\<lambda>r. (f r, p_timestamp_dir r)) (scan_rows ?E k (filter (pg_row_doomed t) rs)))) =
      mset (map timestamp_dir (filter (doomed t) (pg_rows w)))" for f :: "pg_row \<Rightarrow> string" and k
  proof -
    have "map timestamp_dir (filter (doomed t) (pg_rows w)) = map p_timestamp_dir (filter (pg_row_doomed t) rs)"
      using inv doom pg_canonicalD(5) [OF inv(4) inv(2)] by (simp add: filter_map comp_def cong: filter_cong)
    then show ?thesis using inv(4) by (simp add: pg_libs_def comp_def)
  qed
  show ?thesis
    unfolding pg_prune_created_before_def
  proof (rule runs_db_call, goal_cases)
    case (1 x d)
    then show ?case using rs new [of "w\<lparr>step := Suc (step w), db := d\<rparr>"]
        ret [of "\<lambda>r. pg_uuid_text ?E (p_id r)" "step w"]
      by (auto simp: t_def frame_defs)
  next
    case (2 m)
    then show ?case using same faulted_now [of w] by (auto simp: frame_defs intro: exI [of _ "\<lambda>_. True"])
  next
    case (3 e)
    then show ?case using rs by simp
  next
    case (4 m x d)
    then show ?case
      using rs new [of "w\<lparr>step := Suc (step w), db := d\<rparr>"] faulted_at_step [of w "w\<lparr>step := Suc (step w), db := d\<rparr>"]
      by (auto simp: t_def frame_defs intro: exI [of _ "\<lambda>e. \<not> doomed t e"])
  qed
qed

subsection \<open>The interpretation\<close>

lemma postgres_store_methods [simp]:
  "insert_entry postgres_store = pg_insert_entry"
  "list_backups postgres_store = pg_list_backups"
  "get_backup postgres_store = pg_get_backup"
  "insert_rollback_event postgres_store = pg_insert_rollback_event"
  "last_created_hash postgres_store = pg_last_created_hash"
  "prune_created_before postgres_store = pg_prune_created_before"
  by (simp_all add: postgres_store_def)

interpretation pg: metadata_store_laws postgres_store pg_rows pg_events
  pg_timestamp "\<lambda>_. True" pg_inv
proof (unfold_locales, unfold postgres_store_methods, goal_cases)
  case (1 w) then show ?case by (rule pg_distinct_ids)
next
  case (2 w w') then show ?case using pg_view_same [of w w'] by simp
next
  case (3 w t t') then show ?case by (simp add: pg_inv_def pg_libs_def pg_timestamp_mono_def)
next
  case (4 w e) then show ?case using pg_insert_law by blast
next
  case (5 w) then show ?case by (rule pg_list_law)
next
  case (6 w u) then show ?case by (rule pg_get_law)
next
  case (7 w u) then show ?case by (rule pg_event_law)
next
  case (8 w) then show ?case by (rule pg_last_hash_law)
next
  case (9 w c) then show ?case using pg_prune_law by blast
qed

text \<open>\<open>PostgresStore::new\<close> creates the tables that are missing and keeps the others.\<close>

lemma runs_pg_new:
  assumes "pg_libs (env w)"
    and "\<And>rs. pg_backups (db w) = Some rs \<Longrightarrow> list_all (pg_canonical (env w)) rs \<and> distinct (map p_id rs)"
  shows "runs pg_new w
    (\<lambda>_ w'. pg_inv w' \<and> db_only w w' \<and> pg_rows w' = pg_rows w \<and> pg_events w' = pg_events w)
    (\<lambda>_ w'. db_only w w' \<and> faulted w w' \<and> pg_rows w' = pg_rows w \<and> pg_events w' = pg_events w)"
  (is "runs _ _ ?Q ?R")
proof -
  let ?d1 = "(db w)\<lparr>pg_backups := Some (unwrap_or (pg_backups (db w)) [])\<rparr>"
  let ?d2 = "?d1\<lparr>pg_rollback_events := Some (unwrap_or (pg_rollback_events (db w)) [])\<rparr>"
  have view: "pg_rows w' = pg_rows w \<and> pg_events w' = pg_events w"
    if "env w' = env w" "db w' = db w \<or> db w' = ?d1 \<or> db w' = ?d2" for w'
    using that by (auto simp: pg_rows_def pg_events_def)
  have inv: "pg_inv w'" if "env w' = env w" "db w' = ?d2" for w'
    using that assms by (cases "pg_backups (db w)") (simp_all add: pg_inv_def pg_tables_def)
  let ?at = "\<lambda>d w'. db w' = d"
  let ?ok = "\<lambda>_ :: unit. \<lambda>w'. db_only w w' \<and> db w' = ?d2"
  let ?err = "\<lambda>_ :: error. \<lambda>w'. db_only w w' \<and> faulted w w' \<and> (db w' = db w \<or> db w' = ?d1 \<or> db w' = ?d2)"
  have two: "runs (db_call (\<lambda>E k d. Inr ((), d\<lparr>pg_rollback_events :=
      Some (unwrap_or (pg_rollback_events d) [])\<rparr>))) w2 ?ok ?err" if "db_only w w2" "db w2 = ?d1" for w2
    by (rule runs_mono [OF runs_db_change [where ?w0.0 = w and N = "?at ?d2" and Ol = "?at ?d1" and C = "\<lambda>_. False"]])
       (use that in auto)
  let ?two = "\<lambda>w2. runs (db_call (\<lambda>E k d. Inr ((), d\<lparr>pg_rollback_events :=
      Some (unwrap_or (pg_rollback_events d) [])\<rparr>))) w2 ?ok ?err"
  have one: "runs (db_call (\<lambda>E k d. Inr ((), d\<lparr>pg_backups := Some (unwrap_or (pg_backups d) [])\<rparr>))) w1
      (\<lambda>_. ?two) ?err" if "db_only w w1" "db w1 = db w" for w1
  proof (rule runs_mono [OF runs_db_change [where ?w0.0 = w and N = "?at ?d1" and Ol = "?at (db w)" and C = "\<lambda>_. False"]])
    fix x w2
    assume "db_only w w2 \<and> db w2 = ?d1"
    then show "?two w2" using two by blast
  qed (use that in auto)
  have "runs pg_new w ?ok ?err"
    unfolding pg_new_def pg_run_migrations_def runs_seq runs_map_err
  proof (rule runs_mono [OF runs_db_change [where ?w0.0 = w and N = "?at (db w)" and Ol = "?at (db w)" and C = "\<lambda>_. False"]])
    fix x w1
    assume "db_only w w1 \<and> db w1 = db w"
    then show "runs (db_call (\<lambda>E k d. Inr ((), d\<lparr>pg_backups := Some (unwrap_or (pg_backups d) [])\<rparr>))) w1
      (\<lambda>_. ?two) ?err" using one by blast
  qed (auto simp: frame_defs)
  then show ?thesis
  proof (rule runs_mono)
    fix x w'
    assume "?ok x w'"
    then show "?Q x w'" using view [of w'] inv [of w'] by (simp add: frame_defs)
  next
    fix e w'
    assume "?err e w'"
    then show "?R e w'" using view [of w'] by (simp add: frame_defs)
  qed
qed

end
