(* ===== verification/File_Rules.thy ===== *)
theory File_Rules
  imports World
begin

text \<open>
  The rules for the file-system calls, faults included: what a call may change, seen from the
  world before it. \<open>keeps S\<close> says that every file outside \<open>S\<close> kept its content.
\<close>

definition keeps :: "path set \<Rightarrow> file_system \<Rightarrow> file_system \<Rightarrow> bool" where
  "keeps S f g \<longleftrightarrow> (\<forall>q content. q \<notin> S \<longrightarrow> f q = Some (File content) \<longrightarrow> g q = Some (File content))"

lemma keeps_refl [simp]: "keeps S f f"
  by (simp add: keeps_def)

lemma keeps_trans: "keeps S f g \<Longrightarrow> keeps T g h \<Longrightarrow> keeps (S \<union> T) f h"
  by (simp add: keeps_def)

lemma keeps_mono: "keeps S f g \<Longrightarrow> S \<subseteq> T \<Longrightarrow> keeps T f g"
  by (auto simp: keeps_def)

lemma keeps_upd [simp]: "p \<in> S \<Longrightarrow> keeps S f (f(p := n))"
  by (simp add: keeps_def)

lemma keepsD: "keeps S f g \<Longrightarrow> q \<notin> S \<Longrightarrow> f q = Some (File content) \<Longrightarrow> g q = Some (File content)"
  by (simp add: keeps_def)

lemma keeps_mk_dirs:
  "list_all (\<lambda>q. \<not> is_file (f q)) (prefixes p) \<Longrightarrow> keeps S f (mk_dirs p f)"
  unfolding keeps_def
proof (intro allI impI)
  fix q content
  assume "list_all (\<lambda>q. \<not> is_file (f q)) (prefixes p)" and q: "f q = Some (File content)"
  then have "\<not> prefix q p" by (auto simp: list_all_iff is_file_def dest: bspec [of _ _ q])
  then show "mk_dirs p f q = Some (File content)" using q by (simp add: mk_dirs_def)
qed

lemma runs_create_dir_all:
  "runs (create_dir_all p) w
     (\<lambda>_ w'. files_only w w' \<and> files w' = mk_dirs p (files w) \<and> keeps {} (files w) (files w'))
     (\<lambda>_ w'. files_only w w' \<and> keeps {} (files w) (files w') \<and>
        (files w' = files w \<or> (\<exists>n. files w' = mk_dirs (take n p) (files w))) \<and>
        (faulted w w' \<or> (\<exists>q. prefix q p \<and> is_file (files w q))))"
  unfolding create_dir_all_def
proof (rule runs_fs_call, goal_cases)
  case (1 x f)
  then show ?case by (auto simp: frame_defs keeps_mk_dirs split: if_splits)
next
  case (2 m)
  then show ?case
    by (auto simp: frame_defs faulted_def list_all_iff split: if_splits)
next
  case (3 m n keep)
  then show ?case
    by (auto simp: frame_defs keeps_mk_dirs intro: faulted_SomeI)
qed

lemma runs_fs_write:
  "runs (fs_write p content) w
     (\<lambda>_ w'. files_only w w' \<and> files w' = (files w)(p \<mapsto> File content))
     (\<lambda>_ w'. files_only w w' \<and>
        (files w' = files w \<or> (\<exists>n. files w' = (files w)(p \<mapsto> File (take n content)))) \<and>
        (faulted w w' \<or> \<not> can_write p (files w)))"
  unfolding fs_write_def
proof (rule runs_fs_call, goal_cases)
  case (1 x f)
  then show ?case by (auto simp: frame_defs split: if_splits)
next
  case (2 m)
  then show ?case by (auto simp: frame_defs faulted_def split: if_splits)
next
  case (3 m n keep)
  then show ?case by (auto simp: frame_defs intro: faulted_SomeI)
qed

lemma runs_fs_rename:
  "runs (fs_rename src dst) w
     (\<lambda>_ w'. files_only w w' \<and>
        (\<exists>content. files w src = Some (File content) \<and>
           files w' = (files w)(src := None, dst \<mapsto> File content)))
     (\<lambda>_ w'. read_only w w' \<and> (faulted w w' \<or> \<not> is_file (files w src) \<or> \<not> can_write dst (files w)))"
  unfolding fs_rename_def
proof (rule runs_fs_call, goal_cases)
  case (1 x f)
  then show ?case by (auto simp: frame_defs split: if_splits option.splits node.splits)
next
  case (2 m)
  then show ?case
    by (auto simp: frame_defs faulted_def is_file_def split: if_splits option.splits node.splits)
next
  case (3 m n keep)
  then show ?case by (auto simp: frame_defs intro: faulted_SomeI)
qed

lemma runs_fs_read:
  "runs (fs_read p) w
     (\<lambda>content w'. read_only w w' \<and> files w p = Some (File content) \<and> \<not> faulted w w')
     (\<lambda>_ w'. read_only w w' \<and> (faulted w w' \<or> \<not> is_file (files w p)))"
  unfolding fs_read_def
  by (rule runs_fs_call)
     (auto simp: frame_defs is_file_def faulted_def less_Suc_eq_le split: option.splits node.splits)

lemma runs_fs_len:
  "runs (fs_len p) w
     (\<lambda>n w'. read_only w w' \<and>
        (case files w p of Some (File content) \<Rightarrow> n = length content | Some Dir \<Rightarrow> n = 0 | None \<Rightarrow> False))
     (\<lambda>_ w'. read_only w w' \<and> (faulted w w' \<or> files w p = None))"
  unfolding fs_len_def
  by (rule runs_fs_call)
     (auto simp: frame_defs faulted_def less_Suc_eq_le split: option.splits node.splits)

text \<open>Removing a directory takes all of it, or after a fault any part of it, and nothing else.\<close>

lemma runs_remove_dir_all:
  "runs (remove_dir_all p) w
     (\<lambda>_ w'. files_only w w' \<and> files w' = (\<lambda>q. if prefix p q then None else files w q))
     (\<lambda>_ w'. files_only w w' \<and> (\<exists>K. files w' = (\<lambda>q. if prefix p q \<and> \<not> K q then None else files w q)) \<and>
        (faulted w w' \<or> files w p \<noteq> Some Dir))"
  unfolding remove_dir_all_def
proof (rule runs_fs_call, goal_cases)
  case (1 x f)
  then show ?case by (auto simp: frame_defs split: if_splits)
next
  case (2 m)
  then show ?case
    by (auto simp: frame_defs faulted_def split: if_splits intro!: exI [of _ "\<lambda>_. True"])
next
  case (3 m n keep)
  then show ?case
    by (cases "files w p = Some Dir")
       (auto simp: frame_defs intro: faulted_SomeI exI [of _ keep] exI [of _ "\<lambda>_. True"])
qed

lemma keeps_remove: "keeps {q. prefix p q} f (\<lambda>q. if prefix p q \<and> \<not> K q then None else f q)"
  by (simp add: keeps_def)

end
