(* ===== verification/Stats.thy ===== *)
theory Stats
  imports Store_Spec File_Rules "HOL-Library.AList"
begin

text \<open>
  \<open>crates/storage/src/repository.rs\<close>, \<open>extract_stats\<close> and the two parsers of deck names. A query
  reads the collection file at the moment it runs; what SQLite sees in the bytes is
  \<open>open_collection\<close>. A \<open>HashMap<i64, String>\<close> is an association list under \<open>AList.update\<close>. Opening
  a file that does not exist creates an empty database in SQLite, and the first query fails;
  here the opening fails, and \<open>run_once\<close> opens the file only after writing it.
\<close>

section \<open>Queries on the collection\<close>

type_synonym deck_map = "(i64 \<times> string) list"

definition col_query :: "path \<Rightarrow> (env \<Rightarrow> nat \<Rightarrow> collection \<Rightarrow> error + 'a) \<Rightarrow> ('db world, 'a) io" where
  "col_query p q =
     bind_io (get_io env) (\<lambda>E.
     bind_io (get_io step) (\<lambda>k.
     bind_io (fs_read p) (\<lambda>content.
     bind_io (of_option (DbError ''file is not a database'') (open_collection E content)) (\<lambda>c.
     of_result (q E k c)))))"

definition count_rows :: "nat option \<Rightarrow> error + i64" where
  "count_rows n = (case n of None \<Rightarrow> Inl (DbError ''no such table'') | Some m \<Rightarrow> Inr (of_nat m))"

section \<open>Deck names\<close>

fun insert_deck_rows :: "deck_map \<Rightarrow> (sql_value \<times> sql_value) list \<Rightarrow> error + deck_map" where
  "insert_deck_rows out [] = Inr out"
| "insert_deck_rows out ((SqlInteger i, SqlText name) # rs) = insert_deck_rows (AList.update i name out) rs"
| "insert_deck_rows out (r # rs) = Inl (DbError ''invalid column type'')"

definition parse_deck_names_new :: "env \<Rightarrow> nat \<Rightarrow> collection \<Rightarrow> error + deck_map" where
  "parse_deck_names_new E k c =
     (case col_decks_table c of
        None \<Rightarrow> Inl (DbError ''no such table: decks'')
      | Some rs \<Rightarrow> insert_deck_rows [] (scan_rows E k rs))"

text \<open>An object of \<open>serde_json::Value\<close> is a \<open>BTreeMap\<close>: keys in order, the last duplicate wins.\<close>

definition btree_entries :: "(string \<times> json) list \<Rightarrow> (string \<times> json) list" where
  "btree_entries fs = map (\<lambda>key. (key, the (map_of (rev fs) key))) (sort (remdups (map fst fs)))"

definition deck_json_name :: "json \<Rightarrow> string option" where
  "deck_json_name v =
     (case v of JObject fs \<Rightarrow> Option.bind (map_of (rev fs) ''name'') string_of_json | _ \<Rightarrow> None)"

primrec insert_deck_fields :: "deck_map \<Rightarrow> (string \<times> json) list \<Rightarrow> deck_map" where
  "insert_deck_fields out [] = out"
| "insert_deck_fields out (f # fs) =
     insert_deck_fields
       (case (parse_i64 (fst f), deck_json_name (snd f)) of
          (Some i, Some name) \<Rightarrow> AList.update i name out
        | _ \<Rightarrow> out) fs"

definition parse_deck_names_legacy :: "env \<Rightarrow> string \<Rightarrow> error + deck_map" where
  "parse_deck_names_legacy E raw =
     (case json_from_str E raw of
        None \<Rightarrow> Inl (Context ''parse col.decks json'' JsonError)
      | Some (JObject fs) \<Rightarrow> Inr (insert_deck_fields [] (btree_entries fs))
      | Some _ \<Rightarrow> Inl (Anyhow ''decks json must be object''))"

definition col_decks_legacy :: "env \<Rightarrow> nat \<Rightarrow> collection \<Rightarrow> error + deck_map" where
  "col_decks_legacy E k c =
     (case col_decks_json c of
        None \<Rightarrow> Inl (DbError ''no such table: col'')
      | Some rs \<Rightarrow>
          (case take 1 (scan_rows E k rs) of
             [] \<Rightarrow> Inl (DbError ''query returned no rows'')
           | SqlText raw # _ \<Rightarrow> parse_deck_names_legacy E raw
           | _ \<Rightarrow> Inl (DbError ''invalid column type'')))"

section \<open>Cards per deck\<close>

definition cards_by_deck :: "env \<Rightarrow> nat \<Rightarrow> collection \<Rightarrow> error + (sql_value \<times> i64) list" where
  "cards_by_deck E k c =
     (case col_cards c of
        None \<Rightarrow> Inl (DbError ''no such table: cards'')
      | Some vs \<Rightarrow>
          if col_cards_has_did c
          then Inr (scan_rows E k (map (\<lambda>v. (v, of_nat (count_list vs v))) (remdups vs)))
          else Inl (DbError ''no such column: did''))"

definition deck_stat :: "deck_map \<Rightarrow> sql_value \<times> i64 \<Rightarrow> error + DeckStats" where
  "deck_stat names row =
     (case row of
        (SqlInteger did, n) \<Rightarrow> Inr
          \<lparr>deck_id = did,
           deck_name = unwrap_or (map_of names did) (''Deck '' @ show_i64 did),
           card_count = n\<rparr>
      | _ \<Rightarrow> Inl (DbError ''invalid column type''))"

section \<open>\<open>extract_stats\<close>\<close>

definition extract_stats :: "path \<Rightarrow> ('db world, BackupStats) io" where
  "extract_stats p =
     seq_io (map_err (Context ''open collection db'') (fs_read p)) (
     bind_io (col_query p (\<lambda>E k c. count_rows (map_option length (col_cards c)))) (\<lambda>cards.
     bind_io (col_query p (\<lambda>E k c. count_rows (col_notes c))) (\<lambda>notes.
     bind_io (col_query p (\<lambda>E k c. count_rows (col_revlog c))) (\<lambda>revlog.
     bind_io (map_err (Context ''extract deck names'')
       (bind_io (try_io (col_query p parse_deck_names_new)) (\<lambda>r.
          case r of Inr names \<Rightarrow> return_io names | Inl _ \<Rightarrow> col_query p col_decks_legacy))) (\<lambda>names.
     bind_io (col_query p cards_by_deck) (\<lambda>groups.
     bind_io (of_result (collect_results (map (deck_stat names) groups))) (\<lambda>ds.
     return_io
       \<lparr>total_cards = cards,
        total_decks = of_nat (length names),
        total_notes = notes,
        total_revlog = revlog,
        deck_stats = sort_key deck_name ds\<rparr>)))))))"

section \<open>Specification\<close>

definition collection_at :: "'db world \<Rightarrow> path \<Rightarrow> collection option" where
  "collection_at w p = (case files w p of Some (File content) \<Rightarrow> open_collection (env w) content | _ \<Rightarrow> None)"

text \<open>The decks of a collection, from either of the two places.\<close>

definition deck_names_of :: "env \<Rightarrow> collection \<Rightarrow> deck_map \<Rightarrow> bool" where
  "deck_names_of E c names \<longleftrightarrow>
     (\<exists>k. parse_deck_names_new E k c = Inr names) \<or> (\<exists>k. col_decks_legacy E k c = Inr names)"

definition stats_of :: "env \<Rightarrow> collection \<Rightarrow> BackupStats \<Rightarrow> bool" where
  "stats_of E c s \<longleftrightarrow> (\<exists>dids notes revlog names.
     col_cards c = Some (map SqlInteger dids) \<and> col_notes c = Some notes \<and> col_revlog c = Some revlog \<and>
     deck_names_of E c names \<and>
     total_cards s = of_nat (length dids) \<and> total_notes s = of_nat notes \<and>
     total_revlog s = of_nat revlog \<and> total_decks s = of_nat (length names) \<and>
     sorted (map deck_name (deck_stats s)) \<and>
     mset (deck_stats s) = mset (map (\<lambda>d.
       \<lparr>deck_id = d, deck_name = unwrap_or (map_of names d) (''Deck '' @ show_i64 d),
        card_count = of_nat (count_list dids d)\<rparr>) (remdups dids)))"

text \<open>A collection on which every query of the extraction succeeds.\<close>

definition deck_row_ok :: "sql_value \<times> sql_value \<Rightarrow> bool" where
  "deck_row_ok r = (case r of (SqlInteger _, SqlText _) \<Rightarrow> True | _ \<Rightarrow> False)"

definition legacy_ok :: "env \<Rightarrow> sql_value \<Rightarrow> bool" where
  "legacy_ok E v = (case v of
     SqlText raw \<Rightarrow> (case json_from_str E raw of Some (JObject _) \<Rightarrow> True | _ \<Rightarrow> False) | _ \<Rightarrow> False)"

definition is_sql_integer :: "sql_value \<Rightarrow> bool" where
  "is_sql_integer v = (case v of SqlInteger _ \<Rightarrow> True | _ \<Rightarrow> False)"

definition collection_ok :: "env \<Rightarrow> collection \<Rightarrow> bool" where
  "collection_ok E c \<longleftrightarrow>
     (case col_cards c of None \<Rightarrow> False | Some vs \<Rightarrow> col_cards_has_did c \<and> list_all is_sql_integer vs) \<and>
     col_notes c \<noteq> None \<and> col_revlog c \<noteq> None \<and>
     ((case col_decks_table c of None \<Rightarrow> False | Some rs \<Rightarrow> list_all deck_row_ok rs) \<or>
      (case col_decks_json c of None \<Rightarrow> False | Some rs \<Rightarrow> rs \<noteq> [] \<and> list_all (legacy_ok E) rs))"

definition not_extracted :: "'db world \<Rightarrow> path \<Rightarrow> 'db world \<Rightarrow> bool" where
  "not_extracted w p w' \<longleftrightarrow> read_only w w' \<and>
     (faulted w w' \<or> (case collection_at w p of None \<Rightarrow> True | Some c \<Rightarrow> \<not> collection_ok (env w) c))"

section \<open>Lemmas\<close>

lemma collection_at_read_only: "read_only w w' \<Longrightarrow> collection_at w' p = collection_at w p"
  by (simp add: collection_at_def frame_defs cong: option.case_cong node.case_cong)

text \<open>A query seen from the world \<open>w0\<close> in which the extraction started.\<close>

lemma runs_col_query:
  assumes w: "read_only w0 w"
    and ok: "\<And>k c x w'. read_only w0 w' \<Longrightarrow> collection_at w0 p = Some c \<Longrightarrow>
      q (env w0) k c = Inr x \<Longrightarrow> Q x w'"
    and err: "\<And>k c e w'. read_only w0 w' \<Longrightarrow> later w w' \<Longrightarrow>
      faulted w0 w' \<or> collection_at w0 p = None \<or> collection_at w0 p = Some c \<and> q (env w0) k c = Inl e \<Longrightarrow>
      R e w'"
  shows "runs (col_query p q) w Q R"
  unfolding col_query_def runs_bind runs_get
proof (rule runs_mono [OF runs_fs_read])
  fix content w'
  assume w': "read_only w w' \<and> files w p = Some (File content) \<and> \<not> faulted w w'"
  then have ro: "read_only w0 w'" using w read_only_trans by blast
  have l: "later w w'" using w' read_only_later by blast
  have at: "collection_at w0 p = open_collection (env w) content"
    using w w' by (simp add: collection_at_def frame_defs)
  have E: "env w = env w0" using w by (simp add: frame_defs)
  show "runs (of_option (DbError ''file is not a database'') (open_collection (env w) content)) w'
      (\<lambda>x w'. runs (of_result (q (env w) (step w) x)) w' Q R) R"
  proof (cases "open_collection (env w) content")
    case None
    then show ?thesis using err [OF ro l] at by (simp add: runs_of_option)
  next
    case (Some c)
    then show ?thesis
      using ok [OF ro, of c "step w"] err [OF ro l, of c "step w"] at E
      by (cases "q (env w) (step w) c") (simp_all add: runs_of_option runs_of_result)
  qed
next
  fix e w'
  assume w': "read_only w w' \<and> (faulted w w' \<or> \<not> is_file (files w p))"
  then have "faulted w0 w' \<or> collection_at w0 p = None"
    using w faulted_extend_left [OF read_only_later [OF w], of w']
    by (auto simp: collection_at_def frame_defs is_file_def split: option.splits node.splits)
  then show "R e w'" using err w' read_only_trans [OF w] read_only_later by blast
qed

lemma runs_col_query_total:
  assumes "read_only w0 w"
    and "\<And>k c x w'. read_only w0 w' \<Longrightarrow> collection_at w0 p = Some c \<Longrightarrow> q (env w0) k c = Inr x \<Longrightarrow> Q x w'"
    and "\<And>k c e. collection_at w0 p = Some c \<Longrightarrow> q (env w0) k c = Inl e \<Longrightarrow> \<not> collection_ok (env w0) c"
  shows "runs (col_query p q) w Q (\<lambda>_. not_extracted w0 p)"
  by (rule runs_col_query [OF assms(1)]) (use assms(2,3) in \<open>auto simp: not_extracted_def\<close>)

lemma insert_deck_rows_total: "list_all deck_row_ok rs \<Longrightarrow> \<exists>m. insert_deck_rows out rs = Inr m"
  by (induction out rs rule: insert_deck_rows.induct) (auto simp: deck_row_ok_def split: sql_value.splits)

lemma parse_deck_names_new_total:
  assumes "row_order_ok E" "col_decks_table c = Some rs" "list_all deck_row_ok rs"
  shows "\<exists>m. parse_deck_names_new E k c = Inr m"
  using assms insert_deck_rows_total [of "scan_rows E k rs"] by (simp add: parse_deck_names_new_def list_all_iff)

lemma col_decks_legacy_total:
  assumes "row_order_ok E" "col_decks_json c = Some rs" "rs \<noteq> []" "list_all (legacy_ok E) rs"
  shows "\<exists>m. col_decks_legacy E k c = Inr m"
proof (cases "scan_rows E k rs")
  case Nil
  then have "set rs = {}" using set_scan_rows [OF assms(1), of k rs] by simp
  then show ?thesis using assms(3) by simp
next
  case (Cons v vs)
  then have "legacy_ok E v"
    using set_scan_rows [OF assms(1), of k rs] assms(4) by (simp add: list_all_iff) (metis insertI1)
  then show ?thesis
    using assms(2) Cons
    by (auto simp: col_decks_legacy_def parse_deck_names_legacy_def legacy_ok_def
        split: sql_value.splits option.splits json.splits)
qed

lemma collection_ok_decks:
  assumes "row_order_ok E" "collection_ok E c"
    and "parse_deck_names_new E k c = Inl e" "col_decks_legacy E k' c = Inl e'"
  shows False
  using assms parse_deck_names_new_total [OF assms(1), of c _ k] col_decks_legacy_total [OF assms(1), of c _ k']
  by (auto simp: collection_ok_def split: option.splits)

lemma cards_by_deck_rows:
  assumes "row_order_ok E" "cards_by_deck E k c = Inr groups" "collect_results (map (deck_stat names) groups) = Inr ds"
  obtains dids where "col_cards c = Some (map SqlInteger dids)"
    and "mset ds = mset (map (\<lambda>d.
       \<lparr>deck_id = d, deck_name = unwrap_or (map_of names d) (''Deck '' @ show_i64 d),
        card_count = of_nat (count_list dids d)\<rparr>) (remdups dids))"
proof -
  obtain vs where vs: "col_cards c = Some vs"
    and groups: "groups = scan_rows E k (map (\<lambda>v. (v, of_nat (count_list vs v))) (remdups vs))"
    using assms(2) by (auto simp: cards_by_deck_def split: option.splits if_splits)
  have all: "map (deck_stat names) groups = map Inr ds"
    using assms(3) by (simp add: collect_results_Inr_iff)
  have "\<exists>d. v = SqlInteger d" if "v \<in> set vs" for v
  proof -
    have "(v, of_nat (count_list vs v)) \<in> set groups" using that assms(1) groups by simp
    then have "deck_stat names (v, of_nat (count_list vs v)) \<in> set (map Inr ds)"
      unfolding all [symmetric] by (metis image_eqI list.set_map)
    then show ?thesis by (cases v) (auto simp: deck_stat_def)
  qed
  then obtain f where f: "\<And>v. v \<in> set vs \<Longrightarrow> v = SqlInteger (f v)" by metis
  define dids where "dids = map f vs"
  have vs': "vs = map SqlInteger dids" unfolding dids_def using f by (simp add: map_idI)
  have "mset (map Inr ds :: (error + DeckStats) list) = image_mset (deck_stat names) (mset groups)"
    using all by (metis mset_map)
  also have "mset groups = mset (map (\<lambda>d. (SqlInteger d, of_nat (count_list dids d))) (remdups dids))"
    using assms(1) groups unfolding vs'
    by (simp add: remdups_map_inj inj_def comp_def count_list_map_conv)
  finally have "image_mset (Inr :: _ \<Rightarrow> error + DeckStats) (mset ds) = image_mset Inr (mset (map (\<lambda>d.
      \<lparr>deck_id = d, deck_name = unwrap_or (map_of names d) (''Deck '' @ show_i64 d),
       card_count = of_nat (count_list dids d)\<rparr>) (remdups dids)))"
    by (simp add: deck_stat_def image_mset.compositionality comp_def)
  then have "mset ds = mset (map (\<lambda>d.
      \<lparr>deck_id = d, deck_name = unwrap_or (map_of names d) (''Deck '' @ show_i64 d),
       card_count = of_nat (count_list dids d)\<rparr>) (remdups dids))"
    by (simp only: image_mset_Inr_eq)
  then show thesis using that vs vs' by blast
qed

lemma is_sql_integer_iff: "is_sql_integer v \<longleftrightarrow> (\<exists>d. v = SqlInteger d)"
  by (cases v) (simp_all add: is_sql_integer_def)

lemma deck_stat_total:
  assumes "row_order_ok E" "collection_ok E c" "cards_by_deck E k c = Inr groups"
  shows "\<exists>ds. collect_results (map (deck_stat names) groups) = Inr ds"
proof -
  obtain vs where vs: "col_cards c = Some vs" "list_all is_sql_integer vs"
    using assms(2) by (auto simp: collection_ok_def split: option.splits)
  then have "\<forall>g \<in> set groups. \<exists>d n. g = (SqlInteger d, n)"
    using assms(1,3) by (auto simp: cards_by_deck_def list_all_iff is_sql_integer_iff split: if_splits)
  then have "map (deck_stat names) groups = map Inr (map (\<lambda>g. projr (deck_stat names g)) groups)"
    by (auto simp: deck_stat_def)
  then show ?thesis by (metis collect_results_Inr_iff)
qed

lemma runs_deck_names:
  assumes w: "read_only w0 w" and ok: "row_order_ok (env w0)"
    and Q: "\<And>c names w'. read_only w0 w' \<Longrightarrow> collection_at w0 p = Some c \<Longrightarrow>
      deck_names_of (env w0) c names \<Longrightarrow> Q names w'"
  shows "runs (bind_io (try_io (col_query p parse_deck_names_new)) (\<lambda>r.
      case r of Inr names \<Rightarrow> return_io names | Inl _ \<Rightarrow> col_query p col_decks_legacy)) w
    Q (\<lambda>_. not_extracted w0 p)"
  unfolding runs_bind runs_try
proof (rule runs_col_query [OF w])
  fix k c x w'
  assume "read_only w0 w'" "collection_at w0 p = Some c" "parse_deck_names_new (env w0) k c = Inr x"
  then show "runs (case Inr x of Inr names \<Rightarrow> return_io names | Inl _ \<Rightarrow> col_query p col_decks_legacy) w'
      Q (\<lambda>_. not_extracted w0 p)"
    using Q [of w' c x] by (auto simp: runs_return deck_names_of_def)
next
  fix k c e w1
  assume w1: "read_only w0 w1"
    and why: "faulted w0 w1 \<or> collection_at w0 p = None \<or>
      collection_at w0 p = Some c \<and> parse_deck_names_new (env w0) k c = Inl e"
  show "runs (case Inl e of Inr names \<Rightarrow> return_io names | Inl _ \<Rightarrow> col_query p col_decks_legacy) w1
      Q (\<lambda>_. not_extracted w0 p)"
    unfolding sum.case
  proof (rule runs_col_query [OF w1])
    fix k c names w'
    assume "read_only w0 w'" "collection_at w0 p = Some c" "col_decks_legacy (env w0) k c = Inr names"
    then show "Q names w'" using Q [of w' c names] by (auto simp: deck_names_of_def)
  next
    fix k' c' e' w'
    assume w': "read_only w0 w'" "later w1 w'"
      and "faulted w0 w' \<or> collection_at w0 p = None \<or>
        collection_at w0 p = Some c' \<and> col_decks_legacy (env w0) k' c' = Inl e'"
    moreover have "faulted w0 w'" if "faulted w0 w1" by (rule faulted_extend_right [OF w'(2) that])
    ultimately show "not_extracted w0 p w'"
      using why collection_ok_decks [OF ok, of c k e k' e'] unfolding not_extracted_def by auto
  qed
qed

lemma runs_final_stats:
  assumes "row_order_ok (env w0)" "read_only w0 w" "collection_at w0 p = Some c"
    "cards_by_deck (env w0) k c = Inr groups" "deck_names_of (env w0) c names"
    "count_rows (map_option length (col_cards c)) = Inr cards"
    "count_rows (col_notes c) = Inr notes" "count_rows (col_revlog c) = Inr revlog"
  shows "runs (of_result (collect_results (map (deck_stat names) groups))) w
    (\<lambda>ds w'. runs (return_io \<lparr>total_cards = cards, total_decks = of_nat (length names),
        total_notes = notes, total_revlog = revlog, deck_stats = sort_key deck_name ds\<rparr>) w'
      (\<lambda>s w'. read_only w0 w' \<and> (\<exists>c. collection_at w0 p = Some c \<and> stats_of (env w0) c s))
      (\<lambda>_. not_extracted w0 p))
    (\<lambda>_. not_extracted w0 p)"
proof (cases "collect_results (map (deck_stat names) groups)")
  case (Inl e)
  then have "\<not> collection_ok (env w0) c"
    using deck_stat_total [OF assms(1) _ assms(4), of names] by auto
  then show ?thesis using Inl assms(2,3) by (simp add: runs_of_result not_extracted_def)
next
  case (Inr ds)
  from cards_by_deck_rows [OF assms(1,4) Inr] show ?thesis
    by (rule) (use assms Inr in \<open>auto simp: runs_of_result runs_return stats_of_def count_rows_def
      split: option.splits\<close>)
qed

lemma runs_extract_stats:
  assumes ok: "row_order_ok (env w)"
  shows "runs (extract_stats p) w
    (\<lambda>s w'. read_only w w' \<and> (\<exists>c. collection_at w p = Some c \<and> stats_of (env w) c s))
    (\<lambda>_. not_extracted w p)"
  unfolding extract_stats_def runs_seq runs_bind runs_map_err
proof (rule runs_mono [OF runs_fs_read], goal_cases)
  case (1 content w1)
  then have w1: "read_only w w1" by simp
  show ?case
    apply (rule runs_col_query_total [OF w1])
     apply (rule runs_col_query_total, assumption)
      apply (rule runs_col_query_total, assumption)
       apply (rule runs_deck_names [OF _ ok, unfolded runs_bind], assumption)
       apply (rule runs_col_query_total, assumption)
        apply (rule runs_final_stats [OF ok], assumption, assumption, assumption)
            apply simp_all
       apply (auto simp: count_rows_def collection_ok_def cards_by_deck_def split: option.splits if_splits)
    done
next
  case (2 e w')
  then show ?case by (auto simp: not_extracted_def collection_at_def is_file_def split: option.splits node.splits)
qed

subsection \<open>What the numbers mean\<close>

lemma stats_of_facts:
  assumes "stats_of E c s"
  shows "(\<Sum>d\<leftarrow>deck_stats s. card_count d) = total_cards s"
    and "sorted (map deck_name (deck_stats s))"
    and "distinct (map deck_id (deck_stats s))"
    and "d \<in> set (deck_stats s) \<Longrightarrow>
      card_count d = of_nat (count_list (unwrap_or (col_cards c) []) (SqlInteger (deck_id d)))"
    and "SqlInteger i \<in> set (unwrap_or (col_cards c) []) \<longleftrightarrow> i \<in> deck_id ` set (deck_stats s)"
proof -
  obtain dids names where c: "col_cards c = Some (map SqlInteger dids)"
    and tot: "total_cards s = of_nat (length dids)" and srt: "sorted (map deck_name (deck_stats s))"
    and ds: "mset (deck_stats s) = mset (map (\<lambda>d.
       \<lparr>deck_id = d, deck_name = unwrap_or (map_of names d) (''Deck '' @ show_i64 d),
        card_count = of_nat (count_list dids d)\<rparr>) (remdups dids))"
    using assms unfolding stats_of_def by blast
  show "sorted (map deck_name (deck_stats s))" by (fact srt)
  have "(\<Sum>d\<leftarrow>deck_stats s. card_count d) = sum_mset (image_mset card_count (mset (deck_stats s)))"
    by (simp flip: sum_mset_sum_list)
  also have "\<dots> = (\<Sum>d\<leftarrow>remdups dids. of_nat (count_list dids d))"
    unfolding ds by (simp flip: sum_mset_sum_list add: image_mset.compositionality comp_def)
  finally show "(\<Sum>d\<leftarrow>deck_stats s. card_count d) = total_cards s"
    by (simp add: sum_list_count_remdups tot)
  have ids: "mset (map deck_id (deck_stats s)) = mset (remdups dids)"
    using arg_cong [OF ds, of "image_mset deck_id"] by (simp add: image_mset.compositionality comp_def)
  then show "distinct (map deck_id (deck_stats s))" by (metis distinct_remdups mset_eq_imp_distinct_iff)
  show "SqlInteger i \<in> set (unwrap_or (col_cards c) []) \<longleftrightarrow> i \<in> deck_id ` set (deck_stats s)"
    using mset_eq_setD [OF ids] c by auto
  show "card_count d = of_nat (count_list (unwrap_or (col_cards c) []) (SqlInteger (deck_id d)))"
    if "d \<in> set (deck_stats s)"
    using that mset_eq_setD [OF ds] c by (auto simp: count_list_map_conv inj_def)
qed

lemma insert_deck_rows_map:
  "insert_deck_rows out (map (\<lambda>(i, n). (SqlInteger i, SqlText n)) ps) =
     Inr (fold (\<lambda>(i, n). AList.update i n) ps out)"
  by (induction ps arbitrary: out) auto

lemma insert_deck_rows_Inr:
  "insert_deck_rows out rs = Inr m \<Longrightarrow>
   \<exists>ps. rs = map (\<lambda>(i, n). (SqlInteger i, SqlText n)) ps \<and> m = fold (\<lambda>(i, n). AList.update i n) ps out"
proof (induction out rs rule: insert_deck_rows.induct)
  case (2 out i name rs)
  then obtain ps where "rs = map (\<lambda>(i, n). (SqlInteger i, SqlText n)) ps"
    "m = fold (\<lambda>(i, n). AList.update i n) ps (AList.update i name out)" by auto
  then show ?case by (intro exI [of _ "(i, name) # ps"]) simp
qed auto

lemma map_of_fold_update:
  "map_of (fold (\<lambda>(i, n). AList.update i n) ps out) = map_of out ++ map_of (rev ps)"
  by (induction ps arbitrary: out) (auto simp: update_conv' map_add_def fun_eq_iff split: option.splits)

lemma distinct_fold_update:
  "distinct (map fst out) \<Longrightarrow> distinct (map fst (fold (\<lambda>(i, n). AList.update i n) ps out))"
  by (induction ps arbitrary: out) (auto simp: distinct_update)

lemma set_fold_update:
  fixes ps :: "('a \<times> 'b) list"
  assumes "distinct (map fst ps)"
  shows "set (fold (\<lambda>(i, n). AList.update i n) ps []) = set ps"
proof (rule set_eqI)
  fix x :: "'a \<times> 'b"
  let ?m = "fold (\<lambda>(i, n). AList.update i n) ps []"
  obtain i n where x: "x = (i, n)" by (cases x)
  have "x \<in> set ?m \<longleftrightarrow> map_of ?m i = Some n"
    using distinct_fold_update [of "[]" ps] x by simp
  also have "\<dots> \<longleftrightarrow> (i, n) \<in> set (rev ps)"
    using assms by (simp add: map_of_fold_update distinct_rev flip: rev_map)
  finally show "x \<in> set ?m \<longleftrightarrow> x \<in> set ps" using x by simp
qed

lemma parse_deck_names_new_set:
  assumes "row_order_ok E" "col_decks_table c = Some rs" "distinct (map fst rs)"
    and "parse_deck_names_new E k c = Inr names"
  shows "(i, n) \<in> set names \<longleftrightarrow> (SqlInteger i, SqlText n) \<in> set rs"
    and "distinct (map fst names)"
    and "length names = length rs"
proof -
  obtain ps where ps: "scan_rows E k rs = map (\<lambda>(i, n). (SqlInteger i, SqlText n)) ps"
    and names: "names = fold (\<lambda>(i, n). AList.update i n) ps []"
    using assms(2,4) insert_deck_rows_Inr [of "[]" "scan_rows E k rs" names]
    by (auto simp: parse_deck_names_new_def)
  have ms: "mset (map (\<lambda>(i, n). (SqlInteger i, SqlText n)) ps) = mset rs"
    using ps mset_scan_rows [OF assms(1)] by metis
  then have "distinct (map fst (map (\<lambda>(i, n). (SqlInteger i, SqlText n)) ps))"
    using assms(3) by (metis mset_eq_imp_distinct_iff mset_map)
  then have d: "distinct (map fst ps)" by (auto simp: distinct_map inj_on_def split_def)
  show "(i, n) \<in> set names \<longleftrightarrow> (SqlInteger i, SqlText n) \<in> set rs"
    unfolding names set_fold_update [OF d] mset_eq_setD [OF ms, symmetric] by force
  show dn: "distinct (map fst names)" unfolding names by (rule distinct_fold_update) simp
  have "length names = card (set names)" using dn by (metis distinct_card distinct_map)
  also have "\<dots> = length ps" using d by (metis distinct_card distinct_map names set_fold_update)
  finally show "length names = length rs" using mset_eq_length [OF ms] by simp
qed

text \<open>The legacy document, whose keys are the decimal ids.\<close>

lemma show_i64_inj: "show_i64 i = show_i64 j \<longleftrightarrow> i = j"
  by (metis option.inject parse_i64_show_i64)

lemma map_of_key_list: "map_of (map (\<lambda>k. (k, g k)) ks) k = (if k \<in> set ks then Some (g k) else None)"
  by (induction ks) auto

lemma map_of_btree_entries: "map_of (btree_entries fs) = map_of (rev fs)"
proof
  fix k
  have "map_of (rev fs) k = None \<longleftrightarrow> k \<notin> fst ` set fs" by (simp add: map_of_eq_None_iff)
  then show "map_of (btree_entries fs) k = map_of (rev fs) k"
    by (cases "map_of (rev fs) k") (auto simp: btree_entries_def map_of_key_list)
qed

lemma btree_entries_keys: "map fst (btree_entries fs) = sort (remdups (map fst fs))"
  by (simp add: btree_entries_def comp_def)

lemma map_of_insert_deck_fields:
  assumes "distinct (map fst fs)" "\<forall>f \<in> set fs. \<exists>j. fst f = show_i64 j"
  shows "map_of (insert_deck_fields out fs) i =
    (case Option.bind (map_of fs (show_i64 i)) deck_json_name of Some n \<Rightarrow> Some n | None \<Rightarrow> map_of out i)"
  using assms
proof (induction fs arbitrary: out)
  case (Cons f fs)
  obtain j v where f: "f = (show_i64 j, v)" using Cons.prems(2) by (metis list.set_intros(1) prod.collapse)
  define out' where "out' = (case deck_json_name v of Some n \<Rightarrow> AList.update j n out | None \<Rightarrow> out)"
  have step: "insert_deck_fields out (f # fs) = insert_deck_fields out' fs"
    by (simp add: f parse_i64_show_i64 out'_def split: option.splits)
  have IH: "map_of (insert_deck_fields out' fs) i =
      (case Option.bind (map_of fs (show_i64 i)) deck_json_name of Some n \<Rightarrow> Some n | None \<Rightarrow> map_of out' i)"
    using Cons by simp
  show ?case
  proof (cases "j = i")
    case True
    then have "map_of fs (show_i64 i) = None" using Cons.prems(1) f by (simp add: map_of_eq_None_iff)
    then show ?thesis
      using True IH unfolding step by (simp add: f out'_def update_conv' split: option.splits)
  next
    case False
    then have "map_of out' i = map_of out i" by (simp add: out'_def update_conv' split: option.splits)
    then show ?thesis using False IH unfolding step by (simp add: f show_i64_inj cong: option.case_cong)
  qed
qed simp

lemma parse_deck_names_legacy_map:
  assumes "json_from_str E raw = Some (JObject fs)" "\<forall>f \<in> set fs. \<exists>j. fst f = show_i64 j"
    and "parse_deck_names_legacy E raw = Inr names"
  shows "map_of names i = Option.bind (map_of (rev fs) (show_i64 i)) deck_json_name"
proof -
  have names: "names = insert_deck_fields [] (btree_entries fs)"
    using assms(1,3) by (simp add: parse_deck_names_legacy_def)
  have "set (map fst (btree_entries fs)) = set (map fst fs)" by (simp add: btree_entries_keys)
  then have keys: "\<forall>f \<in> set (btree_entries fs). \<exists>j. fst f = show_i64 j"
    using assms(2) by (metis (no_types, opaque_lifting) image_iff list.set_map)
  have "distinct (map fst (btree_entries fs))" by (simp add: btree_entries_keys)
  then show ?thesis
    using map_of_insert_deck_fields [OF _ keys, of "[]" i] unfolding names map_of_btree_entries
    by (simp split: option.splits)
qed

end
