(* ===== verification/Repository.thy ===== *)
theory Repository
  imports Sqlite_Store Postgres_Store Stats
begin

text \<open>
  \<open>crates/storage/src/repository.rs\<close>: \<open>BackupRepository\<close>, which keeps the payloads of the backups
  as files and their metadata in a \<open>MetadataStore\<close>. The layout below the root directory is

  \<^item> \<open>backups/<timestamp>/collection.anki2\<close> and \<open>backups/<timestamp>/metadata.json\<close>,
  \<^item> \<open>state/current-pointer.json\<close>, written through \<open>state/current-pointer.json.tmp\<close>.

  This theory holds the operations, the invariant of the repository and the lemmas on its files;
  what the operations do on a store that satisfies \<open>metadata_store_laws\<close> is proved in
  \<open>Repository_Laws\<close>.
\<close>

section \<open>Types\<close>

record BackupPayload =
  payload_bytes :: bytes
  payload_source_revision :: "string option"
  payload_sync_duration_ms :: "i64 option"

datatype RunOnceOutcome = OutcomeCreated BackupEntry | OutcomeSkipped BackupEntry

record 'db BackupRepository =
  root :: path
  store :: "'db MetadataStore"

datatype backend = SqliteBackend | PostgresBackend

section \<open>Construction\<close>

definition create_layout :: "path \<Rightarrow> ('db world, unit) io" where
  "create_layout rt = seq_io
     (map_err (Context ''create backups directory'') (create_dir_all (path_join rt ''backups'')))
     (map_err (Context ''create state directory'') (create_dir_all (path_join rt ''state'')))"

definition repository_new :: "path \<Rightarrow> (sqlite_db world, sqlite_db BackupRepository) io" where
  "repository_new rt =
     seq_io (create_layout rt)
     (seq_io init_db (return_io \<lparr>root = rt, store = sqlite_store\<rparr>))"

definition with_postgres :: "path \<Rightarrow> (pg_db world, pg_db BackupRepository) io" where
  "with_postgres rt =
     seq_io (create_layout rt)
     (seq_io pg_new (return_io \<lparr>root = rt, store = postgres_store\<rparr>))"

definition init_backend :: "string option \<Rightarrow> backend" where
  "init_backend database_url =
     (case database_url of
        Some url \<Rightarrow> if starts_with ''postgres://'' url \<or> starts_with ''postgresql://'' url
                    then PostgresBackend else SqliteBackend
      | None \<Rightarrow> SqliteBackend)"

section \<open>Paths\<close>

definition format_timestamp_dir :: "env \<Rightarrow> datetime \<Rightarrow> string" where
  "format_timestamp_dir E now = replace_char (CHR '':'') (CHR ''-'') (to_rfc3339_secs E now)"

definition backup_dir_path :: "path \<Rightarrow> string \<Rightarrow> path" where
  "backup_dir_path rt d = path_join (path_join rt ''backups'') d"

definition backup_file_path :: "'db BackupRepository \<Rightarrow> BackupEntry \<Rightarrow> path" where
  "backup_file_path r e = path_join (backup_dir_path (root r) (timestamp_dir e)) ''collection.anki2''"

definition state_path :: "path \<Rightarrow> string \<Rightarrow> path" where
  "state_path rt name = path_join (path_join rt ''state'') name"

section \<open>Operations\<close>

definition pointer_json :: "env \<Rightarrow> BackupEntry \<Rightarrow> datetime \<Rightarrow> json" where
  "pointer_json E e now =
     JObject [(''backup_id'', JString (uuid_to_string E (backup_id e))),
              (''timestamp_dir'', JString (timestamp_dir e)),
              (''updated_at'', JString (serde_datetime E now))]"

definition write_current_pointer :: "'db BackupRepository \<Rightarrow> BackupEntry \<Rightarrow> ('db world, unit) io" where
  "write_current_pointer r e =
     bind_io utc_now (\<lambda>now.
     bind_io (get_io env) (\<lambda>E.
     bind_io (of_option JsonError (json_to_string_pretty E (pointer_json E e now))) (\<lambda>raw.
     seq_io (map_err (Context ''write current pointer tmp'')
       (fs_write (state_path (root r) ''current-pointer.json.tmp'') (as_bytes raw)))
     (map_err (Context ''atomic rename current pointer'')
       (fs_rename (state_path (root r) ''current-pointer.json.tmp'')
                  (state_path (root r) ''current-pointer.json''))))))"

definition write_metadata :: "'db BackupRepository \<Rightarrow> BackupEntry \<Rightarrow> ('db world, unit) io" where
  "write_metadata r e =
     bind_io (get_io env) (\<lambda>E.
     bind_io (of_option (Context ''serialize backup metadata'' JsonError)
       (json_to_string_pretty E (json_of_entry (uuid_to_string E) (serde_datetime E) e))) (\<lambda>raw.
     map_err (Context ''write backup metadata'')
       (fs_write (path_join (backup_dir_path (root r) (timestamp_dir e)) ''metadata.json'')
         (as_bytes raw))))"

definition create_and_insert_entry ::
  "'db BackupRepository \<Rightarrow> NewBackupEntry \<Rightarrow> ('db world, BackupEntry) io"
where
  "create_and_insert_entry r n =
     bind_io uuid_new_v4 (\<lambda>u.
     let e = entry_of_new u n in
     seq_io (insert_entry (store r) e)
     (seq_io (if status e = Created then write_metadata r e else return_io ())
     (return_io e)))"

definition store_payload ::
  "'db BackupRepository \<Rightarrow> string \<Rightarrow> bytes \<Rightarrow> ('db world, BackupStats \<times> i64) io"
where
  "store_payload r dir content =
     (let backup_dir = backup_dir_path (root r) dir;
          payload_path = path_join backup_dir ''collection.anki2''
      in
      seq_io (map_err (Context ''create backup dir'') (create_dir_all backup_dir))
      (seq_io (map_err (Context ''write payload file'') (fs_write payload_path content))
      (bind_io (map_err (Context ''extract backup stats'') (extract_stats payload_path)) (\<lambda>st.
      bind_io (map_err (Context ''stat payload file'') (fs_len payload_path)) (\<lambda>len.
      return_io (st, of_nat len))))))"

definition run_once ::
  "'db BackupRepository \<Rightarrow> BackupPayload \<Rightarrow> string \<Rightarrow> ('db world, RunOnceOutcome) io"
where
  "run_once r payload hash =
     bind_io utc_now (\<lambda>now.
     bind_io (last_created_hash (store r)) (\<lambda>last_hash.
     if last_hash = Some hash then
       bind_io (create_and_insert_entry r (skipped_unchanged now hash)) (\<lambda>skipped.
       return_io (OutcomeSkipped skipped))
     else
       bind_io (get_io env) (\<lambda>E.
       let dir = format_timestamp_dir E now in
       bind_io (store_payload r dir (payload_bytes payload)) (\<lambda>(st, sz).
       bind_io (create_and_insert_entry r
         (new_created now dir hash (payload_source_revision payload)
           (payload_sync_duration_ms payload) sz st)) (\<lambda>created.
       seq_io (write_current_pointer r created)
       (return_io (OutcomeCreated created)))))))"

definition repo_list_backups :: "'db BackupRepository \<Rightarrow> ('db world, BackupEntry list) io" where
  "repo_list_backups r = list_backups (store r)"

definition repo_get_backup :: "'db BackupRepository \<Rightarrow> uuid \<Rightarrow> ('db world, BackupEntry option) io" where
  "repo_get_backup r u = get_backup (store r) u"

definition rollback_to :: "'db BackupRepository \<Rightarrow> uuid \<Rightarrow> ('db world, BackupEntry) io" where
  "rollback_to r u =
     bind_io (repo_get_backup r u) (\<lambda>found.
     bind_io (of_option (Anyhow ''backup not found'') found) (\<lambda>e.
     if status e \<noteq> Created then fail_io (Anyhow ''cannot rollback to skipped backup'')
     else
       seq_io (write_current_pointer r e)
       (seq_io (insert_rollback_event (store r) (backup_id e))
       (return_io e))))"

definition prune_dir :: "'db BackupRepository \<Rightarrow> string \<Rightarrow> ('db world, unit) io" where
  "prune_dir r d =
     bind_io (fs_exists (backup_dir_path (root r) d)) (\<lambda>there.
     if there then map_err (Context ''remove old backup dir'') (remove_dir_all (backup_dir_path (root r) d))
     else return_io ())"

definition prune_created_older_than_days :: "'db BackupRepository \<Rightarrow> i64 \<Rightarrow> ('db world, nat) io" where
  "prune_created_older_than_days r days =
     (if sint days \<le> 0 then return_io 0
      else
        bind_io utc_now (\<lambda>now.
        bind_io (get_io env) (\<lambda>E.
        bind_io (of_option (Panic ''date out of range'') (minus_days E now days)) (\<lambda>cutoff.
        bind_io (prune_created_before (store r) cutoff) (\<lambda>gone.
        seq_io (for_each (\<lambda>(_, d). prune_dir r d) gone)
        (return_io (length gone)))))))"

section \<open>The invariant\<close>

abbreviation payload_at :: "path \<Rightarrow> string \<Rightarrow> path" where
  "payload_at rt d \<equiv> rt @ [''backups'', d, ''collection.anki2'']"

abbreviation metadata_at :: "path \<Rightarrow> string \<Rightarrow> path" where
  "metadata_at rt d \<equiv> rt @ [''backups'', d, ''metadata.json'']"

abbreviation pointer_at :: "path \<Rightarrow> path" where
  "pointer_at rt \<equiv> rt @ [''state'', ''current-pointer.json'']"

abbreviation pointer_tmp_at :: "path \<Rightarrow> path" where
  "pointer_tmp_at rt \<equiv> rt @ [''state'', ''current-pointer.json.tmp'']"

text \<open>The directories are there, and nothing in them is in the way of the files to be written.\<close>

definition layout :: "path \<Rightarrow> file_system \<Rightarrow> bool" where
  "layout rt f \<longleftrightarrow>
     (\<forall>q. prefix q (rt @ [''backups'']) \<or> prefix q (rt @ [''state'']) \<longrightarrow> f q = Some Dir) \<and>
     (\<forall>d. \<not> is_file (f (rt @ [''backups'', d])) \<and> f (payload_at rt d) \<noteq> Some Dir \<and>
        f (metadata_at rt d) \<noteq> Some Dir) \<and>
     f (pointer_at rt) \<noteq> Some Dir \<and> f (pointer_tmp_at rt) \<noteq> Some Dir"

definition unobstructed :: "path \<Rightarrow> file_system \<Rightarrow> bool" where
  "unobstructed rt f \<longleftrightarrow>
     (\<forall>d. \<not> is_file (f (rt @ [''backups'', d])) \<and> f (payload_at rt d) \<noteq> Some Dir \<and>
        f (metadata_at rt d) \<noteq> Some Dir) \<and>
     f (pointer_at rt) \<noteq> Some Dir \<and> f (pointer_tmp_at rt) \<noteq> Some Dir"

text \<open>The payload that an entry promises: its hash, its size and its statistics.\<close>

definition payload_ok :: "path \<Rightarrow> env \<Rightarrow> file_system \<Rightarrow> BackupEntry \<Rightarrow> bool" where
  "payload_ok rt E f e \<longleftrightarrow> (\<exists>content c s.
     f (payload_at rt (timestamp_dir e)) = Some (File content) \<and>
     entry_hash e = content_hash (sha256 E) (hex_encode E) content \<and>
     size_bytes e = of_nat (length content) \<and>
     open_collection E content = Some c \<and> stats e = Some s \<and> stats_of E c s)"

definition entry_ok :: "path \<Rightarrow> env \<Rightarrow> file_system \<Rightarrow> BackupEntry \<Rightarrow> bool" where
  "entry_ok rt E f e \<longleftrightarrow> entry_shape e \<and> (is_created e \<longrightarrow> payload_ok rt E f e)"

definition created_dirs :: "BackupEntry list \<Rightarrow> string list" where
  "created_dirs es = map timestamp_dir (filter is_created es)"

definition repo_ok :: "path \<Rightarrow> env \<Rightarrow> file_system \<Rightarrow> BackupEntry list \<Rightarrow> bool" where
  "repo_ok rt E f es \<longleftrightarrow> layout rt f \<and> list_all (entry_ok rt E f) es \<and> distinct (created_dirs es)"

text \<open>The pointer file holds the complete document for an entry.\<close>

definition points_to :: "env \<Rightarrow> BackupEntry \<Rightarrow> node option \<Rightarrow> bool" where
  "points_to E e n \<longleftrightarrow> (\<exists>now raw.
     json_to_string_pretty E (pointer_json E e now) = Some raw \<and> n = Some (File (as_bytes raw)))"

definition json_pretty_total :: "env \<Rightarrow> bool" where
  "json_pretty_total E \<longleftrightarrow> (\<forall>j. json_to_string_pretty E j \<noteq> None)"

text \<open>A payload whose statistics can be extracted.\<close>

definition readable :: "env \<Rightarrow> bytes \<Rightarrow> bool" where
  "readable E content \<longleftrightarrow>
     (case open_collection E content of None \<Rightarrow> False | Some c \<Rightarrow> collection_ok E c)"

text \<open>
  The outcome of a run at \<open>now\<close>, stored as \<open>t\<close>, from the entries \<open>es\<close> and the files \<open>f\<close>: unchanged
  content is recorded as skipped, everything else as a backup that the pointer selects.
\<close>

definition outcome_ok ::
  "env \<Rightarrow> path \<Rightarrow> BackupPayload \<Rightarrow> string \<Rightarrow> datetime \<Rightarrow> datetime \<Rightarrow> BackupEntry list \<Rightarrow> file_system \<Rightarrow>
   RunOnceOutcome \<Rightarrow> BackupEntry list \<Rightarrow> file_system \<Rightarrow> bool"
where
  "outcome_ok E rt payload hash now t es f out es' f' \<longleftrightarrow>
     (case out of
        OutcomeSkipped e \<Rightarrow>
          newest_hash es (Some hash) \<and> e = entry_of_new (backup_id e) (skipped_unchanged now hash) \<and>
          es' = es @ [with_ts t e] \<and> f' = f
      | OutcomeCreated e \<Rightarrow>
          (\<exists>prev. newest_hash es prev \<and> prev \<noteq> Some hash) \<and>
          (\<exists>s. e = entry_of_new (backup_id e) (new_created now (format_timestamp_dir E now) hash
             (payload_source_revision payload) (payload_sync_duration_ms payload)
             (of_nat (length (payload_bytes payload))) s)) \<and>
          es' = es @ [with_ts t e] \<and>
          f' (payload_at rt (timestamp_dir e)) = Some (File (payload_bytes payload)) \<and>
          points_to E e (f' (pointer_at rt)))"

text \<open>
  What the file work for the backup directory \<open>d\<close> may change: its two files, and never the
  pointer.
\<close>

definition backup_frame :: "path \<Rightarrow> string \<Rightarrow> 'db world \<Rightarrow> 'db world \<Rightarrow> bool" where
  "backup_frame rt d w w' \<longleftrightarrow> files_only w w' \<and> (layout rt (files w) \<longrightarrow> layout rt (files w')) \<and>
     keeps {payload_at rt d, metadata_at rt d} (files w) (files w') \<and>
     files w' (pointer_at rt) = files w (pointer_at rt)"

definition pointer_frame :: "path \<Rightarrow> 'db world \<Rightarrow> 'db world \<Rightarrow> bool" where
  "pointer_frame rt w w' \<longleftrightarrow> files_only w w' \<and> layout rt (files w') \<and>
     keeps {pointer_at rt, pointer_tmp_at rt} (files w) (files w')"

definition prune_frame :: "path \<Rightarrow> string set \<Rightarrow> 'db world \<Rightarrow> 'db world \<Rightarrow> bool" where
  "prune_frame rt ds w w' \<longleftrightarrow> files_only w w' \<and> layout rt (files w') \<and>
     keeps (\<Union>d \<in> ds. {q. prefix (rt @ [''backups'', d]) q}) (files w) (files w') \<and>
     (\<forall>q. files w q = None \<longrightarrow> files w' q = None) \<and>
     files w' (pointer_at rt) = files w (pointer_at rt)"

section \<open>Lemmas\<close>

subsection \<open>Paths and the layout\<close>

lemma backup_dir_path_plain [simp]: "plain_name d \<Longrightarrow> backup_dir_path rt d = rt @ [''backups'', d]"
  by (simp add: backup_dir_path_def)

lemma state_path_plain [simp]: "plain_name n \<Longrightarrow> state_path rt n = rt @ [''state'', n]"
  by (simp add: state_path_def)

lemma prefix_snocD: "prefix q (p @ [x]) \<Longrightarrow> length q \<le> Suc (length p)"
  by (auto dest: prefix_length_le)

lemma not_prefix_long [simp]:
  "\<not> prefix (rt @ [a, b]) (rt @ [c])" "\<not> prefix (rt @ [a, b, c']) (rt @ [c])"
  "\<not> prefix (rt @ [a, b, c']) (rt @ [c, d])"
  by (auto dest: prefix_length_le)

lemma layout_write:
  assumes "layout rt f" "p = payload_at rt d \<or> p = metadata_at rt d \<or> p = pointer_at rt \<or> p = pointer_tmp_at rt"
  shows "layout rt (f(p \<mapsto> File content))"
  using assms by (auto simp: layout_def is_file_def)

lemma layout_delete: "layout rt f \<Longrightarrow> layout rt (f(pointer_tmp_at rt := None))"
  by (auto simp: layout_def is_file_def)

lemma layout_mk_dirs:
  assumes "layout rt f" "prefix p (rt @ [''backups'', d])"
  shows "layout rt (mk_dirs p f)"
proof -
  have "prefix q (rt @ [''backups'', d])" if "prefix q p" for q
    using that assms(2) by (rule prefix_order.order_trans)
  then have "\<not> prefix (rt @ [a, b, c]) p" "\<not> prefix (rt @ [''state'', x]) p" for a b c x
    by force+
  then show ?thesis
    using assms(1) by (auto simp: layout_def mk_dirs_def is_file_def)
qed

lemma layout_remove:
  assumes "layout rt f"
  shows "layout rt (\<lambda>q. if prefix (rt @ [''backups'', d]) q \<and> \<not> K q then None else f q)"
proof -
  have "\<not> prefix (rt @ [''backups'', d]) q" if "prefix q (rt @ [x])" for q x
    using prefix_order.order_trans [of "rt @ [''backups'', d]" q "rt @ [x]"] that by auto
  then show ?thesis using assms by (auto simp: layout_def is_file_def)
qed

lemma layout_can_write:
  assumes "layout rt f"
  shows "can_write (pointer_at rt) f" "can_write (pointer_tmp_at rt) f"
    "f (rt @ [''backups'', d]) = Some Dir \<Longrightarrow> can_write (payload_at rt d) f"
    "f (rt @ [''backups'', d]) = Some Dir \<Longrightarrow> can_write (metadata_at rt d) f"
  using assms by (auto simp: layout_def can_write_def butlast_append)

lemma layout_no_file: "layout rt f \<Longrightarrow> prefix q (rt @ [''backups'', d]) \<Longrightarrow> \<not> is_file (f q)"
proof -
  assume l: "layout rt f" and "prefix q (rt @ [''backups'', d])"
  then consider "q = rt @ [''backups'', d]" | "prefix q (rt @ [''backups''])"
    using prefix_snoc [of q "rt @ [''backups'']" d] by auto
  then show ?thesis using l by cases (auto simp: layout_def is_file_def)
qed

lemma entry_ok_keeps:
  assumes "entry_ok rt E f e" "keeps S f g" "is_created e \<Longrightarrow> payload_at rt (timestamp_dir e) \<notin> S"
  shows "entry_ok rt E g e"
  using assms keepsD [OF assms(2)] unfolding entry_ok_def payload_ok_def by blast

lemma entry_ok_with_ts [simp]: "entry_ok rt E f (with_ts t e) = entry_ok rt E f e"
  by (simp add: entry_ok_def payload_ok_def)

lemma created_dirs_append [simp]:
  "created_dirs (es @ [e]) = created_dirs es @ (if is_created e then [timestamp_dir e] else [])"
  by (simp add: created_dirs_def)

lemma backup_frame_refl [simp]: "backup_frame rt d w w"
  by (simp add: backup_frame_def frame_defs)

lemma backup_frame_trans [trans]: "backup_frame rt d a b \<Longrightarrow> backup_frame rt d b c \<Longrightarrow> backup_frame rt d a c"
  unfolding backup_frame_def using keeps_trans [of _ "files a" "files b" _ "files c"] files_only_trans [of a b c]
  by (metis sup.idem)

lemma read_only_backup_frame: "read_only w w' \<Longrightarrow> backup_frame rt d w w'"
  by (simp add: backup_frame_def frame_defs)

text \<open>Work on a fresh directory, or on the pointer, keeps every entry.\<close>

lemma repo_ok_keeps:
  assumes "repo_ok rt E f es" "layout rt g" "keeps S f g"
    and "\<And>d. payload_at rt d \<in> S \<Longrightarrow> d \<notin> set (created_dirs es)"
  shows "repo_ok rt E g es"
proof -
  have "entry_ok rt E g e" if "e \<in> set es" for e
    using assms that entry_ok_keeps [of rt E f e S g]
    by (auto simp: repo_ok_def created_dirs_def list_all_iff)
  then show ?thesis using assms by (simp add: repo_ok_def list_all_iff)
qed

lemma repo_ok_backup_frame:
  assumes "repo_ok rt E (files w) es" "backup_frame rt d w w'" "d \<notin> set (created_dirs es)"
  shows "repo_ok rt E (files w') es"
  by (rule repo_ok_keeps [OF assms(1)]) (use assms in \<open>auto simp: backup_frame_def repo_ok_def\<close>)

lemma repo_ok_pointer_frame:
  assumes "repo_ok rt E (files w) es" "pointer_frame rt w w'"
  shows "repo_ok rt E (files w') es"
  by (rule repo_ok_keeps [OF assms(1)]) (use assms in \<open>auto simp: pointer_frame_def repo_ok_def\<close>)

lemma repo_ok_metadata:
  assumes "repo_ok rt E f es" "layout rt g" "\<And>q. q \<noteq> metadata_at rt d \<Longrightarrow> g q = f q"
  shows "repo_ok rt E g es"
  by (rule repo_ok_keeps [OF assms(1,2), of "{metadata_at rt d}"]) (use assms(3) in \<open>auto simp: keeps_def\<close>)

subsection \<open>The file operations\<close>

lemma unobstructed_mk_dirs:
  assumes "unobstructed rt f" "prefix p (rt @ [x])"
  shows "unobstructed rt (mk_dirs p f)"
proof -
  have "length q \<le> Suc (length rt)" if "prefix q p" for q
    using prefix_length_le [OF that] prefix_length_le [OF assms(2)] by simp
  then have "\<not> prefix (rt @ [a, b]) p" "\<not> prefix (rt @ [a, b, c]) p" for a b c by force+
  then show ?thesis using assms(1) by (simp add: unobstructed_def mk_dirs_def)
qed

lemma layout_of_dirs:
  assumes "unobstructed rt f"
  shows "layout rt (mk_dirs (rt @ [''state'']) (mk_dirs (rt @ [''backups'']) f))"
proof -
  have "unobstructed rt (mk_dirs (rt @ [''state'']) (mk_dirs (rt @ [''backups'']) f))"
    by (intro unobstructed_mk_dirs [where x = "''state''"] unobstructed_mk_dirs [where x = "''backups''"] assms) simp_all
  then show ?thesis by (auto simp: layout_def unobstructed_def mk_dirs_def)
qed

lemma runs_create_layout:
  assumes "unobstructed rt (files w)"
  shows "runs (create_layout rt) w
    (\<lambda>_ w'. files_only w w' \<and> keeps {} (files w) (files w') \<and> layout rt (files w') \<and>
       files w' (pointer_at rt) = files w (pointer_at rt))
    (\<lambda>_ w'. files_only w w' \<and> keeps {} (files w) (files w'))"
  unfolding create_layout_def runs_seq runs_map_err
proof (simp only: path_join_plain plain_names, rule runs_mono [OF runs_create_dir_all])
  fix x w1
  assume w1: "files_only w w1 \<and> files w1 = mk_dirs (rt @ [''backups'']) (files w) \<and> keeps {} (files w) (files w1)"
  have ptr: "mk_dirs (rt @ [d]) f (pointer_at rt) = f (pointer_at rt)" for d f by (simp add: mk_dirs_def)
  show "runs (create_dir_all (rt @ [''state''])) w1
    (\<lambda>_ w'. files_only w w' \<and> keeps {} (files w) (files w') \<and> layout rt (files w') \<and>
       files w' (pointer_at rt) = files w (pointer_at rt))
    (\<lambda>_ w'. files_only w w' \<and> keeps {} (files w) (files w'))"
    by (rule runs_mono [OF runs_create_dir_all])
       (use w1 ptr layout_of_dirs [OF assms] keeps_trans [of "{}" "files w" "files w1" "{}"] in
        \<open>auto simp: frame_defs\<close>)
qed auto

lemma runs_write_current_pointer:
  assumes "layout (root r) (files w)"
  shows "runs (write_current_pointer r e) w
    (\<lambda>_ w'. pointer_frame (root r) w w' \<and> points_to (env w) e (files w' (pointer_at (root r))))
    (\<lambda>_ w'. pointer_frame (root r) w w' \<and>
       files w' (pointer_at (root r)) = files w (pointer_at (root r)) \<and>
       (faulted w w' \<or> \<not> json_pretty_total (env w)))"
  (is "runs _ _ ?Q ?R")
proof -
  let ?rt = "root r" and ?w1 = "w\<lparr>step := Suc (step w)\<rparr>"
  have w1: "read_only w ?w1" by (simp add: frame_defs)
  show ?thesis
  proof (cases "json_to_string_pretty (env w) (pointer_json (env w) e (clock (env w) (step w)))")
    case None
    then show ?thesis
      using assms by (auto simp: write_current_pointer_def wp_simps json_pretty_total_def pointer_frame_def frame_defs)
  next
    case (Some raw)
    have "runs (seq_io (map_err (Context ''write current pointer tmp'')
          (fs_write (pointer_tmp_at ?rt) (as_bytes raw)))
        (map_err (Context ''atomic rename current pointer'')
          (fs_rename (pointer_tmp_at ?rt) (pointer_at ?rt)))) ?w1 ?Q ?R"
      unfolding runs_seq runs_map_err
    proof (rule runs_mono [OF runs_fs_write])
      fix x w2
      assume w2: "files_only ?w1 w2 \<and> files w2 = (files ?w1)(pointer_tmp_at ?rt \<mapsto> File (as_bytes raw))"
      then have l: "layout ?rt (files w2)" using assms layout_write [of ?rt "files w"] by simp
      show "runs (fs_rename (pointer_tmp_at ?rt) (pointer_at ?rt)) w2 ?Q (\<lambda>e. ?R (Context ''atomic rename current pointer'' e))"
      proof (rule runs_mono [OF runs_fs_rename])
        fix x w3
        assume "files_only w2 w3 \<and> (\<exists>content. files w2 (pointer_tmp_at ?rt) = Some (File content) \<and>
          files w3 = (files w2)(pointer_tmp_at ?rt := None, pointer_at ?rt \<mapsto> File content))"
        then have w3: "files_only w2 w3"
          and f3: "files w3 = (files w2)(pointer_tmp_at ?rt := None, pointer_at ?rt \<mapsto> File (as_bytes raw))"
          using w2 by auto
        have "layout ?rt (files w3)" unfolding f3 by (intro layout_write layout_delete l) simp
        then show "?Q x w3"
          using w2 w3 f3 Some by (auto simp: pointer_frame_def points_to_def frame_defs keeps_def)
      next
        fix err w3
        assume w3: "read_only w2 w3 \<and> (faulted w2 w3 \<or> \<not> is_file (files w2 (pointer_tmp_at ?rt)) \<or>
          \<not> can_write (pointer_at ?rt) (files w2))"
        then have "faulted w2 w3" using w2 layout_can_write(1) [OF l] by (auto simp: is_file_def)
        then have "faulted w w3" by (rule faulted_extend_left [rotated]) (use w2 in \<open>simp add: frame_defs\<close>)
        then show "?R (Context ''atomic rename current pointer'' err) w3"
          using w2 w3 l by (auto simp: pointer_frame_def frame_defs)
      qed
    next
      fix err w2
      assume w2: "files_only ?w1 w2 \<and> (files w2 = files ?w1 \<or>
          (\<exists>n. files w2 = (files ?w1)(pointer_tmp_at ?rt \<mapsto> File (take n (as_bytes raw))))) \<and>
        (faulted ?w1 w2 \<or> \<not> can_write (pointer_tmp_at ?rt) (files ?w1))"
      then have "faulted w w2"
        using layout_can_write(2) [OF assms] faulted_extend_left [OF read_only_later [OF w1], of w2] by simp
      then show "?R (Context ''write current pointer tmp'' err) w2"
        using w2 assms layout_write [OF assms] by (auto simp: pointer_frame_def frame_defs)
    qed
    then show ?thesis by (simp add: write_current_pointer_def wp_simps Some)
  qed
qed

lemma runs_backup_dir:
  assumes "layout rt (files w)"
  shows "runs (create_dir_all (rt @ [''backups'', d])) w
    (\<lambda>_ w'. backup_frame rt d w w' \<and> files w' (rt @ [''backups'', d]) = Some Dir)
    (\<lambda>_ w'. backup_frame rt d w w' \<and> faulted w w')"
proof (rule runs_mono [OF runs_create_dir_all])
  have ptr: "mk_dirs p f (pointer_at rt) = f (pointer_at rt)" if "prefix p (rt @ [''backups'', d])" for p f
  proof -
    have "\<not> prefix (pointer_at rt) p"
      using prefix_order.order_trans [OF _ that, of "pointer_at rt"] by auto
    then show ?thesis by (simp add: mk_dirs_def)
  qed
  have frame: "backup_frame rt d w w'" if "files_only w w'" "keeps {} (files w) (files w')"
    "files w' = mk_dirs p (files w)" "prefix p (rt @ [''backups'', d])" for w' p
    using that layout_mk_dirs [OF assms that(4)] ptr [OF that(4)]
    by (auto simp: backup_frame_def intro: keeps_mono)
  {
    fix x w'
    assume w': "files_only w w' \<and> files w' = mk_dirs (rt @ [''backups'', d]) (files w) \<and> keeps {} (files w) (files w')"
    then have "backup_frame rt d w w'" using frame by blast
    then show "backup_frame rt d w w' \<and> files w' (rt @ [''backups'', d]) = Some Dir"
      using w' by (simp add: mk_dirs_def)
  next
    fix err w'
    assume w': "files_only w w' \<and> keeps {} (files w) (files w') \<and>
        (files w' = files w \<or> (\<exists>n. files w' = mk_dirs (take n (rt @ [''backups'', d])) (files w))) \<and>
        (faulted w w' \<or> (\<exists>q. prefix q (rt @ [''backups'', d]) \<and> is_file (files w q)))"
    then have "faulted w w'" using layout_no_file [OF assms] by blast
    moreover have "backup_frame rt d w w'"
      using w' frame [of w'] take_is_prefix [of _ "rt @ [''backups'', d]"]
      by (auto simp: backup_frame_def)
    ultimately show "backup_frame rt d w w' \<and> faulted w w'" by simp
  }
qed

text \<open>Writing one of the two files of the backup directory \<open>d\<close>.\<close>

lemma runs_backup_write:
  assumes l: "layout rt (files w)" and dir: "files w (rt @ [''backups'', d]) = Some Dir"
    and p: "p = payload_at rt d \<or> p = metadata_at rt d"
  shows "runs (fs_write p content) w
    (\<lambda>_ w'. backup_frame rt d w w' \<and> files w' = (files w)(p \<mapsto> File content))
    (\<lambda>_ w'. backup_frame rt d w w' \<and> faulted w w' \<and>
       (\<forall>q. q \<noteq> p \<longrightarrow> files w' q = files w q))"
proof (rule runs_mono [OF runs_fs_write])
  have frame: "backup_frame rt d w w'" if "files_only w w'" "files w' = (files w)(p \<mapsto> File c)" for w' c
    using that p layout_write [OF l, of p d] by (auto simp: backup_frame_def)
  have "can_write p (files w)" using layout_can_write(3,4) [OF l dir] p by blast
  then show "backup_frame rt d w w' \<and> faulted w w' \<and> (\<forall>q. q \<noteq> p \<longrightarrow> files w' q = files w q)"
    if "files_only w w' \<and> (files w' = files w \<or> (\<exists>n. files w' = (files w)(p \<mapsto> File (take n content)))) \<and>
        (faulted w w' \<or> \<not> can_write p (files w))" for w'
    using that frame [of w'] by (auto simp: backup_frame_def)
  show "backup_frame rt d w w' \<and> files w' = (files w)(p \<mapsto> File content)"
    if "files_only w w' \<and> files w' = (files w)(p \<mapsto> File content)" for w'
    using that frame [of w'] by blast
qed

lemma runs_write_metadata:
  assumes l: "layout (root r) (files w)" and pl: "plain_name (timestamp_dir e)"
    and dir: "files w (root r @ [''backups'', timestamp_dir e]) = Some Dir"
  defines "K \<equiv> \<lambda>w'. files_only w w' \<and> layout (root r) (files w') \<and>
      (\<forall>q. q \<noteq> metadata_at (root r) (timestamp_dir e) \<longrightarrow> files w' q = files w q)"
  shows "runs (write_metadata r e) w (\<lambda>_. K)
    (\<lambda>_ w'. K w' \<and> (faulted w w' \<or> \<not> json_pretty_total (env w)))"
proof (cases "json_to_string_pretty (env w) (json_of_entry (uuid_to_string (env w)) (serde_datetime (env w)) e)")
  case None
  then show ?thesis using l by (auto simp: write_metadata_def wp_simps K_def json_pretty_total_def frame_defs)
next
  case (Some raw)
  have "runs (fs_write (metadata_at (root r) (timestamp_dir e)) (as_bytes raw)) w (\<lambda>_. K)
      (\<lambda>_ w'. K w' \<and> (faulted w w' \<or> \<not> json_pretty_total (env w)))"
    by (rule runs_mono [OF runs_backup_write [OF l dir]]) (use l in \<open>auto simp: K_def backup_frame_def\<close>)
  then show ?thesis using Some pl by (simp add: write_metadata_def wp_simps)
qed

text \<open>The payload that could not be stored: a call failed, or it is not a readable collection.\<close>

lemma runs_store_payload:
  assumes l: "layout (root r) (files w)" and pl: "plain_name d" and ord: "row_order_ok (env w)"
  shows "runs (store_payload r d content) w
    (\<lambda>(s, sz) w'. backup_frame (root r) d w w' \<and>
       files w' (payload_at (root r) d) = Some (File content) \<and>
       files w' (root r @ [''backups'', d]) = Some Dir \<and> sz = of_nat (length content) \<and>
       (\<exists>c. open_collection (env w) content = Some c \<and> stats_of (env w) c s))
    (\<lambda>_ w'. backup_frame (root r) d w w' \<and> (faulted w w' \<or> \<not> readable (env w) content))"
  (is "runs _ _ ?Q ?R")
  unfolding store_payload_def Let_def backup_dir_path_plain [OF pl] runs_seq runs_bind runs_map_err
proof (simp only: path_join_plain plain_names append_assoc append_Cons append_Nil,
    rule runs_mono [OF runs_backup_dir [OF l]])
  let ?p = "payload_at (root r) d"
  fix x w1
  assume w1: "backup_frame (root r) d w w1 \<and> files w1 (root r @ [''backups'', d]) = Some Dir"
  then have l1: "layout (root r) (files w1)" and E1: "env w1 = env w" and lt1: "later w w1"
    using l by (simp_all add: backup_frame_def frame_defs)
  have fault: "faulted w w''" if "faulted w' w''" "backup_frame (root r) d w1 w'" for w' w''
    using that faulted_extend_left [of w w' w''] lt1 by (auto simp: backup_frame_def frame_defs)
  note fr = backup_frame_trans [OF conjunct1 [OF w1]]
  show "runs (fs_write ?p content) w1 (\<lambda>_ w'. runs (extract_stats ?p) w' (\<lambda>s w'. runs (fs_len ?p) w'
      (\<lambda>len w'. runs (return_io (s, of_nat len)) w' ?Q ?R) (\<lambda>e. ?R (Context ''stat payload file'' e)))
      (\<lambda>e. ?R (Context ''extract backup stats'' e))) (\<lambda>e. ?R (Context ''write payload file'' e))"
  proof (rule runs_mono [OF runs_backup_write [OF l1 conjunct2 [OF w1]]], goal_cases)
    case 1 then show ?case by simp
  next
    case (2 x w2)
    then have w2: "backup_frame (root r) d w1 w2" "files w2 = (files w1)(?p \<mapsto> File content)" by simp_all
    then have E2: "env w2 = env w" and ord2: "row_order_ok (env w2)" and at: "collection_at w2 ?p = open_collection (env w) content"
      using ord E1 by (simp_all add: backup_frame_def frame_defs collection_at_def)
    show ?case
    proof (rule runs_mono [OF runs_extract_stats [OF ord2]])
      fix s w3
      assume w3: "read_only w2 w3 \<and> (\<exists>c. collection_at w2 ?p = Some c \<and> stats_of (env w2) c s)"
      note fr3 = backup_frame_trans [OF w2(1) read_only_backup_frame]
      show "runs (fs_len ?p) w3 (\<lambda>len w'. runs (return_io (s, of_nat len)) w' ?Q ?R)
          (\<lambda>e. ?R (Context ''stat payload file'' e))"
      proof (rule runs_mono [OF runs_fs_len])
        fix n w4
        assume w4: "read_only w3 w4 \<and> (case files w3 ?p of Some (File content) \<Rightarrow> n = length content
          | Some Dir \<Rightarrow> n = 0 | None \<Rightarrow> False)"
        then have "read_only w2 w4" and f4: "files w4 = files w2" and n: "n = length content"
          using w3 w2 by (auto simp: frame_defs)
        then show "runs (return_io (s, of_nat n)) w4 ?Q ?R"
          using fr [OF fr3] w1 w2 w3 E2 at by (simp add: runs_return)
      next
        fix e w4
        assume w4: "read_only w3 w4 \<and> (faulted w3 w4 \<or> files w3 ?p = None)"
        then have "read_only w2 w4" "faulted w3 w4" using w3 w2 by (auto simp: frame_defs)
        then show "?R (Context ''stat payload file'' e) w4"
          using fr [OF fr3, of w4] fault [of w3 w4] fr3 [of w3] w3 by auto
      qed
    next
      fix e w3
      assume w3: "not_extracted w2 ?p w3"
      then have "faulted w2 w3 \<or> \<not> readable (env w) content" "read_only w2 w3"
        unfolding not_extracted_def at readable_def E2 by (auto split: option.splits)
      then show "?R (Context ''extract backup stats'' e) w3"
        using fr [OF backup_frame_trans [OF w2(1) read_only_backup_frame], of w3] fault [OF _ w2(1)] by blast
    qed
  next
    case (3 e w2)
    then show ?case using fr [of w2] fault [of w1 w2] by auto
  qed
qed auto

text \<open>Pruning the directories \<open>ds\<close> touches nothing outside them.\<close>

lemma prune_frame_refl: "layout rt (files w) \<Longrightarrow> prune_frame rt ds w w"
  by (simp add: prune_frame_def frame_defs)

lemma prune_frame_trans:
  assumes "prune_frame rt ds a b" "prune_frame rt ds' b c"
  shows "prune_frame rt (ds \<union> ds') a c"
  using assms keeps_trans [of _ "files a" "files b" _ "files c"] files_only_trans [of a b c]
  by (auto simp: prune_frame_def image_Un intro: keeps_mono)

lemma prune_frame_remove:
  assumes "layout rt (files w)" "files_only w w'"
    and "files w' = (\<lambda>q. if prefix (rt @ [''backups'', d]) q \<and> \<not> K q then None else files w q)"
  shows "prune_frame rt {d} w w'"
  using assms layout_remove [OF assms(1), of d K] keeps_remove [of "rt @ [''backups'', d]" "files w" K]
  by (auto simp: prune_frame_def)

lemma runs_prune_dir:
  assumes l: "layout (root r) (files w)" and pl: "plain_name d"
  shows "runs (prune_dir r d) w
    (\<lambda>_ w'. prune_frame (root r) {d} w w' \<and> (faulted w w' \<or> files w' (root r @ [''backups'', d]) = None))
    (\<lambda>_ w'. prune_frame (root r) {d} w w' \<and> faulted w w')"
  (is "runs _ _ ?Q ?R")
proof -
  let ?p = "root r @ [''backups'', d]" and ?w1 = "w\<lparr>step := Suc (step w)\<rparr>"
  have f1: "later w ?w1" "files ?w1 = files w" by (simp_all add: later_def)
  have "runs (remove_dir_all ?p) ?w1 (\<lambda>x. ?Q x) (\<lambda>e. ?R (Context ''remove old backup dir'' e))"
    if "files w ?p \<noteq> None"
  proof (rule runs_mono [OF runs_remove_dir_all])
    fix x w'
    assume "files_only ?w1 w' \<and> files w' = (\<lambda>q. if prefix ?p q then None else files ?w1 q)"
    then have "files_only w w'" "files w' = (\<lambda>q. if prefix ?p q \<and> \<not> False then None else files w q)"
      unfolding f1(2) by (simp_all add: frame_defs)
    then show "?Q x w'" using prune_frame_remove [OF l, of w' d "\<lambda>_. False"] by simp
  next
    fix e w'
    assume w': "files_only ?w1 w' \<and> (\<exists>K. files w' = (\<lambda>q. if prefix ?p q \<and> \<not> K q then None else files ?w1 q)) \<and>
      (faulted ?w1 w' \<or> files ?w1 ?p \<noteq> Some Dir)"
    have "files w ?p = Some Dir"
      using that layout_no_file [OF l, of ?p d] by (auto simp: is_file_def split: option.splits node.splits)
    then have "faulted w w'" using w' faulted_extend_left [OF f1(1), of w'] by auto
    moreover obtain K where "files_only w w'" "files w' = (\<lambda>q. if prefix ?p q \<and> \<not> K q then None else files w q)"
      using w' unfolding f1(2) by (auto simp: frame_defs)
    ultimately show "?R (Context ''remove old backup dir'' e) w'"
      using prune_frame_remove [OF l] by blast
  qed
  moreover have "?Q () ?w1" if "\<not> (fault_at (env w) (step w) = None \<and> files w ?p \<noteq> None)"
    using that l faulted_now [of w] by (auto simp: prune_frame_def frame_defs)
  ultimately show ?thesis using pl by (simp add: prune_dir_def wp_simps)
qed

lemma runs_prune_dirs:
  assumes "layout (root r) (files w)" "\<forall>g \<in> set gone. plain_name (snd g)"
  shows "runs (for_each (\<lambda>(_, d). prune_dir r d) gone) w
    (\<lambda>_ w'. prune_frame (root r) (snd ` set gone) w w' \<and>
       (faulted w w' \<or> (\<forall>g \<in> set gone. files w' (root r @ [''backups'', snd g]) = None)))
    (\<lambda>_ w'. prune_frame (root r) (snd ` set gone) w w' \<and> faulted w w')"
  using assms
proof (induction gone arbitrary: w)
  case Nil
  then show ?case by (simp add: runs_return prune_frame_refl)
next
  case (Cons g gone)
  obtain i d where g: "g = (i, d)" by (cases g)
  have pl: "plain_name d" using Cons.prems g by simp
  show ?case
    unfolding for_each.simps runs_seq g prod.case
  proof (rule runs_mono [OF runs_prune_dir [OF Cons.prems(1) pl]])
    fix x w1
    assume w1: "prune_frame (root r) {d} w w1 \<and> (faulted w w1 \<or> files w1 (root r @ [''backups'', d]) = None)"
    then have l1: "layout (root r) (files w1)" and lt: "later w w1"
      by (simp_all add: prune_frame_def frame_defs)
    show "runs (for_each (\<lambda>(_, d). prune_dir r d) gone) w1
      (\<lambda>_ w'. prune_frame (root r) (snd ` set ((i, d) # gone)) w w' \<and>
         (faulted w w' \<or> (\<forall>g \<in> set ((i, d) # gone). files w' (root r @ [''backups'', snd g]) = None)))
      (\<lambda>_ w'. prune_frame (root r) (snd ` set ((i, d) # gone)) w w' \<and> faulted w w')"
    proof (rule runs_mono [OF Cons.IH [OF l1]], goal_cases)
      case 1 then show ?case using Cons.prems by simp
    next
      case (2 x w')
      then have "later w1 w'" "files w1 q = None \<Longrightarrow> files w' q = None" for q
        by (auto simp: prune_frame_def frame_defs)
      then show ?case
        using 2 w1 prune_frame_trans [of "root r" "{d}" w w1 "snd ` set gone" w']
          faulted_extend_left [OF lt, of w'] faulted_extend_right [of w1 w' w] by auto
    next
      case (3 e w')
      then show ?case
        using w1 prune_frame_trans [of "root r" "{d}" w w1 "snd ` set gone" w'] faulted_extend_left [OF lt, of w']
        by auto
    qed
  next
    fix e w1
    assume "prune_frame (root r) {d} w w1 \<and> faulted w w1"
    then show "prune_frame (root r) (snd ` set ((i, d) # gone)) w w1 \<and> faulted w w1"
      by (auto simp: prune_frame_def intro: keeps_mono)
  qed
qed

text \<open>The directories of removed entries are not those of kept ones.\<close>

lemma repo_ok_filter:
  assumes "repo_ok rt E f es"
  shows "repo_ok rt E f (filter P es)"
proof -
  have "distinct (map timestamp_dir (filter P (filter is_created es)))"
    using assms by (simp only: repo_ok_def created_dirs_def distinct_map_filter_fst)
  then have "distinct (created_dirs (filter P es))"
    by (simp add: created_dirs_def conj_commute)
  then show ?thesis using assms by (auto simp: repo_ok_def list_all_iff)
qed

lemma doomed_dirs_apart:
  assumes "distinct (created_dirs es)" "d \<in> timestamp_dir ` set (filter (doomed c) es)"
  shows "d \<notin> set (created_dirs (filter (\<lambda>e. \<not> doomed c e) es))"
proof
  assume "d \<in> set (created_dirs (filter (\<lambda>e. \<not> doomed c e) es))"
  then obtain e where e: "e \<in> set es" "is_created e" "\<not> doomed c e" "timestamp_dir e = d"
    by (auto simp: created_dirs_def)
  obtain e' where e': "e' \<in> set es" "doomed c e'" "timestamp_dir e' = d" using assms(2) by auto
  have "inj_on timestamp_dir (set (filter is_created es))"
    using assms(1) by (simp add: created_dirs_def distinct_map)
  then have "e = e'"
    using e e' doomed_is_created [OF e'(2)] by (auto dest: inj_onD)
  then show False using e e' by simp
qed

lemma repo_ok_prune_frame:
  assumes "repo_ok rt E (files w) es" "prune_frame rt ds w w'" "ds \<subseteq> timestamp_dir ` set (filter (doomed c) es)"
  shows "repo_ok rt E (files w') (filter (\<lambda>e. \<not> doomed c e) es)"
proof (rule repo_ok_keeps [OF repo_ok_filter [OF assms(1)]])
  show "layout rt (files w')" "keeps (\<Union>d \<in> ds. {q. prefix (rt @ [''backups'', d]) q}) (files w) (files w')"
    using assms(2) by (simp_all add: prune_frame_def)
  fix d
  assume "payload_at rt d \<in> (\<Union>d \<in> ds. {q. prefix (rt @ [''backups'', d]) q})"
  then have "d \<in> timestamp_dir ` set (filter (doomed c) es)" using assms(3) by auto
  then show "d \<notin> set (created_dirs (filter (\<lambda>e. \<not> doomed c e) es))"
    using assms(1) doomed_dirs_apart by (simp add: repo_ok_def)
qed

end
