(* ===== verification/Repository_Laws.thy ===== *)
theory Repository_Laws
  imports Repository
begin

text \<open>
  The operations of \<open>BackupRepository\<close> on any store that satisfies \<open>metadata_store_laws\<close>: what a
  run, a rollback and a pruning do when they succeed, and what they leave behind when any of
  their calls fails. The interpretations of the two backends give each lemma for SQLite and for
  Postgres.
\<close>

context metadata_store_laws
begin

lemma runs_create_and_insert:
  assumes inv: "invar w" and st: "store r = st" and ts: "good_ts (created_at n)"
    and rok: "repo_ok (root r) (env w) (files w) (rows w)"
    and new: "entry_ok (root r) (env w) (files w) (entry_of_new 0 n)"
    and dir: "status n = Created \<Longrightarrow> timestamp_dir n \<notin> set (created_dirs (rows w)) \<and>
      files w (root r @ [''backups'', timestamp_dir n]) = Some Dir"
  defines "u \<equiv> fresh_uuid (env w) (step w)"
  defines "es \<equiv> rows w @ [with_ts (stored_ts (env w) (created_at n)) (entry_of_new u n)]"
  defines "K \<equiv> \<lambda>w'. invar w' \<and> repo_ok (root r) (env w) (files w') (rows w') \<and> events w' = events w \<and>
      later w w' \<and> step w < step w' \<and> sent w' = sent w \<and> (status n = Skipped \<longrightarrow> files w' = files w) \<and>
      (\<forall>q. q \<noteq> metadata_at (root r) (timestamp_dir n) \<longrightarrow> files w' q = files w q)"
  shows "runs (create_and_insert_entry r n) w
    (\<lambda>e w'. K w' \<and> e = entry_of_new u n \<and> rows w' = es \<and> u \<notin> ids_of (rows w))
    (\<lambda>_ w'. K w' \<and> (rows w' = rows w \<or> rows w' = es) \<and>
       (faulted w w' \<or> u \<in> ids_of (rows w) \<or> \<not> json_pretty_total (env w)))"
  (is "runs _ _ ?Q ?R")
proof -
  define e where "e = entry_of_new u n"
  define w1 where "w1 = w\<lparr>step := Suc (step w)\<rparr>"
  have w1: "read_only w w1" by (simp add: w1_def frame_defs)
  note v1 = view_read_only [OF inv w1]
  have E1: "env w1 = env w" "files w1 = files w" using w1 by (simp_all add: frame_defs)
  have es: "repo_ok (root r) (env w) (files w) es"
    using rok new dir by (auto simp: repo_ok_def es_def is_created_def entry_ok_def payload_ok_def)
  have K: "K w'" if "invar w'" "db_only w1 w'" "events w' = events w1" "rows w' = rows w \<or> rows w' = es" for w'
    using that v1 rok es unfolding K_def by (auto simp: frame_defs w1_def)
  have meta: "runs (if status e = Created then write_metadata r e else return_io ()) w2 (\<lambda>_ w'. ?Q e w') ?R"
    if w2: "invar w2" "db_only w1 w2" "events w2 = events w1" "rows w2 = es" "u \<notin> ids_of (rows w)" for w2
  proof (cases "status n")
    case Skipped
    then show ?thesis using K [OF w2(1-3)] w2 by (simp add: e_def runs_return)
  next
    case Created
    have f2: "files w2 = files w" "env w2 = env w" "sent w2 = sent w" "later w w2" "step w < step w2"
      using w2(2) by (auto simp: frame_defs w1_def)
    have K3: "K w3" "rows w3 = es"
      if "files_only w2 w3 \<and> layout (root r) (files w3) \<and>
        (\<forall>q. q \<noteq> metadata_at (root r) (timestamp_dir e) \<longrightarrow> files w3 q = files w2 q)" for w3
      using that repo_ok_metadata [OF es, of "files w3" "timestamp_dir e"] f2
        view_files_only [OF w2(1), of w3] w2(3,4) v1(3) Created
      unfolding K_def by (auto simp: frame_defs e_def)
    have "runs (write_metadata r e) w2 (\<lambda>_ w'. ?Q e w') ?R"
    proof (rule runs_mono [OF runs_write_metadata], goal_cases)
      case (5 err w3)
      then show ?case using K3 [of w3] f2 faulted_extend_left [OF f2(4), of w3] by auto
    qed (use rok new dir Created f2 K3 w2(5) in \<open>auto simp: e_def repo_ok_def entry_ok_def entry_shape_CreatedD\<close>)
    then show ?thesis using Created by (simp add: e_def)
  qed
  have "runs (insert_entry st e) w1 (\<lambda>_ w2.
      runs (if status e = Created then write_metadata r e else return_io ()) w2 (\<lambda>_ w'. ?Q e w') ?R) ?R"
  proof (rule runs_mono [OF insert_entry_law [OF v1(1)]])
    show "good_ts (created_at e)" using ts by (simp add: e_def)
  next
    fix x w2
    assume "invar w2 \<and> db_only w1 w2 \<and> events w2 = events w1 \<and> backup_id e \<notin> ids_of (rows w1) \<and>
      rows w2 = rows w1 @ [with_ts (stored_ts (env w1) (created_at e)) e]"
    then show "runs (if status e = Created then write_metadata r e else return_io ()) w2 (\<lambda>_ w'. ?Q e w') ?R"
      using meta [of w2] v1 E1 by (simp add: es_def e_def)
  next
    fix err w2
    assume "invar w2 \<and> db_only w1 w2 \<and> events w2 = events w1 \<and>
      (faulted w1 w2 \<or> backup_id e \<in> ids_of (rows w1)) \<and>
      (rows w2 = rows w1 \<or> backup_id e \<notin> ids_of (rows w1) \<and>
       rows w2 = rows w1 @ [with_ts (stored_ts (env w1) (created_at e)) e])"
    moreover from this have "faulted w w2 \<or> u \<in> ids_of (rows w)"
      using faulted_extend_left [OF read_only_later [OF w1], of w2] v1 by (auto simp: e_def)
    ultimately show "?R err w2" using K [of w2] v1 E1 by (auto simp: es_def e_def)
  qed
  then show ?thesis
    unfolding create_and_insert_entry_def Let_def st runs_bind runs_uuid_new_v4 runs_seq runs_return
      e_def u_def w1_def .
qed


text \<open>
  What holds after every run, whatever failed: the invariant, and only the rows and the files
  have changed.
\<close>

definition kept :: "'db BackupRepository \<Rightarrow> 'db world \<Rightarrow> 'db world \<Rightarrow> bool" where
  "kept r w w' \<longleftrightarrow> invar w' \<and> repo_ok (root r) (env w) (files w') (rows w') \<and> events w' = events w \<and>
     later w w' \<and> sent w' = sent w"

definition run_failed :: "'db BackupRepository \<Rightarrow> BackupPayload \<Rightarrow> string \<Rightarrow> datetime \<Rightarrow> 'db world \<Rightarrow> 'db world \<Rightarrow> bool" where
  "run_failed r payload hash now w w' \<longleftrightarrow> kept r w w' \<and>
     files w' (pointer_at (root r)) = files w (pointer_at (root r)) \<and>
     (rows w' = rows w \<or>
      (\<exists>e. rows w' = rows w @ [with_ts (stored_ts (env w) now) e] \<and> entry_hash e = hash \<and>
         (is_created e \<longrightarrow> timestamp_dir e = format_timestamp_dir (env w) now))) \<and>
     (faulted w w' \<or> id_clash (ids_of (rows w)) w w' \<or> \<not> json_pretty_total (env w) \<or>
      \<not> readable (env w) (payload_bytes payload))"

lemma run_once_skip:
  assumes inv: "invar w" and st: "store r = st" and rok: "repo_ok (root r) (env w) (files w) (rows w)"
    and ts: "good_ts now" and w2: "read_only w w2" and new: "newest_hash (rows w) (Some hash)"
  shows "runs (bind_io (create_and_insert_entry r (skipped_unchanged now hash))
      (\<lambda>skipped. return_io (OutcomeSkipped skipped))) w2
    (\<lambda>out w'. kept r w w' \<and> outcome_ok (env w) (root r) payload hash now (stored_ts (env w) now)
       (rows w) (files w) out (rows w') (files w'))
    (\<lambda>_. run_failed r payload hash now w)"
proof -
  note v2 = view_read_only [OF inv w2]
  have f2: "env w2 = env w" "files w2 = files w" "sent w2 = sent w" "later w w2"
    using w2 by (simp_all add: frame_defs)
  show ?thesis
    unfolding runs_bind runs_return
  proof (rule runs_mono [OF runs_create_and_insert [OF v2(1) st]], goal_cases)
    case (5 e w')
    then show ?case using new v2 f2 by (auto simp: kept_def outcome_ok_def later_def)
  next
    case (6 err w')
    then have "faulted w w' \<or> id_clash (ids_of (rows w)) w w' \<or> \<not> json_pretty_total (env w)"
      using faulted_extend_left [OF f2(4), of w'] id_clashI [of w w2 _ w'] v2 f2 by auto
    then show ?case using 6 v2 f2 by (auto simp: run_failed_def kept_def later_def is_created_def)
  qed (use rok v2 f2 ts in \<open>auto simp: entry_ok_def is_created_def\<close>)
qed

text \<open>The last step of a run: the pointer moves to the new entry, or stays where it was.\<close>

lemma run_once_finish:
  assumes k: "kept r w w4" and ptr: "files w4 (pointer_at (root r)) = files w (pointer_at (root r))"
    and e: "e = entry_of_new u (new_created now (format_timestamp_dir (env w) now) hash
      (payload_source_revision payload) (payload_sync_duration_ms payload)
      (of_nat (length (payload_bytes payload))) s)"
    and r4: "rows w4 = rows w @ [with_ts (stored_ts (env w) now) e]"
    and p4: "files w4 (payload_at (root r) (timestamp_dir e)) = Some (File (payload_bytes payload))"
    and new: "newest_hash (rows w) prev" "prev \<noteq> Some hash"
  shows "runs (write_current_pointer r e) w4
    (\<lambda>_ w'. kept r w w' \<and> outcome_ok (env w) (root r) payload hash now (stored_ts (env w) now)
       (rows w) (files w) (OutcomeCreated e) (rows w') (files w'))
    (\<lambda>_. run_failed r payload hash now w)"
proof -
  have rok: "repo_ok (root r) (env w) (files w4) (rows w4)" and E: "env w4 = env w" "later w w4"
    using k by (simp_all add: kept_def later_def)
  have K: "kept r w w'" "rows w' = rows w4"
    "files w' (payload_at (root r) (timestamp_dir e)) = Some (File (payload_bytes payload))"
    if "pointer_frame (root r) w4 w'" for w'
  proof -
    have fo: "files_only w4 w'" using that by (simp add: pointer_frame_def)
    then show "kept r w w'" "rows w' = rows w4"
      using repo_ok_pointer_frame [OF rok that] view_files_only [OF _ fo] k
      by (auto simp: kept_def frame_defs)
    show "files w' (payload_at (root r) (timestamp_dir e)) = Some (File (payload_bytes payload))"
      using that p4 by (auto simp: pointer_frame_def intro: keepsD)
  qed
  show ?thesis
  proof (rule runs_mono [OF runs_write_current_pointer])
    show "layout (root r) (files w4)" using rok by (simp add: repo_ok_def)
  next
    fix x w'
    assume "pointer_frame (root r) w4 w' \<and> points_to (env w4) e (files w' (pointer_at (root r)))"
    then show "kept r w w' \<and> outcome_ok (env w) (root r) payload hash now (stored_ts (env w) now)
       (rows w) (files w) (OutcomeCreated e) (rows w') (files w')"
      using K [of w'] r4 new E e by (auto simp: outcome_ok_def)
  next
    fix err w'
    assume "pointer_frame (root r) w4 w' \<and> files w' (pointer_at (root r)) = files w4 (pointer_at (root r)) \<and>
      (faulted w4 w' \<or> \<not> json_pretty_total (env w4))"
    then show "run_failed r payload hash now w w'"
      using K [of w'] r4 ptr E e faulted_extend_left [OF E(2), of w'] by (auto simp: run_failed_def)
  qed
qed


text \<open>A run whose content is new, from the moment the last hash is known.\<close>

lemma run_once_create:
  assumes inv: "invar w" and st: "store r = st" and ord: "row_order_ok (env w)"
    and rok: "repo_ok (root r) (env w) (files w) (rows w)"
    and hash: "hash = content_hash (sha256 (env w)) (hex_encode (env w)) (payload_bytes payload)"
    and dir: "dir = format_timestamp_dir (env w) now" "plain_name dir" "dir \<notin> set (created_dirs (rows w))"
    and ts: "good_ts now" and w2: "read_only w w2"
    and new: "newest_hash (rows w) prev" "prev \<noteq> Some hash"
  shows "runs (bind_io (store_payload r dir (payload_bytes payload)) (\<lambda>(s, sz).
      bind_io (create_and_insert_entry r (new_created now dir hash (payload_source_revision payload)
        (payload_sync_duration_ms payload) sz s)) (\<lambda>created.
      seq_io (write_current_pointer r created) (return_io (OutcomeCreated created))))) w2
    (\<lambda>out w'. kept r w w' \<and> outcome_ok (env w) (root r) payload hash now (stored_ts (env w) now)
       (rows w) (files w) out (rows w') (files w'))
    (\<lambda>_. run_failed r payload hash now w)"
  unfolding runs_bind
proof (rule runs_mono [OF runs_store_payload], goal_cases)
  case 1 then show ?case using rok w2 by (simp add: repo_ok_def frame_defs)
next
  case 2 show ?case by (fact dir(2))
next
  case 3 show ?case using ord w2 by (simp add: frame_defs)
next
  case (5 err w3)
  then have fo: "files_only w w3" and bf: "backup_frame (root r) dir w w3"
    using w2 by (auto simp: backup_frame_def frame_defs)
  have "faulted w w3" if "faulted w2 w3" using faulted_extend_left [OF read_only_later [OF w2] that] .
  then show ?case
    using 5 repo_ok_backup_frame [OF rok bf dir(3)] view_files_only [OF inv fo] fo bf w2
    by (auto simp: run_failed_def kept_def frame_defs backup_frame_def)
next
  case (4 x w3)
  obtain s sz where x: "x = (s, sz)" by (cases x)
  have fo: "files_only w w3" and bf: "backup_frame (root r) dir w w3" and sz: "sz = of_nat (length (payload_bytes payload))"
    and p3: "files w3 (payload_at (root r) dir) = Some (File (payload_bytes payload))"
    and d3: "files w3 (root r @ [''backups'', dir]) = Some Dir"
    and s: "\<exists>c. open_collection (env w) (payload_bytes payload) = Some c \<and> stats_of (env w) c s"
    using 4 w2 x by (auto simp: backup_frame_def frame_defs)
  note v3 = view_files_only [OF inv fo] and rok3 = repo_ok_backup_frame [OF rok bf dir(3)]
  have f3: "env w3 = env w" "sent w3 = sent w" "later w w3"
    "files w3 (pointer_at (root r)) = files w (pointer_at (root r))"
    using fo bf by (simp_all add: frame_defs backup_frame_def)
  let ?n = "new_created now dir hash (payload_source_revision payload) (payload_sync_duration_ms payload) sz s"
  have ok: "entry_ok (root r) (env w) (files w3) (entry_of_new 0 ?n)"
    using p3 s sz hash dir(2) by (auto simp: entry_ok_def payload_ok_def)
  show ?case
    unfolding x prod.case runs_bind
  proof (rule runs_mono [OF runs_create_and_insert [OF v3(1) st]], goal_cases)
    case (5 e w4)
    let ?u = "fresh_uuid (env w3) (step w3)"
    have e: "e = entry_of_new ?u ?n" and r4: "rows w4 = rows w @ [with_ts (stored_ts (env w) now) (entry_of_new ?u ?n)]"
      and f4: "\<And>q. q \<noteq> metadata_at (root r) dir \<Longrightarrow> files w4 q = files w3 q"
      using 5 v3(2) f3(1) by simp_all
    have k: "kept r w w4" using 5 v3 f3 by (auto simp: kept_def later_def)
    show ?case
      unfolding runs_seq runs_return e
      by (rule run_once_finish [OF k _ _ r4 _ new]) (use f3(4) f4 p3 sz dir(1) in simp_all)
  next
    case (6 err w4)
    then have "faulted w w4 \<or> id_clash (ids_of (rows w)) w w4 \<or> \<not> json_pretty_total (env w)"
      using faulted_extend_left [OF f3(3), of w4] id_clashI [of w w3 _ w4] v3 f3 by auto
    then show ?case using 6 v3 f3 dir(1) by (auto simp: run_failed_def kept_def later_def)
  qed (use rok3 ok v3 f3 ts dir d3 in auto)
qed

lemma runs_run_once:
  assumes inv: "invar w" and st: "store r = st" and ord: "row_order_ok (env w)"
    and rok: "repo_ok (root r) (env w) (files w) (rows w)"
    and hash: "hash = content_hash (sha256 (env w)) (hex_encode (env w)) (payload_bytes payload)"
    and now: "now = clock (env w) (step w)" "good_ts now"
    and dir: "plain_name (format_timestamp_dir (env w) now)"
      "format_timestamp_dir (env w) now \<notin> set (created_dirs (rows w))"
  shows "runs (run_once r payload hash) w
    (\<lambda>out w'. kept r w w' \<and> outcome_ok (env w) (root r) payload hash now (stored_ts (env w) now)
       (rows w) (files w) out (rows w') (files w'))
    (\<lambda>_. run_failed r payload hash now w)"
  (is "runs _ _ ?Q ?R")
proof -
  define w1 where "w1 = w\<lparr>step := Suc (step w)\<rparr>"
  have w1: "read_only w w1" by (simp add: w1_def frame_defs)
  note v1 = view_read_only [OF inv w1]
  let ?d = "format_timestamp_dir (env w) now"
  have "runs (last_created_hash st) w1 (\<lambda>prev w2. runs
      (if prev = Some hash then bind_io (create_and_insert_entry r (skipped_unchanged now hash))
         (\<lambda>skipped. return_io (OutcomeSkipped skipped))
       else bind_io (get_io env) (\<lambda>E. let dir = format_timestamp_dir E now in
         bind_io (store_payload r dir (payload_bytes payload)) (\<lambda>(st, sz).
         bind_io (create_and_insert_entry r (new_created now dir hash
           (payload_source_revision payload) (payload_sync_duration_ms payload) sz st)) (\<lambda>created.
         seq_io (write_current_pointer r created) (return_io (OutcomeCreated created)))))) w2 ?Q ?R) ?R"
  proof (rule runs_mono [OF last_created_hash_law [OF v1(1)]])
    fix prev w2
    assume "read_only w1 w2 \<and> newest_hash (rows w1) prev"
    then have w2: "read_only w w2" and new: "newest_hash (rows w) prev" and E: "env w2 = env w"
      using read_only_trans [OF w1] v1 by (auto simp: frame_defs w1_def)
    show "runs
      (if prev = Some hash then bind_io (create_and_insert_entry r (skipped_unchanged now hash))
         (\<lambda>skipped. return_io (OutcomeSkipped skipped))
       else bind_io (get_io env) (\<lambda>E. let dir = format_timestamp_dir E now in
         bind_io (store_payload r dir (payload_bytes payload)) (\<lambda>(st, sz).
         bind_io (create_and_insert_entry r (new_created now dir hash
           (payload_source_revision payload) (payload_sync_duration_ms payload) sz st)) (\<lambda>created.
         seq_io (write_current_pointer r created) (return_io (OutcomeCreated created)))))) w2 ?Q ?R"
    proof (cases "prev = Some hash")
      case True
      then have "newest_hash (rows w) (Some hash)" using new by simp
      then show ?thesis
        unfolding if_P [OF True] by (rule run_once_skip [OF inv st rok now(2) w2])
    next
      case False
      show ?thesis
        unfolding if_not_P [OF False] runs_bind [of "get_io env"] runs_get E Let_def
        by (rule run_once_create [OF inv st ord rok hash refl dir now(2) w2 new False])
    qed
  next
    fix err w2
    assume "read_only w1 w2 \<and> faulted w1 w2"
    then have "read_only w w2" "faulted w w2"
      using read_only_trans [OF w1] faulted_extend_left [OF read_only_later [OF w1]] by auto
    then show "?R err w2"
      using view_read_only [OF inv, of w2] rok by (auto simp: run_failed_def kept_def frame_defs)
  qed
  then show ?thesis
    unfolding run_once_def runs_bind [of utc_now] runs_utc_now runs_bind [of "last_created_hash _"] st now(1) w1_def .
qed


text \<open>Rolling back never touches an entry or a payload.\<close>

definition undisturbed :: "'db BackupRepository \<Rightarrow> 'db world \<Rightarrow> 'db world \<Rightarrow> bool" where
  "undisturbed r w w' \<longleftrightarrow> invar w' \<and> repo_ok (root r) (env w) (files w') (rows w') \<and> rows w' = rows w \<and>
     later w w' \<and> sent w' = sent w"

definition rollback_failed :: "'db BackupRepository \<Rightarrow> uuid \<Rightarrow> 'db world \<Rightarrow> error \<Rightarrow> 'db world \<Rightarrow> bool" where
  "rollback_failed r u w err w' \<longleftrightarrow> undisturbed r w w' \<and>
     (case find (\<lambda>e. backup_id e = u) (rows w) of
        None \<Rightarrow> (err = Anyhow ''backup not found'' \<or> faulted w w') \<and>
          files w' = files w \<and> events w' = events w
      | Some e \<Rightarrow>
          if is_created e
          then (faulted w w' \<or> id_clash (fst ` set (events w)) w w' \<or> \<not> json_pretty_total (env w)) \<and>
            (files w' (pointer_at (root r)) = files w (pointer_at (root r)) \<and> events w' = events w \<or>
             points_to (env w) e (files w' (pointer_at (root r))) \<and>
             (events w' = events w \<or> (\<exists>v. events w' = events w @ [(v, u)])))
          else (err = Anyhow ''cannot rollback to skipped backup'' \<or> faulted w w') \<and>
            files w' = files w \<and> events w' = events w)"

lemma undisturbed_read_only:
  assumes "invar w" "repo_ok (root r) (env w) (files w) (rows w)" "read_only w w'"
  shows "undisturbed r w w'" "files w' = files w" "events w' = events w" "env w' = env w"
  using assms view_read_only [OF assms(1,3)] by (auto simp: undisturbed_def frame_defs)

lemma undisturbed_pointer_frame:
  assumes "undisturbed r w w1" "events w1 = events w" "pointer_frame (root r) w1 w'"
  shows "undisturbed r w w'" "events w' = events w" "env w' = env w"
proof -
  have fo: "files_only w1 w'" and inv: "invar w1" using assms by (simp_all add: pointer_frame_def undisturbed_def)
  have "repo_ok (root r) (env w) (files w') (rows w1)"
    using repo_ok_pointer_frame [OF _ assms(3)] assms(1) unfolding undisturbed_def by blast
  then show "undisturbed r w w'" "events w' = events w" "env w' = env w"
    using view_files_only [OF inv fo] fo assms(1,2) by (auto simp: undisturbed_def frame_defs)
qed

lemma undisturbed_event:
  assumes "undisturbed r w w1" "invar w'" "db_only w1 w'" "rows w' = rows w1"
  shows "undisturbed r w w'"
  using assms by (auto simp: undisturbed_def frame_defs)

lemma runs_rollback_to:
  assumes inv: "invar w" and st: "store r = st" and rok: "repo_ok (root r) (env w) (files w) (rows w)"
  shows "runs (rollback_to r u) w
    (\<lambda>e w'. undisturbed r w w' \<and> find (\<lambda>e. backup_id e = u) (rows w) = Some e \<and> is_created e \<and>
       points_to (env w) e (files w' (pointer_at (root r))) \<and> (\<exists>v. events w' = events w @ [(v, u)]))
    (rollback_failed r u w)"
  (is "runs _ _ ?Q ?R")
  unfolding rollback_to_def repo_get_backup_def runs_bind st
proof (rule runs_mono [OF get_backup_law [OF inv]])
  fix err w1
  assume "read_only w w1 \<and> faulted w w1"
  then show "?R err w1"
    using undisturbed_read_only [OF inv rok, of w1] by (auto simp: rollback_failed_def split: option.splits)
next
  fix found w1
  assume w1: "read_only w w1 \<and> found = find (\<lambda>e. backup_id e = u) (rows w)"
  note s1 = undisturbed_read_only [OF inv rok conjunct1 [OF w1]]
  show "runs (of_option (Anyhow ''backup not found'') found) w1 (\<lambda>e w'.
      runs (if status e \<noteq> Created then fail_io (Anyhow ''cannot rollback to skipped backup'')
        else seq_io (write_current_pointer r e)
          (seq_io (insert_rollback_event st (backup_id e)) (return_io e))) w' ?Q ?R) ?R"
  proof (cases found)
    case None
    then show ?thesis using w1 s1 by (simp add: runs_of_option rollback_failed_def)
  next
    case (Some e)
    then have e: "find (\<lambda>e. backup_id e = u) (rows w) = Some e" "backup_id e = u"
      using w1 by (auto dest: find_set)
    show ?thesis
    proof (cases "is_created e")
      case False
      then show ?thesis using Some e s1 by (simp add: runs_of_option runs_fail rollback_failed_def is_created_def)
    next
      case True
      have "runs (write_current_pointer r e) w1
          (\<lambda>_ w2. runs (insert_rollback_event st u) w2 (\<lambda>_ w'. ?Q e w') ?R) ?R"
      proof (rule runs_mono [OF runs_write_current_pointer])
        show "layout (root r) (files w1)" using rok s1 by (simp add: repo_ok_def)
      next
        fix x w2
        assume w2: "pointer_frame (root r) w1 w2 \<and> points_to (env w1) e (files w2 (pointer_at (root r)))"
        note s2 = undisturbed_pointer_frame [OF s1(1,3) conjunct1 [OF w2]]
        have inv2: "invar w2" and lt: "later w w2" using s2 by (simp_all add: undisturbed_def)
        show "runs (insert_rollback_event st u) w2 (\<lambda>_ w'. ?Q e w') ?R"
        proof (rule runs_mono [OF insert_rollback_event_law [OF inv2]], goal_cases)
          case (1 x w')
          then show ?case using undisturbed_event [OF s2(1), of w'] s2 s1 w2 e True by (auto simp: frame_defs)
        next
          case (2 err w')
          have "faulted w w'" if "faulted w2 w'" using faulted_extend_left [OF lt that] .
          moreover have "id_clash (fst ` set (events w)) w w'" if "id_clash (fst ` set (events w2)) w2 w'"
            using id_clash_extend_left [OF lt] that s2 by simp
          ultimately show ?case
            using 2 undisturbed_event [OF s2(1), of w'] s2 s1 w2 e True
            by (auto simp: rollback_failed_def frame_defs)
        qed
      next
        fix err w2
        assume w2: "pointer_frame (root r) w1 w2 \<and>
          files w2 (pointer_at (root r)) = files w1 (pointer_at (root r)) \<and>
          (faulted w1 w2 \<or> \<not> json_pretty_total (env w1))"
        have "faulted w w2" if "faulted w1 w2"
          using faulted_extend_left [OF read_only_later that] w1 by blast
        then show "?R err w2"
          using w2 undisturbed_pointer_frame [OF s1(1,3) conjunct1 [OF w2]] s1 e True
          by (auto simp: rollback_failed_def)
      qed
      then show ?thesis
        using Some True e(2) by (simp add: runs_of_option runs_seq runs_return is_created_def)
    qed
  qed
qed


text \<open>
  Pruning removes exactly the created entries before the cutoff; when it fails, it may have
  removed fewer, and it never removed another.
\<close>

definition prune_failed :: "'db BackupRepository \<Rightarrow> datetime \<Rightarrow> 'db world \<Rightarrow> 'db world \<Rightarrow> bool" where
  "prune_failed r c w w' \<longleftrightarrow> kept r w w' \<and> faulted w w' \<and>
     files w' (pointer_at (root r)) = files w (pointer_at (root r)) \<and>
     (\<exists>P. rows w' = filter P (rows w) \<and> (\<forall>e \<in> set (rows w). \<not> doomed c e \<longrightarrow> P e))"

lemma prune_files:
  assumes inv: "invar w1" and w1: "db_only w w1" "events w1 = events w"
    and rok: "repo_ok (root r) (env w) (files w) (rows w)"
    and r1: "rows w1 = filter (\<lambda>e. \<not> doomed c e) (rows w)"
    and gone: "mset (map snd gone) = mset (map timestamp_dir (filter (doomed c) (rows w)))"
  shows "runs (for_each (\<lambda>(_, d). prune_dir r d) gone) w1
    (\<lambda>_ w'. kept r w w' \<and> files w' (pointer_at (root r)) = files w (pointer_at (root r)) \<and>
       rows w' = filter (\<lambda>e. \<not> doomed c e) (rows w) \<and>
       (faulted w w' \<or> (\<forall>e \<in> set (filter (doomed c) (rows w)).
          files w' (root r @ [''backups'', timestamp_dir e]) = None)))
    (\<lambda>_. prune_failed r c w)"
proof -
  have f1: "files w1 = files w" "env w1 = env w" "later w w1" "sent w1 = sent w"
    using w1 by (simp_all add: frame_defs)
  have dirs: "snd ` set gone = timestamp_dir ` set (filter (doomed c) (rows w))"
    using mset_eq_setD [OF gone] by simp
  have all: "(\<forall>g \<in> set gone. Q (snd g)) \<longleftrightarrow> (\<forall>e \<in> set (filter (doomed c) (rows w)). Q (timestamp_dir e))" for Q
    using arg_cong [OF dirs, of "\<lambda>S. \<forall>d \<in> S. Q d"] by (simp only: ball_simps)
  have "plain_name (timestamp_dir e)" if "e \<in> set (filter (doomed c) (rows w))" for e
    using that rok by (auto simp: repo_ok_def list_all_iff entry_ok_def doomed_def is_created_def entry_shape_CreatedD)
  then have pl: "\<forall>g \<in> set gone. plain_name (snd g)" unfolding all by blast
  have l: "layout (root r) (files w1)" using rok f1 by (simp add: repo_ok_def)
  have K: "kept r w w'" "files w' (pointer_at (root r)) = files w (pointer_at (root r))"
    "rows w' = filter (\<lambda>e. \<not> doomed c e) (rows w)"
    if pf: "prune_frame (root r) (snd ` set gone) w1 w'" for w'
  proof -
    have fo: "files_only w1 w'" using pf by (simp add: prune_frame_def)
    have "repo_ok (root r) (env w) (files w') (filter (\<lambda>e. \<not> doomed c e) (rows w))"
      using repo_ok_prune_frame [OF _ pf, of "env w" "rows w" c] rok dirs f1 by simp
    then show "kept r w w'" "files w' (pointer_at (root r)) = files w (pointer_at (root r))"
      "rows w' = filter (\<lambda>e. \<not> doomed c e) (rows w)"
      using view_files_only [OF inv fo] fo pf r1 w1(2) f1
      by (auto simp: kept_def frame_defs prune_frame_def)
  qed
  show ?thesis
  proof (rule runs_mono [OF runs_prune_dirs [OF l pl]], goal_cases)
    case (1 x w')
    then show ?case
      unfolding all [of "\<lambda>d. files w' (root r @ [''backups'', d]) = None"]
      using K [of w'] faulted_extend_left [OF f1(3), of w'] by blast
  next
    case (2 err w')
    then show ?case
      using K [of w'] faulted_extend_left [OF f1(3), of w'] by (auto simp: prune_failed_def)
  qed
qed

lemma runs_prune:
  assumes inv: "invar w" and st: "store r = st" and rok: "repo_ok (root r) (env w) (files w) (rows w)"
    and days: "0 < sint days" "minus_days (env w) (clock (env w) (step w)) days = Some c" "good_ts c"
  defines "t \<equiv> stored_ts (env w) c"
  shows "runs (prune_created_older_than_days r days) w
    (\<lambda>n w'. kept r w w' \<and> files w' (pointer_at (root r)) = files w (pointer_at (root r)) \<and>
       rows w' = filter (\<lambda>e. \<not> doomed t e) (rows w) \<and> n = length (filter (doomed t) (rows w)) \<and>
       (faulted w w' \<or> (\<forall>e \<in> set (filter (doomed t) (rows w)).
          files w' (root r @ [''backups'', timestamp_dir e]) = None)))
    (\<lambda>_. prune_failed r t w)"
  (is "runs _ _ ?Q ?R")
proof -
  define w1 where "w1 = w\<lparr>step := Suc (step w)\<rparr>"
  have w1: "read_only w w1" by (simp add: w1_def frame_defs)
  note v1 = view_read_only [OF inv w1]
  have f1: "env w1 = env w" "files w1 = files w" using w1 by (simp_all add: frame_defs)
  have "runs (prune_created_before st c) w1 (\<lambda>gone w2. runs (for_each (\<lambda>(_, d). prune_dir r d) gone) w2
      (\<lambda>_ w'. ?Q (length gone) w') ?R) ?R"
  proof (rule runs_mono [OF prune_law [OF v1(1) days(3)]])
    fix gone w2
    assume w2: "invar w2 \<and> db_only w1 w2 \<and> events w2 = events w1 \<and>
      rows w2 = filter (\<lambda>e. \<not> doomed (stored_ts (env w1) c) e) (rows w1) \<and>
      mset (map snd gone) = mset (map timestamp_dir (filter (doomed (stored_ts (env w1) c)) (rows w1)))"
    then have gone: "mset (map snd gone) = mset (map timestamp_dir (filter (doomed t) (rows w)))"
      using v1 f1 by (simp add: t_def)
    have a: "invar w2" "db_only w w2" "events w2 = events w" "rows w2 = filter (\<lambda>e. \<not> doomed t e) (rows w)"
      using w2 v1 f1 w1 by (simp_all add: t_def frame_defs)
    show "runs (for_each (\<lambda>(_, d). prune_dir r d) gone) w2 (\<lambda>_ w'. ?Q (length gone) w') ?R"
      by (rule runs_mono [OF prune_files [OF a(1-3) rok a(4) gone]])
         (use mset_eq_length [OF gone] in simp_all)
  next
    fix err w2
    assume w2: "invar w2 \<and> db_only w1 w2 \<and> events w2 = events w1 \<and> faulted w1 w2 \<and>
      (\<exists>P. rows w2 = filter P (rows w1) \<and>
        (\<forall>e \<in> set (rows w1). \<not> doomed (stored_ts (env w1) c) e \<longrightarrow> P e))"
    then have "faulted w w2" using faulted_extend_left [OF read_only_later [OF w1], of w2] by blast
    moreover obtain P where P: "rows w2 = filter P (rows w)" "\<forall>e \<in> set (rows w). \<not> doomed t e \<longrightarrow> P e"
      using w2 v1 f1 by (auto simp: t_def)
    ultimately have "kept r w w2"
      using w2 v1 f1 w1 repo_ok_filter [OF rok, of P] by (simp add: kept_def frame_defs)
    then show "?R err w2"
      using \<open>faulted w w2\<close> P w2 f1 unfolding prune_failed_def by (auto simp: frame_defs)
  qed
  then show ?thesis
    using days by (simp add: prune_created_older_than_days_def wp_simps st w1_def)
qed

end

end
