(* ===== verification/Example_World.thy ===== *)
theory Example_World
  imports Repository_Laws "HOL-Library.Countable"
begin

text \<open>
  A concrete environment and concrete worlds. They show that the hypotheses on the crates can
  hold together, and the witnesses apply the theorems to them. Timestamps are decimal text of
  fixed width, so that their order as text is their order in time; a UUID is its decimal number;
  a JSON document is its number in an enumeration of all documents. From step 1000 on the clock
  has moved on by a hundred days; after a million steps it stands still.
\<close>

section \<open>Text of fixed width\<close>

fun fixed_width :: "nat \<Rightarrow> nat \<Rightarrow> string" where
  "fixed_width 0 n = []"
| "fixed_width (Suc k) n = digit_char (n div 10 ^ k) # fixed_width k (n mod 10 ^ k)"

definition epoch_offset :: int where
  "epoch_offset = 62167219200 * 10 ^ 9"

instance json_number :: countable
  by countable_datatype

instance json :: countable
  by countable_datatype

section \<open>The environment\<close>

definition demo_collection :: collection where
  "demo_collection =
     \<lparr>col_cards = Some [SqlInteger 1, SqlInteger 1, SqlInteger 7], col_cards_has_did = True,
      col_notes = Some 2, col_revlog = Some 5,
      col_decks_table = Some [(SqlInteger 1, SqlText ''Default'')], col_decks_json = None\<rparr>"

text \<open>A server that sends the client from \<open>meta\<close> on to another host.\<close>

definition demo_ok :: "bytes \<Rightarrow> http_response option" where
  "demo_ok body = Some \<lparr>resp_status = 200, resp_location = None, resp_body = body\<rparr>"

definition demo_document :: "json \<Rightarrow> bytes" where
  "demo_document j = as_bytes (show_nat (to_nat j))"

definition demo_reply :: "http_request \<Rightarrow> http_response option" where
  "demo_reply req =
     (if req_url req = ''https://sync.ankiweb.net/sync/hostKey''
      then demo_ok (demo_document (JObject [(''key'', JString ''k'')]))
      else if req_url req = ''https://sync.ankiweb.net/sync/meta''
      then Some \<lparr>resp_status = 308, resp_location = Some ''https://sync7.ankiweb.net/'', resp_body = []\<rparr>
      else if req_url req = ''https://sync7.ankiweb.net/sync/meta'' then demo_ok (demo_document (JObject []))
      else if req_url req = ''https://sync7.ankiweb.net/sync/download'' then demo_ok [0x28, 0xb5, 0x2f, 0xfd, 1, 2, 3]
      else if req_url req = ''https://sync7.ankiweb.net/sync/upload'' then demo_ok []
      else Some \<lparr>resp_status = 404, resp_location = None, resp_body = []\<rparr>)"

definition demo_env :: env where
  "demo_env =
     \<lparr>clock = (\<lambda>k. (1700000000 + int (min k 1000000) + (if k < 1000 then 0 else 8640000)) * 10 ^ 9),
      fresh_uuid = of_nat,
      random_u32 = (\<lambda>k. of_nat (7 * k)),
      elapsed_ms = (\<lambda>a b. b - a),
      fault_at = (\<lambda>_. None),
      row_order = (\<lambda>_ n. [0..<n]),
      http_reply = (\<lambda>_. demo_reply),
      sha256 = (\<lambda>content. content),
      hex_encode = map (\<lambda>b. char_of (unat b)),
      uuid_to_string = (\<lambda>u. show_nat (unat u)),
      uuid_parse_str = (\<lambda>s. map_option of_nat (parse_digits 0 s)),
      to_rfc3339 = (\<lambda>t. fixed_width 21 (nat (t + epoch_offset))),
      parse_from_rfc3339 = (\<lambda>s. map_option (\<lambda>n. int n - epoch_offset) (parse_digits 0 s)),
      to_rfc3339_secs = (\<lambda>t. fixed_width 12 (nat ((t + epoch_offset) div 10 ^ 9))),
      serde_datetime = (\<lambda>t. fixed_width 21 (nat (t + epoch_offset))),
      format_datetime = (\<lambda>t. fixed_width 12 (nat ((t + epoch_offset) div 10 ^ 9))),
      minute = (\<lambda>t. of_int (t div (60 * 10 ^ 9) mod 60)),
      second = (\<lambda>t. of_int (t div 10 ^ 9 mod 60)),
      num_seconds = (\<lambda>d. if 0 \<le> d then d div 10 ^ 9 else - (- d div 10 ^ 9)),
      minus_days = (\<lambda>t d. Some (t - sint d * 86400 * 10 ^ 9)),
      pg_timestamp = (\<lambda>t. t div 1000 * 1000),
      pg_uuid_text = (\<lambda>u. show_nat (unat u)),
      json_to_string = (\<lambda>j. Some (show_nat (to_nat j))),
      json_to_string_pretty = (\<lambda>j. Some (show_nat (to_nat j))),
      json_from_str = (\<lambda>s. map_option from_nat (parse_digits 0 s)),
      open_collection = (\<lambda>content. if content = [] then None else Some demo_collection),
      header_to_str = Some,
      status_text = show_nat,
      response_text = map (\<lambda>b. char_of (unat b)),
      tar_single_file = (\<lambda>name content. Some content),
      zstd_encode = (\<lambda>content. Some (0x28 # 0xb5 # 0x2f # 0xfd # content)),
      zstd_decode = (\<lambda>content. if take 4 content = [0x28, 0xb5, 0x2f, 0xfd] then Some (drop 4 content) else None)\<rparr>"

section \<open>The worlds\<close>

definition demo_root :: path where
  "demo_root = [''data'']"

definition demo_files :: file_system where
  "demo_files = mk_dirs (demo_root @ [''state'']) (mk_dirs (demo_root @ [''backups'']) (\<lambda>_. None))"

definition demo_world :: "env \<Rightarrow> 'db \<Rightarrow> 'db world" where
  "demo_world E d = \<lparr>files = demo_files, db = d, step = 0, env = E, sent = []\<rparr>"

definition demo_sqlite :: sqlite_db where
  "demo_sqlite = \<lparr>backups_table = Some [], rollback_events_table = Some []\<rparr>"

definition demo_pg :: pg_db where
  "demo_pg = \<lparr>pg_backups = Some [], pg_rollback_events = Some []\<rparr>"

definition demo_sqlite_repo :: "sqlite_db BackupRepository" where
  "demo_sqlite_repo = \<lparr>root = demo_root, store = sqlite_store\<rparr>"

definition demo_pg_repo :: "pg_db BackupRepository" where
  "demo_pg_repo = \<lparr>root = demo_root, store = postgres_store\<rparr>"

definition demo_payload :: BackupPayload where
  "demo_payload = \<lparr>payload_bytes = [1, 2, 3], payload_source_revision = None, payload_sync_duration_ms = None\<rparr>"

definition demo_hash :: string where
  "demo_hash = content_hash (sha256 demo_env) (hex_encode demo_env) [1, 2, 3]"

section \<open>Lemmas\<close>

lemma demo_payload_bytes [simp]: "payload_bytes demo_payload = [1, 2, 3]"
  by (simp add: demo_payload_def)

lemma demo_repo_root [simp]: "root demo_sqlite_repo = demo_root" "root demo_pg_repo = demo_root"
  by (simp_all add: demo_sqlite_repo_def demo_pg_repo_def)

lemma parse_digits_fixed_width:
  "n < 10 ^ k \<Longrightarrow> parse_digits acc (fixed_width k n) = Some (acc * 10 ^ k + n)"
proof (induction k arbitrary: acc n)
  case (Suc k)
  have "n div 10 ^ k < 10" using Suc.prems by (simp add: less_mult_imp_div_less mult.commute)
  then have "parse_digits acc (fixed_width (Suc k) n) =
      Some ((acc * 10 + n div 10 ^ k) * 10 ^ k + n mod 10 ^ k)"
    using Suc.IH [of "n mod 10 ^ k"] by simp
  also have "(acc * 10 + n div 10 ^ k) * 10 ^ k + n mod 10 ^ k = acc * 10 ^ Suc k + n"
    by (simp add: algebra_simps)
  finally show ?case .
qed simp

lemma digit_char_less: "a < b \<Longrightarrow> b < 10 \<Longrightarrow> digit_char a < digit_char b"
  by (simp add: digit_char_def less_char_def)

lemma fixed_width_less:
  "n < m \<Longrightarrow> m < 10 ^ k \<Longrightarrow> fixed_width k n < fixed_width k m"
proof (induction k arbitrary: n m)
  case (Suc k)
  have m: "m div 10 ^ k < 10" using Suc.prems(2) by (simp add: less_mult_imp_div_less mult.commute)
  show ?case
  proof (cases "n div 10 ^ k = m div 10 ^ k")
    case True
    then have "n mod 10 ^ k < m mod 10 ^ k"
      using Suc.prems(1) by (metis div_mult_mod_eq nat_add_left_cancel_less)
    then show ?thesis using True Suc.IH by simp
  next
    case False
    then have "n div 10 ^ k < m div 10 ^ k" using Suc.prems(1) by (simp add: div_le_mono le_neq_implies_less)
    then show ?thesis using m by (simp add: digit_char_less)
  qed
qed simp

lemma fixed_width_digits: "n < 10 ^ k \<Longrightarrow> c \<in> set (fixed_width k n) \<Longrightarrow> \<exists>d < 10. c = digit_char d"
proof (induction k arbitrary: n)
  case (Suc k)
  have "n div 10 ^ k < 10" using Suc.prems(1) by (simp add: less_mult_imp_div_less mult.commute)
  then show ?case using Suc.prems(2) Suc.IH [of "n mod 10 ^ k"] by auto
qed simp

lemma ts_window_nat:
  assumes "ts_window t"
  shows "0 \<le> t + epoch_offset" "nat (t + epoch_offset) < 10 ^ 21"
    "nat ((t + epoch_offset) div 10 ^ 9) < 10 ^ 12"
proof -
  have t: "0 \<le> t + epoch_offset" "t + epoch_offset < 10 ^ 21"
    using assms by (simp_all add: ts_window_def epoch_offset_def)
  then have "(t + epoch_offset) div 10 ^ 9 < 10 ^ 12" by (simp add: div_less_iff_less_mult)
  then show "0 \<le> t + epoch_offset" "nat (t + epoch_offset) < 10 ^ 21"
    "nat ((t + epoch_offset) div 10 ^ 9) < 10 ^ 12"
    using t nat_less_iff [of "t + epoch_offset"] nat_less_iff [of "(t + epoch_offset) div 10 ^ 9"]
    by (simp_all add: pos_imp_zdiv_nonneg_iff)
qed

lemma demo_uuid_codec: "uuid_codec demo_env"
  by (simp add: uuid_codec_def demo_env_def)

lemma demo_rfc3339_codec: "rfc3339_codec demo_env"
proof -
  have "parse_digits 0 (fixed_width 21 (nat (t + epoch_offset))) = Some (nat (t + epoch_offset))"
    if "ts_window t" for t
    using parse_digits_fixed_width [OF ts_window_nat(2) [OF that], of 0] by simp
  then show ?thesis
    using ts_window_nat(1) by (auto simp: rfc3339_codec_def demo_env_def)
qed

lemma demo_rfc3339_ordered: "rfc3339_ordered demo_env"
proof -
  have "fixed_width 21 (nat (t + epoch_offset)) < fixed_width 21 (nat (u + epoch_offset))"
    if "ts_window t" "ts_window u" "t < u" for t u
    by (rule fixed_width_less [OF _ ts_window_nat(2) [OF that(2)]])
       (use that ts_window_nat(1) [OF that(1)] in simp)
  then show ?thesis by (simp add: rfc3339_ordered_def demo_env_def)
qed

lemma demo_stats_json_codec: "stats_json_codec demo_env"
  by (simp add: stats_json_codec_def demo_env_def)

lemma demo_row_order_ok: "row_order_ok demo_env"
  by (simp add: row_order_ok_def demo_env_def)

lemma demo_pg_timestamp_mono: "pg_timestamp_mono demo_env"
  by (simp add: pg_timestamp_mono_def demo_env_def zdiv_mono1)

lemma demo_json_pretty_total: "json_pretty_total demo_env"
  by (simp add: json_pretty_total_def demo_env_def)

lemma fixed_width_chars:
  assumes "n < 10 ^ k" "c \<in> set (fixed_width k n)"
  shows "c \<noteq> CHR ''/'' \<and> c \<noteq> CHR ''.'' \<and> c \<noteq> CHR '':''"
proof -
  have "digit_char d \<noteq> CHR ''/''" "digit_char d \<noteq> CHR ''.''" "digit_char d \<noteq> CHR '':''" if "d < 10" for d
    using that digit_value_digit_char [OF that] by (auto simp: digit_value_def)
  then show ?thesis using fixed_width_digits [OF assms] by auto
qed

lemma replace_fixed_width:
  assumes "n < 10 ^ k"
  shows "replace_char (CHR '':'') (CHR ''-'') (fixed_width k n) = fixed_width k n"
  unfolding replace_char_def
proof (rule map_idI)
  fix c assume "c \<in> set (fixed_width k n)"
  then have "c \<noteq> CHR '':''" using fixed_width_chars [OF assms] by blast
  then show "(if c = CHR '':'' then CHR ''-'' else c) = c" by simp
qed

lemma plain_fixed_width:
  assumes "n < 10 ^ k" "0 < k"
  shows "plain_name (replace_char (CHR '':'') (CHR ''-'') (fixed_width k n))"
proof -
  have "fixed_width k n \<noteq> []" using assms(2) by (cases k) simp_all
  moreover have "CHR ''/'' \<notin> set (fixed_width k n)" "CHR ''.'' \<notin> set (fixed_width k n)"
    using fixed_width_chars [OF assms(1)] by blast+
  ultimately show ?thesis unfolding replace_fixed_width [OF assms(1)] plain_name_def by auto
qed

lemma fixed_width_inj:
  assumes "a < 10 ^ k" "b < 10 ^ k" "fixed_width k a = fixed_width k b"
  shows "a = b"
proof -
  have "Some (0 * 10 ^ k + a) = Some (0 * 10 ^ k + b)"
    using parse_digits_fixed_width [OF assms(1), of 0] parse_digits_fixed_width [OF assms(2), of 0]
    unfolding assms(3) by (rule trans [OF sym])
  then show ?thesis by simp
qed

lemma demo_dir_names_plain: "dir_names_plain demo_env"
proof -
  have "plain_name (replace_char (CHR '':'') (CHR ''-'') (fixed_width 12 (nat ((t + epoch_offset) div 10 ^ 9))))"
    if "ts_window t" for t
    using plain_fixed_width [OF ts_window_nat(3) [OF that]] by simp
  then show ?thesis by (simp add: dir_names_plain_def demo_env_def)
qed

lemmas demo_hypotheses = demo_uuid_codec demo_rfc3339_codec demo_rfc3339_ordered demo_stats_json_codec
  demo_row_order_ok demo_pg_timestamp_mono demo_json_pretty_total demo_dir_names_plain

lemma demo_sqlite_libs: "sqlite_libs demo_env"
  by (simp add: sqlite_libs_def demo_hypotheses)

lemma demo_pg_libs: "pg_libs demo_env"
  by (simp add: pg_libs_def demo_hypotheses)

lemma demo_layout: "layout demo_root demo_files"
  by (auto simp: layout_def demo_root_def demo_files_def mk_dirs_def is_file_def)

lemma demo_world_simps [simp]:
  "files (demo_world E d) = demo_files" "db (demo_world E d) = d" "step (demo_world E d) = 0"
  "env (demo_world E d) = E" "sent (demo_world E d) = []"
  by (simp_all add: demo_world_def)

lemma demo_sqlite_empty: "sqlite_rows (demo_world E demo_sqlite) = []" "sqlite_events (demo_world E demo_sqlite) = []"
  by (simp_all add: sqlite_rows_def sqlite_events_def demo_sqlite_def)

lemma demo_pg_empty: "pg_rows (demo_world E demo_pg) = []" "pg_events (demo_world E demo_pg) = []"
  by (simp_all add: pg_rows_def pg_events_def demo_pg_def)

lemma demo_repo_ok: "repo_ok demo_root E demo_files []"
  by (simp add: repo_ok_def demo_layout created_dirs_def)

lemma demo_sqlite_inv: "sqlite_inv (demo_world demo_env demo_sqlite)"
  by (simp add: sqlite_inv_def sqlite_tables_def demo_sqlite_libs demo_sqlite_def)

lemma demo_pg_inv: "pg_inv (demo_world demo_env demo_pg)"
  by (simp add: pg_inv_def pg_tables_def demo_pg_libs demo_pg_def)

lemma demo_clock: "ts_window (clock demo_env k)"
  by (simp add: demo_env_def ts_window_def min_def)

lemma demo_readable: "readable demo_env [1, 2, 3]"
  by (simp add: readable_def demo_env_def demo_collection_def collection_ok_def is_sql_integer_def deck_row_ok_def)

lemma demo_quiet: "quiet (demo_world demo_env d)"
  by (simp add: quiet_def demo_env_def)

end
