(* ===== verification/Store_Simulation.thy ===== *)
theory Store_Simulation
  imports Example_World
begin

text \<open>
  An abstract store is a list of entries. \<open>spec_op\<close> says what each operation of the trait
  \<open>MetadataStore\<close> does to it, and the simulation shows that a lawful store gives, for every
  sequence of operations, the answers of the abstract one as long as no call fails. Both backends
  are lawful, so that they answer alike.
\<close>

section \<open>Operations and answers\<close>

datatype store_op = OpInsert BackupEntry | OpGet uuid | OpPrune datetime

datatype answer = Done | Refused | Found "BackupEntry option" | Pruned nat

fun exec_op :: "'db MetadataStore \<Rightarrow> store_op \<Rightarrow> 'db world \<Rightarrow> answer \<times> 'db world" where
  "exec_op st (OpInsert e) w =
     (case insert_entry st e w of (Inl _, w') \<Rightarrow> (Refused, w') | (Inr _, w') \<Rightarrow> (Done, w'))"
| "exec_op st (OpGet u) w =
     (case get_backup st u w of (Inl _, w') \<Rightarrow> (Refused, w') | (Inr r, w') \<Rightarrow> (Found r, w'))"
| "exec_op st (OpPrune c) w =
     (case prune_created_before st c w of (Inl _, w') \<Rightarrow> (Refused, w') | (Inr r, w') \<Rightarrow> (Pruned (length r), w'))"

fun exec_ops :: "'db MetadataStore \<Rightarrow> store_op list \<Rightarrow> 'db world \<Rightarrow> answer list \<times> 'db world" where
  "exec_ops st [] w = ([], w)"
| "exec_ops st (op # ops) w =
     (case exec_op st op w of (a, w1) \<Rightarrow> case exec_ops st ops w1 of (as, w2) \<Rightarrow> (a # as, w2))"

section \<open>The abstract store\<close>

fun spec_op :: "(datetime \<Rightarrow> datetime) \<Rightarrow> store_op \<Rightarrow> BackupEntry list \<Rightarrow> answer \<times> BackupEntry list" where
  "spec_op ts (OpInsert e) es =
     (if backup_id e \<in> ids_of es then (Refused, es) else (Done, es @ [with_ts (ts (created_at e)) e]))"
| "spec_op ts (OpGet u) es = (Found (find (\<lambda>e. backup_id e = u) es), es)"
| "spec_op ts (OpPrune c) es =
     (Pruned (length (filter (doomed (ts c)) es)), filter (\<lambda>e. \<not> doomed (ts c) e) es)"

fun spec_ops :: "(datetime \<Rightarrow> datetime) \<Rightarrow> store_op list \<Rightarrow> BackupEntry list \<Rightarrow> answer list \<times> BackupEntry list" where
  "spec_ops ts [] es = ([], es)"
| "spec_ops ts (op # ops) es =
     (case spec_op ts op es of (a, es1) \<Rightarrow> case spec_ops ts ops es1 of (as, es2) \<Rightarrow> (a # as, es2))"

fun op_ts :: "store_op \<Rightarrow> datetime list" where
  "op_ts (OpInsert e) = [created_at e]"
| "op_ts (OpGet u) = []"
| "op_ts (OpPrune c) = [c]"

section \<open>The simulation\<close>

context metadata_store_laws
begin

lemma exec_op_simulates:
  assumes "invar w" "quiet w" "list_all good_ts (op_ts op)"
  shows "invar (snd (exec_op st op w)) \<and> later w (snd (exec_op st op w)) \<and>
    (fst (exec_op st op w), rows (snd (exec_op st op w))) = spec_op (stored_ts (env w)) op (rows w)"
proof (cases op)
  case (OpInsert e)
  have "runs (insert_entry st e) w
    (\<lambda>_ w'. invar w' \<and> later w w' \<and> (Done, rows w') = spec_op (stored_ts (env w)) op (rows w))
    (\<lambda>_ w'. invar w' \<and> later w w' \<and> (Refused, rows w') = spec_op (stored_ts (env w)) op (rows w))"
    by (rule runs_mono [OF insert_entry_law [OF assms(1)]])
       (use OpInsert assms quiet_not_faulted [OF assms(2)] in \<open>auto simp: db_only_def\<close>)
  then show ?thesis using OpInsert by (auto simp: runs_def split: prod.splits sum.splits if_splits)
next
  case (OpGet u)
  have "runs (get_backup st u) w
    (\<lambda>r w'. invar w' \<and> later w w' \<and> (Found r, rows w') = spec_op (stored_ts (env w)) op (rows w)) (\<lambda>_ _. False)"
  proof (rule runs_mono [OF get_backup_law [OF assms(1)]])
    fix r w'
    assume "read_only w w' \<and> r = find (\<lambda>e. backup_id e = u) (rows w)"
    then show "invar w' \<and> later w w' \<and> (Found r, rows w') = spec_op (stored_ts (env w)) op (rows w)"
      using OpGet view_read_only [OF assms(1), of w'] by (simp add: read_only_later)
  qed (use quiet_not_faulted [OF assms(2)] in blast)
  then show ?thesis using OpGet by (auto simp: runs_def split: prod.splits sum.splits)
next
  case (OpPrune c)
  have "runs (prune_created_before st c) w
    (\<lambda>r w'. invar w' \<and> later w w' \<and> (Pruned (length r), rows w') = spec_op (stored_ts (env w)) op (rows w))
    (\<lambda>_ _. False)"
  proof (rule runs_mono [OF prune_law [OF assms(1)]])
    fix r w'
    assume w': "invar w' \<and> db_only w w' \<and> events w' = events w \<and>
      rows w' = filter (\<lambda>e. \<not> doomed (stored_ts (env w) c) e) (rows w) \<and>
      mset (map snd r) = mset (map timestamp_dir (filter (doomed (stored_ts (env w) c)) (rows w)))"
    then have "length r = length (filter (doomed (stored_ts (env w) c)) (rows w))"
      by (metis length_map mset_eq_length)
    then show "invar w' \<and> later w w' \<and> (Pruned (length r), rows w') = spec_op (stored_ts (env w)) op (rows w)"
      using w' OpPrune by (simp add: db_only_def)
  qed (use OpPrune assms quiet_not_faulted [OF assms(2)] in auto)
  then show ?thesis using OpPrune by (auto simp: runs_def split: prod.splits sum.splits)
qed

lemma exec_ops_simulates:
  assumes "invar w" "quiet w" "list_all good_ts (concat (map op_ts ops))"
  shows "(fst (exec_ops st ops w), rows (snd (exec_ops st ops w))) = spec_ops (stored_ts (env w)) ops (rows w)"
  using assms
proof (induction ops arbitrary: w)
  case (Cons op ops)
  let ?w1 = "snd (exec_op st op w)"
  have one: "invar ?w1" "later w ?w1"
    "(fst (exec_op st op w), rows ?w1) = spec_op (stored_ts (env w)) op (rows w)"
    using exec_op_simulates [OF Cons.prems(1,2), of op] Cons.prems(3) by simp_all
  have rest: "(fst (exec_ops st ops ?w1), rows (snd (exec_ops st ops ?w1))) =
      spec_ops (stored_ts (env w)) ops (rows ?w1)"
    using Cons.IH [OF one(1) quiet_later [OF Cons.prems(2) one(2)]] Cons.prems(3) one(2)
    by (simp add: later_def)
  show ?case
    using rest by (simp add: one(3) [symmetric] split_def) (metis fst_conv snd_conv)
qed simp

end

section \<open>The backends\<close>









end
