(* ===== verification/Repository_Facts.thy ===== *)
theory Repository_Facts
  imports Example_World
begin

text \<open>
  What \<open>BackupRepository\<close> guarantees on each of its two backends: the lemmas of
  \<open>Repository_Laws\<close> through the interpretations \<open>sqlite\<close> and \<open>pg\<close>, with their statements written
  out over the model. \<open>sqlite_repo\<close> and \<open>pg_repo\<close> are the invariant of a repository: the tables
  decode, and every created entry has its payload on disk, with its hash, size and statistics.
\<close>

section \<open>The invariant of a repository\<close>

definition sqlite_repo :: "sqlite_db BackupRepository \<Rightarrow> sqlite_db world \<Rightarrow> bool" where
  "sqlite_repo r w \<longleftrightarrow> store r = sqlite_store \<and> sqlite_inv w \<and>
     repo_ok (root r) (env w) (files w) (sqlite_rows w)"

definition pg_repo :: "pg_db BackupRepository \<Rightarrow> pg_db world \<Rightarrow> bool" where
  "pg_repo r w \<longleftrightarrow> store r = postgres_store \<and> pg_inv w \<and>
     repo_ok (root r) (env w) (files w) (pg_rows w)"

text \<open>No created entry has the directory name of the second in which a run starts at step \<open>k\<close>.\<close>

definition fresh_second :: "env \<Rightarrow> nat \<Rightarrow> BackupEntry list \<Rightarrow> bool" where
  "fresh_second E k es \<longleftrightarrow> format_timestamp_dir E (clock E k) \<notin> set (created_dirs es)"

text \<open>What a run is called with: the hash of its payload, at a representable time.\<close>

definition run_ready :: "'db world \<Rightarrow> BackupEntry list \<Rightarrow> BackupPayload \<Rightarrow> string \<Rightarrow> bool" where
  "run_ready w es payload hash \<longleftrightarrow>
     hash = content_hash (sha256 (env w)) (hex_encode (env w)) (payload_bytes payload) \<and>
     ts_window (clock (env w) (step w)) \<and> dir_names_plain (env w) \<and> fresh_second (env w) (step w) es"

text \<open>No id drawn from step \<open>k\<close> on is taken.\<close>

definition ids_fresh :: "env \<Rightarrow> nat \<Rightarrow> uuid set \<Rightarrow> bool" where
  "ids_fresh E k ids \<longleftrightarrow> (\<forall>j \<ge> k. fresh_uuid E j \<notin> ids)"

section \<open>Lemmas\<close>

lemma ids_fresh_no_clash: "ids_fresh (env w) (step w) ids \<Longrightarrow> \<not> id_clash ids w w'"
  by (auto simp: ids_fresh_def id_clash_def)

lemma run_ready_dir:
  "run_ready w es payload hash \<Longrightarrow> plain_name (format_timestamp_dir (env w) (clock (env w) (step w)))"
  by (simp add: run_ready_def dir_names_plain_def format_timestamp_dir_def)

lemma sqlite_run_once_law:
  assumes "sqlite_repo r w" "run_ready w (sqlite_rows w) payload hash"
  shows "runs (run_once r payload hash) w
    (\<lambda>out w'. sqlite.kept r w w' \<and> outcome_ok (env w) (root r) payload hash (clock (env w) (step w))
       (clock (env w) (step w)) (sqlite_rows w) (files w) out (sqlite_rows w') (files w'))
    (\<lambda>_. sqlite.run_failed r payload hash (clock (env w) (step w)) w)"
proof (rule sqlite.runs_run_once [OF _ _ _ _ _ refl])
  show "sqlite_inv w" "store r = sqlite_store" "repo_ok (root r) (env w) (files w) (sqlite_rows w)"
    using assms(1) by (simp_all add: sqlite_repo_def)
  then show "row_order_ok (env w)" by (simp add: sqlite_inv_def sqlite_libs_def)
qed (use assms(2) run_ready_dir [OF assms(2)] in \<open>auto simp: run_ready_def fresh_second_def\<close>)

lemma pg_run_once_law:
  assumes "pg_repo r w" "run_ready w (pg_rows w) payload hash"
  shows "runs (run_once r payload hash) w
    (\<lambda>out w'. pg.kept r w w' \<and> outcome_ok (env w) (root r) payload hash (clock (env w) (step w))
       (pg_timestamp (env w) (clock (env w) (step w))) (pg_rows w) (files w) out (pg_rows w') (files w'))
    (\<lambda>_. pg.run_failed r payload hash (clock (env w) (step w)) w)"
proof (rule pg.runs_run_once [OF _ _ _ _ _ refl])
  show "pg_inv w" "store r = postgres_store" "repo_ok (root r) (env w) (files w) (pg_rows w)"
    using assms(1) by (simp_all add: pg_repo_def)
  then show "row_order_ok (env w)" by (simp add: pg_inv_def pg_libs_def)
qed (use assms(2) run_ready_dir [OF assms(2)] in \<open>auto simp: run_ready_def fresh_second_def\<close>)

lemma sqlite_repo_kept: "sqlite_repo r w \<Longrightarrow> sqlite.kept r w w' \<Longrightarrow> sqlite_repo r w'"
  by (auto simp: sqlite_repo_def sqlite.kept_def later_def)

lemma pg_repo_kept: "pg_repo r w \<Longrightarrow> pg.kept r w w' \<Longrightarrow> pg_repo r w'"
  by (auto simp: pg_repo_def pg.kept_def later_def)

lemma sqlite_repo_undisturbed: "sqlite_repo r w \<Longrightarrow> sqlite.undisturbed r w w' \<Longrightarrow> sqlite_repo r w'"
  by (auto simp: sqlite_repo_def sqlite.undisturbed_def later_def)

lemma pg_repo_undisturbed: "pg_repo r w \<Longrightarrow> pg.undisturbed r w w' \<Longrightarrow> pg_repo r w'"
  by (auto simp: pg_repo_def pg.undisturbed_def later_def)

lemma demo_sqlite_repo_ok: "sqlite_repo demo_sqlite_repo (demo_world demo_env demo_sqlite)"
  by (simp add: sqlite_repo_def demo_sqlite_repo_def demo_sqlite_inv demo_sqlite_empty demo_repo_ok)

lemma demo_pg_repo_ok: "pg_repo demo_pg_repo (demo_world demo_env demo_pg)"
  by (simp add: pg_repo_def demo_pg_repo_def demo_pg_inv demo_pg_empty demo_repo_ok)

lemma demo_run_ready: "run_ready (demo_world demo_env d) [] demo_payload demo_hash"
  using demo_clock [of 0] by (simp add: run_ready_def demo_hash_def demo_hypotheses fresh_second_def created_dirs_def)

lemma demo_ids_fresh: "ids_fresh demo_env k {}"
  by (simp add: ids_fresh_def)

section \<open>Runs\<close>

text \<open>C2. Whatever call fails during a run, cleanly or torn, the repository on SQLite stays intact:
  every created entry still has its complete payload.\<close>

theorem sqlite_run_once_safe:
  assumes "sqlite_repo r w" "run_ready w (sqlite_rows w) payload hash"
  shows "sqlite_repo r (snd (run_once r payload hash w))"
  by (rule runs_sndD, rule runs_mono [OF sqlite_run_once_law [OF assms]])
     (auto simp: sqlite.run_failed_def intro: sqlite_repo_kept [OF assms(1)])

theorem sqlite_run_once_safe_witness:
  "sqlite_repo demo_sqlite_repo (snd (run_once demo_sqlite_repo demo_payload
     demo_hash (demo_world demo_env demo_sqlite)))"
  by (rule sqlite_run_once_safe [OF demo_sqlite_repo_ok]) (simp add: demo_sqlite_empty demo_run_ready)

text \<open>C11. The same on Postgres.\<close>

theorem pg_run_once_safe:
  assumes "pg_repo r w" "run_ready w (pg_rows w) payload hash"
  shows "pg_repo r (snd (run_once r payload hash w))"
  by (rule runs_sndD, rule runs_mono [OF pg_run_once_law [OF assms]])
     (auto simp: pg.run_failed_def intro: pg_repo_kept [OF assms(1)])

theorem pg_run_once_safe_witness:
  "pg_repo demo_pg_repo (snd (run_once demo_pg_repo demo_payload
     demo_hash (demo_world demo_env demo_pg)))"
  by (rule pg_run_once_safe [OF demo_pg_repo_ok]) (simp add: demo_pg_empty demo_run_ready)

text \<open>C3. A run that succeeds records content whose hash is that of the newest backup as skipped and
  touches no file; all other content becomes a backup with its payload on disk, and the pointer
  names it.\<close>

theorem sqlite_run_once_outcome:
  assumes "sqlite_repo r w" "run_ready w (sqlite_rows w) payload hash"
  shows "runs (run_once r payload hash) w
    (\<lambda>out w'. outcome_ok (env w) (root r) payload hash (clock (env w) (step w)) (clock (env w) (step w))
       (sqlite_rows w) (files w) out (sqlite_rows w') (files w'))
    (\<lambda>_ _. True)"
  by (rule runs_mono [OF sqlite_run_once_law [OF assms]]) simp_all

theorem sqlite_run_once_outcome_witness:
  "runs (run_once demo_sqlite_repo demo_payload
     demo_hash) (demo_world demo_env demo_sqlite)
    (\<lambda>out w'. outcome_ok demo_env demo_root demo_payload
       demo_hash (clock demo_env 0) (clock demo_env 0)
       [] demo_files out (sqlite_rows w') (files w'))
    (\<lambda>_ _. True)"
  using sqlite_run_once_outcome [OF demo_sqlite_repo_ok, unfolded demo_sqlite_empty, OF demo_run_ready]
  by simp

text \<open>C12. The same on Postgres, where the entry is stored at the resolution of the database.\<close>

theorem pg_run_once_outcome:
  assumes "pg_repo r w" "run_ready w (pg_rows w) payload hash"
  shows "runs (run_once r payload hash) w
    (\<lambda>out w'. outcome_ok (env w) (root r) payload hash (clock (env w) (step w))
       (pg_timestamp (env w) (clock (env w) (step w))) (pg_rows w) (files w) out (pg_rows w') (files w'))
    (\<lambda>_ _. True)"
  by (rule runs_mono [OF pg_run_once_law [OF assms]]) simp_all

theorem pg_run_once_outcome_witness:
  "runs (run_once demo_pg_repo demo_payload
     demo_hash) (demo_world demo_env demo_pg)
    (\<lambda>out w'. outcome_ok demo_env demo_root demo_payload
       demo_hash (clock demo_env 0)
       (pg_timestamp demo_env (clock demo_env 0)) [] demo_files out (pg_rows w') (files w'))
    (\<lambda>_ _. True)"
  using pg_run_once_outcome [OF demo_pg_repo_ok, unfolded demo_pg_empty, OF demo_run_ready]
  by simp

text \<open>C13. A run that fails never moves the pointer, and it either left the entries alone or added
  the one entry of this run.\<close>

theorem sqlite_run_once_error:
  assumes "sqlite_repo r w" "run_ready w (sqlite_rows w) payload hash"
  shows "runs (run_once r payload hash) w (\<lambda>_ _. True)
    (\<lambda>_ w'. files w' (pointer_at (root r)) = files w (pointer_at (root r)) \<and>
       (sqlite_rows w' = sqlite_rows w \<or>
        (\<exists>e. sqlite_rows w' = sqlite_rows w @ [with_ts (clock (env w) (step w)) e] \<and> entry_hash e = hash)))"
  by (rule runs_mono [OF sqlite_run_once_law [OF assms]]) (auto simp: sqlite.run_failed_def)

theorem sqlite_run_once_error_witness:
  "runs (run_once demo_sqlite_repo demo_payload
     demo_hash) (demo_world demo_env demo_sqlite)
    (\<lambda>_ _. True)
    (\<lambda>_ w'. files w' (pointer_at demo_root) = demo_files (pointer_at demo_root) \<and>
       (sqlite_rows w' = [] \<or> (\<exists>e. sqlite_rows w' = [with_ts (clock demo_env 0) e] \<and>
          entry_hash e = demo_hash)))"
  using sqlite_run_once_error [OF demo_sqlite_repo_ok, unfolded demo_sqlite_empty, OF demo_run_ready]
  by simp

text \<open>C14. Progress: when no call fails, the drawn ids are new and the payload is a readable
  collection, the run returns an outcome.\<close>

theorem sqlite_run_once_completes:
  assumes "sqlite_repo r w" "run_ready w (sqlite_rows w) payload hash" "quiet w"
    and "ids_fresh (env w) (step w) (ids_of (sqlite_rows w))"
    and "json_pretty_total (env w)" "readable (env w) (payload_bytes payload)"
  shows "\<exists>out w'. run_once r payload hash w = (Inr out, w')"
proof -
  have "runs (run_once r payload hash) w (\<lambda>_ _. True) (\<lambda>_ _. False)"
    by (rule runs_mono [OF sqlite_run_once_law [OF assms(1,2)]])
       (use assms quiet_not_faulted [OF assms(3)] ids_fresh_no_clash [OF assms(4)] in
        \<open>auto simp: sqlite.run_failed_def\<close>)
  then show ?thesis by (elim runs_no_errorE) blast
qed

theorem sqlite_run_once_completes_witness:
  "\<exists>out w'. run_once demo_sqlite_repo demo_payload
     demo_hash (demo_world demo_env demo_sqlite) = (Inr out, w')"
  by (rule sqlite_run_once_completes [OF demo_sqlite_repo_ok])
     (use demo_readable in \<open>simp_all add: demo_sqlite_empty demo_run_ready demo_quiet demo_ids_fresh demo_hypotheses\<close>)

end
