(* ===== verification/Rollback_Facts.thy ===== *)
theory Rollback_Facts
  imports Repository_Facts
begin

text \<open>
  Rolling back, pruning and reading back, on each backend, and the construction of a repository.
  The witnesses use \<open>demo_backup_world\<close>, the world after one successful run, a hundred days later.
\<close>

section \<open>A world with one backup\<close>

definition demo_backup_world :: "sqlite_db world" where
  "demo_backup_world =
     (snd (run_once demo_sqlite_repo demo_payload demo_hash (demo_world demo_env demo_sqlite)))\<lparr>step := 1000\<rparr>"

definition demo_backup :: BackupEntry where
  "demo_backup = hd (sqlite_rows demo_backup_world)"

section \<open>Lemmas\<close>

lemma sqlite_view_step:
  "sqlite_rows (w\<lparr>step := k\<rparr>) = sqlite_rows w" "sqlite_events (w\<lparr>step := k\<rparr>) = sqlite_events w"
  "sqlite_repo r (w\<lparr>step := k\<rparr>) = sqlite_repo r w"
  by (simp_all add: sqlite_rows_def sqlite_events_def sqlite_repo_def sqlite_inv_def)

lemma pg_view_step:
  "pg_rows (w\<lparr>step := k\<rparr>) = pg_rows w" "pg_events (w\<lparr>step := k\<rparr>) = pg_events w"
  "pg_repo r (w\<lparr>step := k\<rparr>) = pg_repo r w"
  by (simp_all add: pg_rows_def pg_events_def pg_repo_def pg_inv_def)

lemma newest_hash_Nil: "newest_hash [] x \<longleftrightarrow> x = None"
  by (simp add: newest_hash_def split: option.splits)

lemma demo_backup_facts:
  "sqlite_repo demo_sqlite_repo demo_backup_world" "env demo_backup_world = demo_env"
  "step demo_backup_world = 1000" "sqlite_rows demo_backup_world = [demo_backup]" "is_created demo_backup"
  "created_at demo_backup = clock demo_env 0" "sqlite_events demo_backup_world = []"
  "points_to demo_env demo_backup (files demo_backup_world (pointer_at demo_root))"
  "files demo_backup_world (payload_at demo_root (timestamp_dir demo_backup)) = Some (File [1, 2, 3])"
proof -
  let ?w = "demo_world demo_env demo_sqlite"
  have ready: "run_ready ?w (sqlite_rows ?w) demo_payload demo_hash"
    by (simp add: demo_sqlite_empty demo_run_ready)
  have "runs (run_once demo_sqlite_repo demo_payload demo_hash) ?w
    (\<lambda>out w'. sqlite.kept demo_sqlite_repo ?w w' \<and> outcome_ok demo_env demo_root demo_payload demo_hash
       (clock demo_env 0) (clock demo_env 0) [] demo_files out (sqlite_rows w') (files w'))
    (\<lambda>_ _. False)"
    by (rule runs_mono [OF sqlite_run_once_law [OF demo_sqlite_repo_ok ready]])
       (use demo_readable demo_json_pretty_total quiet_not_faulted [OF demo_quiet [of demo_sqlite]]
          ids_fresh_no_clash [of ?w "{}"] demo_ids_fresh [of 0] in
        \<open>simp_all add: sqlite.run_failed_def demo_sqlite_empty\<close>)
  then obtain out w' where run: "run_once demo_sqlite_repo demo_payload demo_hash ?w = (Inr out, w')"
    and k: "sqlite.kept demo_sqlite_repo ?w w'"
    and ok: "outcome_ok demo_env demo_root demo_payload demo_hash (clock demo_env 0) (clock demo_env 0)
      [] demo_files out (sqlite_rows w') (files w')"
    by (elim runs_no_errorE) blast
  have bw: "demo_backup_world = w'\<lparr>step := 1000\<rparr>" by (simp add: demo_backup_world_def run)
  obtain e s where out: "out = OutcomeCreated e"
    and e: "e = entry_of_new (backup_id e) (new_created (clock demo_env 0) (format_timestamp_dir demo_env (clock demo_env 0))
        demo_hash (payload_source_revision demo_payload) (payload_sync_duration_ms demo_payload) 3 s)"
    and rows: "sqlite_rows w' = [with_ts (clock demo_env 0) e]"
    and f: "files w' (payload_at demo_root (timestamp_dir e)) = Some (File [1, 2, 3])"
      "points_to demo_env e (files w' (pointer_at demo_root))"
    using ok by (cases out) (auto simp: outcome_ok_def newest_hash_Nil)
  have ce: "created_at e = clock demo_env 0" "status e = Created" by (subst e, simp)+
  have rows': "sqlite_rows w' = [e]" using rows with_ts_same [of e] ce by simp
  then have db: "demo_backup = e" by (simp add: demo_backup_def bw sqlite_view_step)
  show "sqlite_repo demo_sqlite_repo demo_backup_world" "sqlite_rows demo_backup_world = [demo_backup]"
    "sqlite_events demo_backup_world = []" "env demo_backup_world = demo_env" "step demo_backup_world = 1000"
    using sqlite_repo_kept [OF demo_sqlite_repo_ok k] k rows'
    by (simp_all add: bw db sqlite_view_step sqlite.kept_def demo_sqlite_empty later_def)
  show "is_created demo_backup" "created_at demo_backup = clock demo_env 0"
    "points_to demo_env demo_backup (files demo_backup_world (pointer_at demo_root))"
    "files demo_backup_world (payload_at demo_root (timestamp_dir demo_backup)) = Some (File [1, 2, 3])"
    using ce f by (simp_all add: bw db is_created_def)
qed

lemma sqlite_repoD:
  assumes "sqlite_repo r w"
  shows "sqlite_inv w" "store r = sqlite_store" "repo_ok (root r) (env w) (files w) (sqlite_rows w)"
  using assms by (simp_all add: sqlite_repo_def)

lemma pg_repoD:
  assumes "pg_repo r w"
  shows "pg_inv w" "store r = postgres_store" "repo_ok (root r) (env w) (files w) (pg_rows w)"
  using assms by (simp_all add: pg_repo_def)

lemma sqlite_rollback_law:
  "sqlite_repo r w \<Longrightarrow> runs (rollback_to r u) w
    (\<lambda>e w'. sqlite.undisturbed r w w' \<and> find (\<lambda>e. backup_id e = u) (sqlite_rows w) = Some e \<and> is_created e \<and>
       points_to (env w) e (files w' (pointer_at (root r))) \<and>
       (\<exists>v. sqlite_events w' = sqlite_events w @ [(v, u)]))
    (sqlite.rollback_failed r u w)"
  by (rule sqlite.runs_rollback_to) (rule sqlite_repoD; assumption)+

lemma pg_rollback_law:
  "pg_repo r w \<Longrightarrow> runs (rollback_to r u) w
    (\<lambda>e w'. pg.undisturbed r w w' \<and> find (\<lambda>e. backup_id e = u) (pg_rows w) = Some e \<and> is_created e \<and>
       points_to (env w) e (files w' (pointer_at (root r))) \<and>
       (\<exists>v. pg_events w' = pg_events w @ [(v, u)]))
    (pg.rollback_failed r u w)"
  by (rule pg.runs_rollback_to) (rule pg_repoD; assumption)+

lemmas sqlite_prune_days_law = sqlite.runs_prune [OF sqlite_repoD]

lemmas pg_prune_days_law = pg.runs_prune [OF pg_repoD]

lemma sqlite_repo_payload:
  assumes "sqlite_repo r w" "e \<in> set (sqlite_rows w)" "is_created e"
  shows "payload_ok (root r) (env w) (files w) e"
  using assms by (auto simp: sqlite_repo_def repo_ok_def list_all_iff entry_ok_def)

section \<open>Rollback\<close>

text \<open>C6. A successful rollback answers with the created entry of that id, whose payload is on
  disk; the pointer file is the complete document for that entry, one event is recorded and no
  entry changes.\<close>

theorem sqlite_rollback_to_correct:
  assumes "sqlite_repo r w"
  shows "runs (rollback_to r u) w
    (\<lambda>e w'. sqlite_repo r w' \<and> sqlite_rows w' = sqlite_rows w \<and>
       e \<in> set (sqlite_rows w) \<and> backup_id e = u \<and> is_created e \<and>
       payload_ok (root r) (env w) (files w') e \<and> points_to (env w) e (files w' (pointer_at (root r))) \<and>
       (\<exists>v. sqlite_events w' = sqlite_events w @ [(v, u)]))
    (\<lambda>_ _. True)"
proof (rule runs_mono [OF sqlite_rollback_law [OF assms]])
  fix e w'
  assume w': "sqlite.undisturbed r w w' \<and> find (\<lambda>e. backup_id e = u) (sqlite_rows w) = Some e \<and> is_created e \<and>
    points_to (env w) e (files w' (pointer_at (root r))) \<and>
    (\<exists>v. sqlite_events w' = sqlite_events w @ [(v, u)])"
  then have e: "e \<in> set (sqlite_rows w)" "backup_id e = u" by (auto dest: find_set)
  have "sqlite_repo r w'" "env w' = env w" "sqlite_rows w' = sqlite_rows w"
    using w' sqlite_repo_undisturbed [OF assms, of w'] by (auto simp: sqlite.undisturbed_def later_def)
  then show "sqlite_repo r w' \<and> sqlite_rows w' = sqlite_rows w \<and>
       e \<in> set (sqlite_rows w) \<and> backup_id e = u \<and> is_created e \<and>
       payload_ok (root r) (env w) (files w') e \<and> points_to (env w) e (files w' (pointer_at (root r))) \<and>
       (\<exists>v. sqlite_events w' = sqlite_events w @ [(v, u)])"
    using w' e sqlite_repo_payload [of r w' e] by simp
qed simp

theorem sqlite_rollback_to_correct_witness:
  "runs (rollback_to demo_sqlite_repo (backup_id demo_backup)) demo_backup_world
    (\<lambda>e w'. sqlite_repo demo_sqlite_repo w' \<and> sqlite_rows w' = [demo_backup] \<and> e = demo_backup \<and>
       points_to demo_env e (files w' (pointer_at demo_root)))
    (\<lambda>_ _. True)"
  by (rule runs_mono [OF sqlite_rollback_to_correct [OF demo_backup_facts(1)]])
     (simp_all add: demo_backup_facts)

text \<open>C15. A rollback that fails leaves every entry and payload intact, and the pointer is either
  untouched or the complete document of the requested entry, never a partial file.\<close>

theorem sqlite_rollback_to_error:
  assumes "sqlite_repo r w"
  shows "runs (rollback_to r u) w (\<lambda>_ _. True)
    (\<lambda>_ w'. sqlite_repo r w' \<and> sqlite_rows w' = sqlite_rows w \<and>
       (files w' (pointer_at (root r)) = files w (pointer_at (root r)) \<or>
        (\<exists>e \<in> set (sqlite_rows w). backup_id e = u \<and> is_created e \<and>
           points_to (env w) e (files w' (pointer_at (root r))))))"
proof (rule runs_mono [OF sqlite_rollback_law [OF assms]])
  fix err w'
  assume w': "sqlite.rollback_failed r u w err w'"
  then have "sqlite.undisturbed r w w'" by (simp add: sqlite.rollback_failed_def)
  then have "sqlite_repo r w'" "sqlite_rows w' = sqlite_rows w"
    using sqlite_repo_undisturbed [OF assms] by (simp_all add: sqlite.undisturbed_def)
  moreover have "files w' (pointer_at (root r)) = files w (pointer_at (root r)) \<or>
      (\<exists>e \<in> set (sqlite_rows w). backup_id e = u \<and> is_created e \<and>
         points_to (env w) e (files w' (pointer_at (root r))))"
    using w' find_set [of "\<lambda>e. backup_id e = u" "sqlite_rows w"]
    by (auto simp: sqlite.rollback_failed_def split: option.splits if_splits)
  ultimately show "sqlite_repo r w' \<and> sqlite_rows w' = sqlite_rows w \<and>
     (files w' (pointer_at (root r)) = files w (pointer_at (root r)) \<or>
      (\<exists>e \<in> set (sqlite_rows w). backup_id e = u \<and> is_created e \<and>
         points_to (env w) e (files w' (pointer_at (root r)))))"
    by blast
qed simp

theorem sqlite_rollback_to_error_witness:
  "runs (rollback_to demo_sqlite_repo (backup_id demo_backup)) demo_backup_world (\<lambda>_ _. True)
    (\<lambda>_ w'. sqlite_repo demo_sqlite_repo w' \<and> sqlite_rows w' = [demo_backup])"
  by (rule runs_mono [OF sqlite_rollback_to_error [OF demo_backup_facts(1)]])
     (simp_all add: demo_backup_facts)

text \<open>C16. Without failing calls a rollback to an id that no entry has, or to a skipped entry, is
  refused with its own error and changes neither files nor entries nor events.\<close>

theorem sqlite_rollback_to_refused:
  assumes "sqlite_repo r w" "quiet w"
    and "\<forall>e \<in> set (sqlite_rows w). backup_id e = u \<longrightarrow> \<not> is_created e"
  shows "\<exists>err w'. rollback_to r u w = (Inl err, w') \<and>
    err = (if u \<in> ids_of (sqlite_rows w) then Anyhow ''cannot rollback to skipped backup''
           else Anyhow ''backup not found'') \<and>
    files w' = files w \<and> sqlite_rows w' = sqlite_rows w \<and> sqlite_events w' = sqlite_events w"
proof -
  let ?E = "if u \<in> ids_of (sqlite_rows w) then Anyhow ''cannot rollback to skipped backup''
           else Anyhow ''backup not found''"
  have "runs (rollback_to r u) w (\<lambda>_ _. False) (\<lambda>err w'. err = ?E \<and>
    files w' = files w \<and> sqlite_rows w' = sqlite_rows w \<and> sqlite_events w' = sqlite_events w)"
  proof (rule runs_mono [OF sqlite_rollback_law [OF assms(1)]])
    fix err w'
    assume f: "sqlite.rollback_failed r u w err w'"
    show "err = ?E \<and> files w' = files w \<and> sqlite_rows w' = sqlite_rows w \<and> sqlite_events w' = sqlite_events w"
    proof (cases "find (\<lambda>e. backup_id e = u) (sqlite_rows w)")
      case None
      then have "u \<notin> ids_of (sqlite_rows w)" by (auto simp: find_None_iff)
      then show ?thesis
        using f None quiet_not_faulted [OF assms(2), of w']
        by (simp add: sqlite.rollback_failed_def sqlite.undisturbed_def)
    next
      case (Some e)
      then have "u \<in> ids_of (sqlite_rows w)" "\<not> is_created e"
        using assms(3) find_set [OF Some] by auto
      then show ?thesis
        using f Some quiet_not_faulted [OF assms(2), of w']
        by (simp add: sqlite.rollback_failed_def sqlite.undisturbed_def)
    qed
  qed (use assms(3) in \<open>auto dest: find_set\<close>)
  then show ?thesis by (auto simp: runs_def split: prod.splits sum.splits)
qed

theorem sqlite_rollback_to_refused_witness:
  "\<exists>err w'. rollback_to demo_sqlite_repo 7 (demo_world demo_env demo_sqlite) = (Inl err, w') \<and>
     err = Anyhow ''backup not found'' \<and> files w' = demo_files"
  using sqlite_rollback_to_refused [OF demo_sqlite_repo_ok demo_quiet, of 7] by (auto simp: demo_sqlite_empty)

text \<open>C17. Progress: without failing calls and with new event ids, every created entry can be
  rolled back to.\<close>

theorem sqlite_rollback_to_completes:
  assumes "sqlite_repo r w" "quiet w" "json_pretty_total (env w)"
    and "ids_fresh (env w) (step w) (fst ` set (sqlite_events w))"
    and "e \<in> set (sqlite_rows w)" "is_created e"
  shows "\<exists>w'. rollback_to r (backup_id e) w = (Inr e, w')"
proof -
  have find: "find (\<lambda>x. backup_id x = backup_id e) (sqlite_rows w) = Some e"
    using find_Some_distinct [OF sqlite_distinct_ids assms(5)] assms(1) by (simp add: sqlite_repo_def)
  have "runs (rollback_to r (backup_id e)) w (\<lambda>x _. x = e) (\<lambda>_ _. False)"
    by (rule runs_mono [OF sqlite_rollback_law [OF assms(1)]])
       (use find assms quiet_not_faulted [OF assms(2)] ids_fresh_no_clash [OF assms(4)] in
        \<open>auto simp: sqlite.rollback_failed_def\<close>)
  then show ?thesis by (elim runs_no_errorE) blast
qed

theorem sqlite_rollback_to_completes_witness:
  "\<exists>w'. rollback_to demo_sqlite_repo (backup_id demo_backup) demo_backup_world = (Inr demo_backup, w')"
  by (rule sqlite_rollback_to_completes [OF demo_backup_facts(1)])
     (simp_all add: demo_backup_facts demo_hypotheses ids_fresh_def quiet_def, simp add: demo_env_def)

text \<open>C18. The same guarantees for a successful rollback on Postgres.\<close>

theorem pg_rollback_to_correct:
  assumes "pg_repo r w"
  shows "runs (rollback_to r u) w
    (\<lambda>e w'. pg_repo r w' \<and> pg_rows w' = pg_rows w \<and>
       e \<in> set (pg_rows w) \<and> backup_id e = u \<and> is_created e \<and>
       points_to (env w) e (files w' (pointer_at (root r))) \<and>
       (\<exists>v. pg_events w' = pg_events w @ [(v, u)]))
    (\<lambda>_ w'. pg_repo r w' \<and> pg_rows w' = pg_rows w)"
  by (rule runs_mono [OF pg_rollback_law [OF assms]])
     (auto simp: pg.rollback_failed_def pg.undisturbed_def dest: find_set
        intro: pg_repo_undisturbed [OF assms])

theorem pg_rollback_to_correct_witness:
  "runs (rollback_to demo_pg_repo 7) (demo_world demo_env demo_pg) (\<lambda>e w'. False)
    (\<lambda>_ w'. pg_repo demo_pg_repo w' \<and> pg_rows w' = [])"
  by (rule runs_mono [OF pg_rollback_to_correct [OF demo_pg_repo_ok]]) (simp_all add: demo_pg_empty)

section \<open>Pruning\<close>

text \<open>C7. Pruning removes exactly the created entries that are older than the retention, returns
  their number, keeps every other entry with its payload, does not touch the pointer, and without a
  failing call the directories of the removed entries are gone.\<close>

theorem sqlite_prune_exact:
  assumes "sqlite_repo r w" "0 < sint days"
    and "minus_days (env w) (clock (env w) (step w)) days = Some c" "ts_window c"
  shows "runs (prune_created_older_than_days r days) w
    (\<lambda>n w'. sqlite_repo r w' \<and> sqlite_rows w' = filter (\<lambda>e. \<not> doomed c e) (sqlite_rows w) \<and>
       n = length (filter (doomed c) (sqlite_rows w)) \<and>
       files w' (pointer_at (root r)) = files w (pointer_at (root r)) \<and>
       (faulted w w' \<or> (\<forall>e \<in> set (filter (doomed c) (sqlite_rows w)).
          files w' (root r @ [''backups'', timestamp_dir e]) = None)))
    (\<lambda>_ _. True)"
  by (rule runs_mono [OF sqlite_prune_days_law [OF assms(1,1,1,2-4)]])
     (auto intro: sqlite_repo_kept [OF assms(1)])

theorem sqlite_prune_exact_witness:
  "runs (prune_created_older_than_days demo_sqlite_repo 90) demo_backup_world
    (\<lambda>n w'. sqlite_repo demo_sqlite_repo w' \<and> sqlite_rows w' = [] \<and> n = 1)
    (\<lambda>_ _. True)"
proof -
  have m: "minus_days (env demo_backup_world) (clock (env demo_backup_world) (step demo_backup_world)) 90 =
      Some (1700865000 * 10 ^ 9)"
    unfolding demo_backup_facts by (simp add: demo_env_def)
  have d: "doomed (1700865000 * 10 ^ 9) demo_backup"
    using demo_backup_facts(5,6) by (simp add: doomed_def demo_env_def)
  show ?thesis
    by (rule runs_mono [OF sqlite_prune_exact [OF demo_backup_facts(1) _ m]])
       (use d in \<open>simp_all add: demo_backup_facts ts_window_def\<close>)
qed

text \<open>C19. The same on Postgres; the cutoff is compared at the resolution of the database.\<close>

theorem pg_prune_exact:
  assumes "pg_repo r w" "0 < sint days"
    and "minus_days (env w) (clock (env w) (step w)) days = Some c"
  shows "runs (prune_created_older_than_days r days) w
    (\<lambda>n w'. pg_repo r w' \<and> pg_rows w' = filter (\<lambda>e. \<not> doomed (pg_timestamp (env w) c) e) (pg_rows w) \<and>
       n = length (filter (doomed (pg_timestamp (env w) c)) (pg_rows w)) \<and>
       files w' (pointer_at (root r)) = files w (pointer_at (root r)) \<and>
       (faulted w w' \<or> (\<forall>e \<in> set (filter (doomed (pg_timestamp (env w) c)) (pg_rows w)).
          files w' (root r @ [''backups'', timestamp_dir e]) = None)))
    (\<lambda>_ _. True)"
  by (rule runs_mono [OF pg_prune_days_law [OF assms(1,1,1,2,3)]])
     (auto intro: pg_repo_kept [OF assms(1)])

theorem pg_prune_exact_witness:
  "runs (prune_created_older_than_days demo_pg_repo 90) (demo_world demo_env demo_pg)
    (\<lambda>n w'. pg_repo demo_pg_repo w' \<and> pg_rows w' = [] \<and> n = 0)
    (\<lambda>_ _. True)"
proof -
  have m: "minus_days (env (demo_world demo_env demo_pg)) (clock (env (demo_world demo_env demo_pg))
      (step (demo_world demo_env demo_pg))) 90 = Some (1692224000 * 10 ^ 9)"
    by (simp add: demo_env_def)
  show ?thesis
    by (rule runs_mono [OF pg_prune_exact [OF demo_pg_repo_ok _ m]]) (simp_all add: demo_pg_empty)
qed

text \<open>C20. A pruning that fails part way keeps the invariant and every entry within the retention;
  it has only removed some of the old ones.\<close>

theorem sqlite_prune_error:
  assumes "sqlite_repo r w" "0 < sint days"
    and "minus_days (env w) (clock (env w) (step w)) days = Some c" "ts_window c"
  shows "runs (prune_created_older_than_days r days) w (\<lambda>_ _. True)
    (\<lambda>_ w'. sqlite_repo r w' \<and> files w' (pointer_at (root r)) = files w (pointer_at (root r)) \<and>
       set (sqlite_rows w') \<subseteq> set (sqlite_rows w) \<and>
       (\<forall>e \<in> set (sqlite_rows w). \<not> doomed c e \<longrightarrow> e \<in> set (sqlite_rows w')))"
  by (rule runs_mono [OF sqlite_prune_days_law [OF assms(1,1,1,2-4)]])
     (auto simp: sqlite.prune_failed_def intro: sqlite_repo_kept [OF assms(1)])

theorem sqlite_prune_error_witness:
  "runs (prune_created_older_than_days demo_sqlite_repo 90) (demo_world demo_env demo_sqlite) (\<lambda>_ _. True)
    (\<lambda>_ w'. sqlite_repo demo_sqlite_repo w' \<and> sqlite_rows w' = [])"
proof -
  have m: "minus_days (env (demo_world demo_env demo_sqlite)) (clock (env (demo_world demo_env demo_sqlite))
      (step (demo_world demo_env demo_sqlite))) 90 = Some (1692224000 * 10 ^ 9)"
    by (simp add: demo_env_def)
  show ?thesis
    by (rule runs_mono [OF sqlite_prune_error [OF demo_sqlite_repo_ok _ m]])
       (simp_all add: demo_sqlite_empty ts_window_def)
qed

text \<open>C21. Pruning does not spare the backup that the pointer names: an old current backup loses its
  entry and its directory, and the pointer goes on naming it.\<close>

theorem sqlite_prune_removes_current:
  assumes "sqlite_repo r w" "0 < sint days" "quiet w"
    and "minus_days (env w) (clock (env w) (step w)) days = Some c" "ts_window c"
    and "e \<in> set (sqlite_rows w)" "is_created e" "created_at e < c"
    and "points_to (env w) e (files w (pointer_at (root r)))"
  shows "runs (prune_created_older_than_days r days) w
    (\<lambda>_ w'. e \<notin> set (sqlite_rows w') \<and> files w' (root r @ [''backups'', timestamp_dir e]) = None \<and>
       points_to (env w) e (files w' (pointer_at (root r))))
    (\<lambda>_ _. False)"
  by (rule runs_mono [OF sqlite_prune_days_law [OF assms(1,1,1,2,4,5)]])
     (use assms(6-9) quiet_not_faulted [OF assms(3)] in
      \<open>auto simp: sqlite.prune_failed_def doomed_def\<close>)

theorem sqlite_prune_removes_current_witness:
  "runs (prune_created_older_than_days demo_sqlite_repo 90) demo_backup_world
    (\<lambda>_ w'. demo_backup \<notin> set (sqlite_rows w') \<and>
       files w' (demo_root @ [''backups'', timestamp_dir demo_backup]) = None \<and>
       points_to demo_env demo_backup (files w' (pointer_at demo_root)))
    (\<lambda>_ _. False)"
proof -
  have m: "minus_days (env demo_backup_world) (clock (env demo_backup_world) (step demo_backup_world)) 90 =
      Some (1700865000 * 10 ^ 9)"
    unfolding demo_backup_facts by (simp add: demo_env_def)
  have t: "created_at demo_backup < 1700865000 * 10 ^ 9" unfolding demo_backup_facts by (simp add: demo_env_def)
  have q: "quiet demo_backup_world" unfolding quiet_def demo_backup_facts by (simp add: demo_env_def)
  show ?thesis
    using sqlite_prune_removes_current [OF demo_backup_facts(1) _ q m _ _ demo_backup_facts(5) t]
    by (simp add: demo_backup_facts ts_window_def)
qed

end
