(* ===== verification/Store_Facts.thy ===== *)
theory Store_Facts
  imports Rollback_Facts
begin

text \<open>
  What the stores, the statistics and the construction of a repository guarantee on their own.
\<close>

section \<open>What is opened\<close>

definition sqlite_openable :: "env \<Rightarrow> sqlite_db \<Rightarrow> bool" where
  "sqlite_openable E d \<longleftrightarrow>
     (case backups_table d of None \<Rightarrow> True
      | Some rs \<Rightarrow> list_all (canonical_row E) rs \<and> distinct (map r_id rs)) \<and>
     (case rollback_events_table d of None \<Rightarrow> True
      | Some evs \<Rightarrow> list_all (\<lambda>ev. \<exists>v. ev_id ev = uuid_to_string E v) evs)"

definition pg_openable :: "env \<Rightarrow> pg_db \<Rightarrow> bool" where
  "pg_openable E d \<longleftrightarrow>
     (case pg_backups d of None \<Rightarrow> True
      | Some rs \<Rightarrow> list_all (pg_canonical E) rs \<and> distinct (map p_id rs))"

definition entries_ok :: "path \<Rightarrow> env \<Rightarrow> file_system \<Rightarrow> BackupEntry list \<Rightarrow> bool" where
  "entries_ok rt E f es \<longleftrightarrow> list_all (entry_ok rt E f) es \<and> distinct (created_dirs es)"

definition demo_legacy :: json where
  "demo_legacy = JObject [(show_i64 10, JObject [(''name'', JString ''Default'')]), (show_i64 20, JNull)]"

section \<open>The stores\<close>

text \<open>C24. Round trip on SQLite: what \<open>get_backup\<close> returns after \<open>insert_entry\<close> is the entry that was
  inserted, through the text of every column.\<close>

theorem sqlite_insert_get:
  assumes "sqlite_inv w" "ts_window (created_at e)"
  shows "runs (seq_io (sqlite_insert_entry e) (sqlite_get_backup (backup_id e))) w
    (\<lambda>r _. r = Some e) (\<lambda>_ _. True)"
  unfolding runs_seq
proof (rule runs_resultI)
  fix r w1
  assume ins: "sqlite_insert_entry e w = (r, w1)"
  show "case r of Inl _ \<Rightarrow> True
    | Inr _ \<Rightarrow> runs (sqlite_get_backup (backup_id e)) w1 (\<lambda>r _. r = Some e) (\<lambda>_ _. True)"
    using ins sqlite.insert_then_get [OF assms, unfolded sqlite_store_methods with_ts_same]
    by (auto simp: runs_def split: sum.splits prod.splits)
qed

theorem sqlite_insert_get_witness:
  "runs (seq_io (sqlite_insert_entry (entry_of_new 5 (skipped_unchanged 0 ''abc''))) (sqlite_get_backup 5))
     (demo_world demo_env demo_sqlite) (\<lambda>r _. r = Some (entry_of_new 5 (skipped_unchanged 0 ''abc''))) (\<lambda>_ _. True)"
  using sqlite_insert_get [OF demo_sqlite_inv, of "entry_of_new 5 (skipped_unchanged 0 ''abc'')"]
  by (simp add: ts_window_def)

text \<open>C25. Round trip on Postgres: only the timestamp is rounded to the resolution of the database.\<close>

theorem pg_insert_get:
  assumes "pg_inv w"
  shows "runs (seq_io (pg_insert_entry e) (pg_get_backup (backup_id e))) w
    (\<lambda>r _. r = Some (e\<lparr>created_at := pg_timestamp (env w) (created_at e)\<rparr>)) (\<lambda>_ _. True)"
  unfolding runs_seq
proof (rule runs_resultI)
  fix r w1
  assume ins: "pg_insert_entry e w = (r, w1)"
  show "case r of Inl _ \<Rightarrow> True
    | Inr _ \<Rightarrow> runs (pg_get_backup (backup_id e)) w1
        (\<lambda>r _. r = Some (e\<lparr>created_at := pg_timestamp (env w) (created_at e)\<rparr>)) (\<lambda>_ _. True)"
    using ins pg.insert_then_get [OF assms TrueI, unfolded postgres_store_methods]
    by (auto simp: runs_def with_ts_def split: sum.splits prod.splits)
qed

theorem pg_insert_get_witness:
  "runs (seq_io (pg_insert_entry (entry_of_new 5 (skipped_unchanged 1234567 ''abc''))) (pg_get_backup 5))
     (demo_world demo_env demo_pg)
     (\<lambda>r _. r = Some (entry_of_new 5 (skipped_unchanged 1234000 ''abc''))) (\<lambda>_ _. True)"
proof -
  have "pg_timestamp demo_env 1234567 = 1234000" by (simp add: demo_env_def)
  then show ?thesis
    using pg_insert_get [OF demo_pg_inv, of "entry_of_new 5 (skipped_unchanged 1234567 ''abc'')"]
    by (simp add: entry_of_new_def skipped_unchanged_def)
qed



text \<open>C27. \<open>list_backups\<close> returns every entry exactly once, the newest first, and changes nothing.\<close>

theorem sqlite_list_newest_first:
  assumes "sqlite_inv w"
  shows "runs sqlite_list_backups w
    (\<lambda>es w'. mset es = mset (sqlite_rows w) \<and> newest_first es \<and> read_only w w')
    (\<lambda>_ w'. read_only w w' \<and> faulted w w')"
  by (rule runs_mono [OF sqlite_list_law [OF assms]]) simp_all

theorem sqlite_list_newest_first_witness:
  "runs sqlite_list_backups demo_backup_world (\<lambda>es w'. es = [demo_backup]) (\<lambda>_ _. True)"
proof -
  have "sqlite_inv demo_backup_world" using demo_backup_facts(1) by (simp add: sqlite_repo_def)
  then show ?thesis
    by (rule runs_mono [OF sqlite_list_newest_first]) (simp_all add: demo_backup_facts)
qed

section \<open>Opening a repository\<close>

lemma repo_ok_open:
  assumes "entries_ok rt E f es" "keeps {} f g" "layout rt g"
  shows "repo_ok rt E g es"
  using assms entry_ok_keeps [OF _ assms(2)] by (auto simp: repo_ok_def entries_ok_def list_all_iff)

lemma runs_repository_new:
  assumes "sqlite_libs (env w)" "sqlite_openable (env w) (db w)" "unobstructed rt (files w)"
    and "entries_ok rt (env w) (files w) (sqlite_rows w)"
  shows "runs (repository_new rt) w
    (\<lambda>r w'. sqlite_repo r w' \<and> root r = rt \<and> sqlite_rows w' = sqlite_rows w \<and> later w w' \<and>
       files w' (pointer_at rt) = files w (pointer_at rt))
    (\<lambda>_ w'. sqlite_rows w' = sqlite_rows w \<and> keeps {} (files w) (files w'))"
  unfolding repository_new_def runs_seq runs_return
proof (rule runs_mono [OF runs_create_layout [OF assms(3)]])
  fix x w1
  assume w1: "files_only w w1 \<and> keeps {} (files w) (files w1) \<and> layout rt (files w1) \<and>
    files w1 (pointer_at rt) = files w (pointer_at rt)"
  have f1: "env w1 = env w" "db w1 = db w" "sqlite_rows w1 = sqlite_rows w"
    using w1 by (simp_all add: frame_defs sqlite_rows_def)
  have rok: "repo_ok rt (env w) (files w1) (sqlite_rows w)" using repo_ok_open [OF assms(4)] w1 by blast
  show "runs init_db w1 (\<lambda>_ w'. sqlite_repo \<lparr>root = rt, store = sqlite_store\<rparr> w' \<and>
      root \<lparr>root = rt, store = sqlite_store\<rparr> = rt \<and> sqlite_rows w' = sqlite_rows w \<and> later w w' \<and>
      files w' (pointer_at rt) = files w (pointer_at rt))
    (\<lambda>_ w'. sqlite_rows w' = sqlite_rows w \<and> keeps {} (files w) (files w'))"
    by (rule runs_mono [OF runs_init_db])
       (use assms(1,2) f1 w1 rok in \<open>simp_all add: sqlite_openable_def sqlite_repo_def frame_defs\<close>)
qed (simp add: frame_defs sqlite_rows_def)

text \<open>C28. Opening a repository with SQLite, new or with entries from earlier, establishes the
  invariant and keeps every entry; when it fails, no payload and no entry is lost.\<close>

theorem repository_new_correct:
  assumes "sqlite_libs (env w)" "sqlite_openable (env w) (db w)" "unobstructed rt (files w)"
    and "entries_ok rt (env w) (files w) (sqlite_rows w)"
  shows "runs (repository_new rt) w
    (\<lambda>r w'. sqlite_repo r w' \<and> root r = rt \<and> sqlite_rows w' = sqlite_rows w)
    (\<lambda>_ w'. sqlite_rows w' = sqlite_rows w \<and> keeps {} (files w) (files w'))"
  by (rule runs_mono [OF runs_repository_new [OF assms]]) simp_all

theorem repository_new_correct_witness:
  "runs (repository_new demo_root)
     \<lparr>files = (\<lambda>_. None), db = \<lparr>backups_table = None, rollback_events_table = None\<rparr>, step = 0, env = demo_env, sent = []\<rparr>
     (\<lambda>r w'. sqlite_repo r w' \<and> root r = demo_root \<and> sqlite_rows w' = [])
     (\<lambda>_ w'. sqlite_rows w' = [])"
  by (rule runs_mono [OF repository_new_correct])
     (simp_all add: demo_sqlite_libs sqlite_openable_def unobstructed_def is_file_def entries_ok_def
        created_dirs_def sqlite_rows_def)

text \<open>C29. The same with Postgres.\<close>

theorem with_postgres_correct:
  assumes "pg_libs (env w)" "pg_openable (env w) (db w)" "unobstructed rt (files w)"
    and "entries_ok rt (env w) (files w) (pg_rows w)"
  shows "runs (with_postgres rt) w
    (\<lambda>r w'. pg_repo r w' \<and> root r = rt \<and> pg_rows w' = pg_rows w)
    (\<lambda>_ w'. pg_rows w' = pg_rows w \<and> keeps {} (files w) (files w'))"
  unfolding with_postgres_def runs_seq runs_return
proof (rule runs_mono [OF runs_create_layout [OF assms(3)]])
  fix x w1
  assume w1: "files_only w w1 \<and> keeps {} (files w) (files w1) \<and> layout rt (files w1) \<and>
    files w1 (pointer_at rt) = files w (pointer_at rt)"
  have f1: "env w1 = env w" "db w1 = db w" "pg_rows w1 = pg_rows w"
    using w1 by (simp_all add: frame_defs pg_rows_def)
  have rok: "repo_ok rt (env w) (files w1) (pg_rows w)" using repo_ok_open [OF assms(4)] w1 by blast
  show "runs pg_new w1 (\<lambda>_ w'. pg_repo \<lparr>root = rt, store = postgres_store\<rparr> w' \<and>
      root \<lparr>root = rt, store = postgres_store\<rparr> = rt \<and> pg_rows w' = pg_rows w)
    (\<lambda>_ w'. pg_rows w' = pg_rows w \<and> keeps {} (files w) (files w'))"
    by (rule runs_mono [OF runs_pg_new])
       (use assms(1,2) f1 w1 rok in \<open>simp_all add: pg_openable_def pg_repo_def frame_defs\<close>)
qed (simp add: frame_defs pg_rows_def)

theorem with_postgres_correct_witness:
  "runs (with_postgres demo_root)
     \<lparr>files = (\<lambda>_. None), db = \<lparr>pg_backups = None, pg_rollback_events = None\<rparr>, step = 0, env = demo_env, sent = []\<rparr>
     (\<lambda>r w'. pg_repo r w' \<and> root r = demo_root \<and> pg_rows w' = [])
     (\<lambda>_ w'. pg_rows w' = [])"
  by (rule runs_mono [OF with_postgres_correct])
     (simp_all add: demo_pg_libs pg_openable_def unobstructed_def is_file_def entries_ok_def
        created_dirs_def pg_rows_def)

section \<open>Statistics\<close>



text \<open>C31. Deck names of the current schema: with distinct ids, the map is the table, and its size is
  the number of decks.\<close>

theorem deck_names_new_correct:
  assumes "row_order_ok E" "col_decks_table c = Some rs" "distinct (map fst rs)"
    and "parse_deck_names_new E k c = Inr names"
  shows "length names = length rs \<and>
    (\<forall>i n. map_of names i = Some n \<longleftrightarrow> (SqlInteger i, SqlText n) \<in> set rs)"
  using parse_deck_names_new_set [OF assms] by simp

theorem deck_names_new_correct_witness:
  "\<exists>names. parse_deck_names_new demo_env 0 demo_collection = Inr names \<and> length names = 1 \<and>
     map_of names 1 = Some ''Default''"
proof -
  have "parse_deck_names_new demo_env 0 demo_collection = Inr [(1, ''Default'')]"
    by (simp add: parse_deck_names_new_def demo_collection_def scan_rows_def demo_env_def)
  then show ?thesis
    using deck_names_new_correct [OF demo_row_order_ok, of demo_collection "[(SqlInteger 1, SqlText ''Default'')]" 0]
    by (simp add: demo_collection_def)
qed

text \<open>C32. Deck names of the legacy schema: with decimal ids as keys, the name of a deck is the string
  under \<open>name\<close> in the last object with its key; objects without a name are left out.\<close>

theorem deck_names_legacy_correct:
  assumes "json_from_str E raw = Some (JObject fs)" "\<forall>f \<in> set fs. \<exists>j. fst f = show_i64 j"
    and "parse_deck_names_legacy E raw = Inr names"
  shows "map_of names i = Option.bind (map_of (rev fs) (show_i64 i)) deck_json_name"
  by (rule parse_deck_names_legacy_map [OF assms])

theorem deck_names_legacy_correct_witness:
  "\<exists>names. parse_deck_names_legacy (demo_env\<lparr>json_from_str := \<lambda>_. Some demo_legacy\<rparr>) [] = Inr names \<and>
     map_of names 10 = Some ''Default'' \<and> map_of names 20 = None"
proof -
  let ?E = "demo_env\<lparr>json_from_str := \<lambda>_. Some demo_legacy\<rparr>"
  have j: "json_from_str ?E [] = Some (JObject [(show_i64 10, JObject [(''name'', JString ''Default'')]), (show_i64 20, JNull)])"
    by (simp add: demo_legacy_def)
  then obtain names where p: "parse_deck_names_legacy ?E [] = Inr names"
    by (simp add: parse_deck_names_legacy_def demo_legacy_def)
  show ?thesis
    using p deck_names_legacy_correct [OF j _ p, of 10] deck_names_legacy_correct [OF j _ p, of 20]
    by (auto simp: show_i64_inj deck_json_name_def)
qed

end
