(* ===== verification/Sync_Client.thy ===== *)
theory Sync_Client
  imports World
begin

text \<open>
  \<open>crates/sync/src/lib.rs\<close>: the client of AnkiWeb. The network is \<open>http_reply\<close>, and \<open>sent\<close> is the
  trace of the requests that were attempted. The JSON requests and responses are written out as
  documents; the text of an error is that of its outermost context, as \<open>anyhow\<close> prints it.
\<close>

section \<open>Configuration and results\<close>

record SyncConfig =
  username :: string
  password :: string
  endpoint :: "string option"

record SyncResult =
  collection_bytes :: bytes
  result_source_revision :: "string option"
  result_sync_duration_ms :: i64

definition SYNC_VERSION :: nat where
  "SYNC_VERSION = 11"

definition DEFAULT_ENDPOINT :: string where
  "DEFAULT_ENDPOINT = ''https://sync.ankiweb.net/''"

definition CLIENT_VERSION_SHORT :: string where
  "CLIENT_VERSION_SHORT = ''25.09.2,dev,linux''"

definition CLIENT_VERSION_LONG :: string where
  "CLIENT_VERSION_LONG = ''anki,25.09.2 (dev),linux''"

fun error_text :: "error \<Rightarrow> string" where
  "error_text (IoError s) = s"
| "error_text (DbError s) = s"
| "error_text JsonError = ''invalid json''"
| "error_text (HttpError s) = s"
| "error_text (Anyhow s) = s"
| "error_text (SyncError MissingCredentials) = ''ankiweb credentials are missing''"
| "error_text (SyncError (LoginFailed s)) = ''ankiweb login failed: '' @ s"
| "error_text (SyncError (DownloadFailed s)) = ''ankiweb download failed: '' @ s"
| "error_text (Panic s) = s"
| "error_text (Context c e) = c"

section \<open>The session key\<close>

definition session_table :: string where
  "session_table = ''abcdefghijklmnopqrstuvwxyzABCDEFGHIJKLMNOPQRSTUVWXYZ0123456789''"

function session_loop :: "u64 \<Rightarrow> string" where
  "session_loop val =
     (if 0 < val
      then session_table ! unat (val mod of_nat (length session_table))
           # session_loop (val div of_nat (length session_table))
      else [])"
  by pat_completeness auto
termination
proof (relation "measure unat")
  fix val :: u64
  assume "0 < val"
  then have "0 < unat val" by (simp add: unat_gt_0 word_neq_0_conv)
  then have "unat val div 62 < unat val" by simp
  then show "(val div of_nat (length session_table), val) \<in> measure unat"
    by (simp add: session_table_def unat_div)
qed simp

declare session_loop.simps [simp del]

definition session_id_of :: "u32 \<Rightarrow> string" where
  "session_id_of n = (let val = ucast n :: u64 in if val = 0 then ''0'' else session_loop val)"

definition simple_session_id :: "('db world, string) io" where
  "simple_session_id = tick_io (\<lambda>E k. session_id_of (random_u32 E k))"

section \<open>Documents\<close>

definition string_of_bytes :: "bytes \<Rightarrow> string" where
  "string_of_bytes bs = map (\<lambda>b. char_of (unat b)) bs"

definition sync_header :: "string \<Rightarrow> string \<Rightarrow> json" where
  "sync_header hkey session =
     JObject [(''v'', JNumber (IntNum (int SYNC_VERSION))),
              (''k'', JString hkey),
              (''c'', JString CLIENT_VERSION_SHORT),
              (''s'', JString session)]"

definition host_key_request :: "string \<Rightarrow> string \<Rightarrow> json" where
  "host_key_request user pass = JObject [(''u'', JString user), (''p'', JString pass)]"

fun host_key_response :: "json \<Rightarrow> string option" where
  "host_key_response (JObject fs) = Option.bind (json_field ''key'' fs) string_of_json"
| "host_key_response (JArray [k]) = string_of_json k"
| "host_key_response _ = None"

definition meta_request :: json where
  "meta_request =
     JObject [(''v'', JNumber (IntNum (int SYNC_VERSION))), (''cv'', JString CLIENT_VERSION_LONG)]"

record MetaResponse =
  server_message :: string
  meta_empty :: bool
  should_continue :: bool

text \<open>A field with a default: absent, once, or twice (an error).\<close>

definition default_field :: "(json \<Rightarrow> 'a option) \<Rightarrow> 'a \<Rightarrow> string \<Rightarrow> (string \<times> json) list \<Rightarrow> 'a option" where
  "default_field dec d key fs =
     (case filter (\<lambda>(k, _). k = key) fs of [] \<Rightarrow> Some d | [(_, v)] \<Rightarrow> dec v | _ \<Rightarrow> None)"

definition default_item :: "(json \<Rightarrow> 'a option) \<Rightarrow> 'a \<Rightarrow> nat \<Rightarrow> json list \<Rightarrow> 'a option" where
  "default_item dec d i js = (if i < length js then dec (js ! i) else Some d)"

fun bool_of_json :: "json \<Rightarrow> bool option" where
  "bool_of_json (JBool b) = Some b"
| "bool_of_json _ = None"

definition meta_of_parts :: "string option \<Rightarrow> bool option \<Rightarrow> bool option \<Rightarrow> MetaResponse option" where
  "meta_of_parts m e c =
     Option.bind m (\<lambda>m. Option.bind e (\<lambda>e. Option.bind c (\<lambda>c.
       Some \<lparr>server_message = m, meta_empty = e, should_continue = c\<rparr>)))"

fun meta_response :: "json \<Rightarrow> MetaResponse option" where
  "meta_response (JObject fs) =
     meta_of_parts (default_field string_of_json [] ''msg'' fs)
       (default_field bool_of_json False ''empty'' fs)
       (default_field bool_of_json True ''should_continue'' fs)"
| "meta_response (JArray js) =
     (if length js \<le> 3
      then meta_of_parts (default_item string_of_json [] 0 js) (default_item bool_of_json False 1 js)
        (default_item bool_of_json True 2 js)
      else None)"
| "meta_response _ = None"

section \<open>Requests\<close>

text \<open>Posting a request: it is attempted, and either fails or is answered.\<close>

definition http_post :: "http_request \<Rightarrow> ('db world, http_response) io" where
  "http_post req = (\<lambda>w.
     let w1 = w\<lparr>step := Suc (step w), sent := sent w @ [req]\<rparr> in
     if fault_at (env w) (step w) \<noteq> None then (Inl (HttpError ''failed''), w1)
     else case http_reply (env w) (step w) req of
       None \<Rightarrow> (Inl (HttpError ''no response''), w1)
     | Some resp \<Rightarrow> (Inr resp, w1))"

text \<open>A local step of the client that may fail: building it, or reading a body.\<close>

definition http_step :: "'a \<Rightarrow> ('db world, 'a) io" where
  "http_step x = (\<lambda>w.
     (if fault_at (env w) (step w) \<noteq> None then Inl (HttpError ''failed'') else Inr x,
      w\<lparr>step := Suc (step w)\<rparr>))"

definition is_redirection :: "nat \<Rightarrow> bool" where
  "is_redirection s \<longleftrightarrow> 300 \<le> s \<and> s < 400"

definition is_success :: "nat \<Rightarrow> bool" where
  "is_success s \<longleftrightarrow> 200 \<le> s \<and> s < 300"

definition zstd_magic :: bytes where
  "zstd_magic = [0x28, 0xb5, 0x2f, 0xfd]"

definition method_url :: "string \<Rightarrow> string \<Rightarrow> string" where
  "method_url base method = base @ ''/sync/'' @ method"

definition sync_post :: "string \<Rightarrow> string \<Rightarrow> string \<Rightarrow> bytes \<Rightarrow> http_request" where
  "sync_post base method header body =
     \<lparr>req_url = method_url base method, req_anki_sync = header,
      req_content_type = ''application/octet-stream'', req_body = body\<rparr>"

definition decode_response :: "string \<Rightarrow> bytes \<Rightarrow> ('db world, bytes) io" where
  "decode_response method content =
     (if starts_with zstd_magic content
      then bind_io (get_io env) (\<lambda>E.
        of_option (Context (''decompressing response from '' @ method) (IoError ''zstd'')) (zstd_decode E content))
      else return_io content)"

definition follow_redirect ::
  "string \<Rightarrow> string \<Rightarrow> bytes \<Rightarrow> http_response \<Rightarrow> ('db world, http_response \<times> string option) io"
where
  "follow_redirect method header body resp =
     bind_io (get_io env) (\<lambda>E.
     if is_redirection (resp_status resp) then
       (case Option.bind (resp_location resp) (header_to_str E) of
          Some location \<Rightarrow>
            (let new_base = trim_end_matches (CHR ''/'') location in
             bind_io (map_err (Context (''POST '' @ method_url new_base method @ '' (redirect)''))
               (http_post (sync_post new_base method header body))) (\<lambda>resp.
             return_io (resp, Some new_base)))
        | None \<Rightarrow> return_io (resp, None))
     else return_io (resp, None))"

definition read_response :: "string \<Rightarrow> http_response \<Rightarrow> ('db world, bytes) io" where
  "read_response method resp =
     bind_io (get_io env) (\<lambda>E.
     if \<not> is_success (resp_status resp)
     then
       bind_io (try_io (http_step (response_text E (resp_body resp)))) (\<lambda>text_result.
       fail_io (Anyhow (''sync request to '' @ method @ '' failed ('' @ status_text E (resp_status resp)
         @ ''): '' @ (case text_result of Inl _ \<Rightarrow> [] | Inr s \<Rightarrow> s))))
     else
       bind_io (http_step (resp_body resp)) (\<lambda>content.
       decode_response method content))"

definition sync_request ::
  "string \<Rightarrow> string \<Rightarrow> string \<Rightarrow> string \<Rightarrow> bytes \<Rightarrow> ('db world, bytes \<times> string option) io"
where
  "sync_request ep method hkey session body =
     (let base = trim_end_matches (CHR ''/'') ep in
      bind_io (get_io env) (\<lambda>E.
      bind_io (of_option (IoError ''zstd'') (zstd_encode E body)) (\<lambda>compressed.
      bind_io (of_option JsonError (json_to_string E (sync_header hkey session))) (\<lambda>header.
      bind_io (map_err (Context (''POST '' @ method_url base method))
        (http_post (sync_post base method header compressed))) (\<lambda>first.
      bind_io (follow_redirect method header compressed first) (\<lambda>(resp, new_endpoint).
      bind_io (read_response method resp) (\<lambda>data.
      return_io (data, new_endpoint))))))))"

section \<open>Login, download and upload\<close>

definition login :: "string \<Rightarrow> string \<Rightarrow> string \<Rightarrow> ('db world, string \<times> string) io" where
  "login ep user pass =
     bind_io simple_session_id (\<lambda>session.
     bind_io (get_io env) (\<lambda>E.
     bind_io (of_option JsonError (json_to_string E (host_key_request user pass))) (\<lambda>body.
     bind_io (map_err (\<lambda>e. SyncError (LoginFailed (error_text e)))
       (sync_request ep ''hostKey'' [] session (as_bytes body))) (\<lambda>(data, _).
     bind_io (of_option (Context ''parsing hostKey response'' JsonError)
       (Option.bind (json_from_str E (string_of_bytes data)) host_key_response)) (\<lambda>key.
     return_io (key, session))))))"

text \<open>The steps that the download and the upload share: building the client, login, then \<open>meta\<close>.\<close>

definition request_meta :: "string \<Rightarrow> string \<Rightarrow> string \<Rightarrow> ('db world, bytes \<times> string option) io" where
  "request_meta ep hkey session =
     bind_io (get_io env) (\<lambda>E.
     bind_io (of_option JsonError (json_to_string E meta_request)) (\<lambda>body.
     map_err (Context ''meta request failed'') (sync_request ep ''meta'' hkey session (as_bytes body))))"

definition begin_session :: "string \<Rightarrow> SyncConfig \<Rightarrow> ('db world, string \<times> string \<times> string \<times> bytes) io" where
  "begin_session ep config =
     seq_io (http_step ())
     (bind_io (login ep (username config) (password config)) (\<lambda>(hkey, session).
     bind_io (request_meta ep hkey session) (\<lambda>(data, new_endpoint).
     return_io (unwrap_or new_endpoint ep, hkey, session, data))))"

text \<open>The rest of \<open>sync_collection\<close> once the session is open.\<close>

definition download_collection ::
  "nat \<Rightarrow> string \<times> string \<times> string \<times> bytes \<Rightarrow> ('db world, SyncResult) io"
where
  "download_collection start = (\<lambda>(ep, hkey, session, meta_data).
     bind_io (get_io env) (\<lambda>E.
     bind_io (of_option (Context ''parsing meta response'' JsonError)
       (Option.bind (json_from_str E (string_of_bytes meta_data)) meta_response)) (\<lambda>meta.
     if meta_empty meta then fail_io (SyncError (DownloadFailed ''server collection is empty''))
     else
       bind_io (map_err (\<lambda>e. SyncError (DownloadFailed (error_text e)))
         (sync_request ep ''download'' hkey session (as_bytes ''{}''))) (\<lambda>(data, _).
       bind_io (tick_io (\<lambda>E k. of_nat (elapsed_ms E start k))) (\<lambda>ms.
       return_io \<lparr>collection_bytes = data, result_source_revision = None,
         result_sync_duration_ms = ms\<rparr>)))))"

definition sync_collection :: "SyncConfig \<Rightarrow> ('db world, SyncResult) io" where
  "sync_collection config =
     bind_io (tick_io (\<lambda>_ k. k)) (\<lambda>start.
     if username config = [] \<or> password config = [] then fail_io (SyncError MissingCredentials)
     else
       bind_io (begin_session (unwrap_or (endpoint config) DEFAULT_ENDPOINT) config)
         (download_collection start))"

definition upload_collection :: "SyncConfig \<Rightarrow> bytes \<Rightarrow> ('db world, unit) io" where
  "upload_collection config content =
     (if username config = [] \<or> password config = [] then fail_io (SyncError MissingCredentials)
      else
        bind_io (begin_session (unwrap_or (endpoint config) DEFAULT_ENDPOINT) config)
          (\<lambda>(ep, hkey, session, _).
        bind_io (map_err (Context ''upload request failed'')
          (sync_request ep ''upload'' hkey session content)) (\<lambda>_.
        return_io ())))"

section \<open>What a session sends and receives\<close>

text \<open>A computation that only talks: files and database are untouched, the trace grows by \<open>rs\<close>.\<close>

definition talks :: "'db world \<Rightarrow> 'db world \<Rightarrow> http_request list \<Rightarrow> bool" where
  "talks w w' rs \<longleftrightarrow> later w w' \<and> files w' = files w \<and> db w' = db w \<and> sent w' = sent w @ rs"

definition decoded :: "env \<Rightarrow> bytes \<Rightarrow> bytes option" where
  "decoded E content = (if starts_with zstd_magic content then zstd_decode E content else Some content)"

definition redirect_target :: "env \<Rightarrow> http_response \<Rightarrow> string option" where
  "redirect_target E resp =
     (if is_redirection (resp_status resp)
      then map_option (trim_end_matches (CHR ''/'')) (Option.bind (resp_location resp) (header_to_str E))
      else None)"

text \<open>
  The requests of one \<open>sync_request\<close>, to the bases in order: they differ in the base only.
\<close>

definition posts_to ::
  "env \<Rightarrow> string list \<Rightarrow> string \<Rightarrow> string \<Rightarrow> string \<Rightarrow> bytes \<Rightarrow> http_request list \<Rightarrow> bool"
where
  "posts_to E bases method hkey session body rs \<longleftrightarrow>
     (\<exists>header compressed. json_to_string E (sync_header hkey session) = Some header \<and>
        zstd_encode E body = Some compressed \<and>
        rs = map (\<lambda>base. sync_post base method header compressed) bases)"

text \<open>A request that may have failed: nothing was sent, or one request, or one and its redirect.\<close>

definition attempted ::
  "env \<Rightarrow> string \<Rightarrow> string \<Rightarrow> string \<Rightarrow> string \<Rightarrow> bytes \<Rightarrow> http_request list \<Rightarrow> bool"
where
  "attempted E ep method hkey session body rs \<longleftrightarrow> rs = [] \<or>
     (\<exists>bases. length bases \<le> 1 \<and>
        posts_to E (trim_end_matches (CHR ''/'') ep # bases) method hkey session body rs)"

text \<open>
  A request that succeeded: \<open>first\<close> answered the first post and decides on the redirect, \<open>data\<close>
  is the decoded body of the success that answered the last one.
\<close>

definition completed ::
  "env \<Rightarrow> string \<Rightarrow> string \<Rightarrow> string \<Rightarrow> string \<Rightarrow> bytes \<Rightarrow> http_request list \<Rightarrow> bytes \<Rightarrow> string option \<Rightarrow> bool"
where
  "completed E ep method hkey session body rs data ne \<longleftrightarrow>
     posts_to E (trim_end_matches (CHR ''/'') ep # (case ne of None \<Rightarrow> [] | Some b \<Rightarrow> [b]))
       method hkey session body rs \<and>
     (\<exists>k first. http_reply E k (hd rs) = Some first \<and> ne = redirect_target E first) \<and>
     (\<exists>k resp. http_reply E k (last rs) = Some resp \<and> is_success (resp_status resp) \<and>
        decoded E (resp_body resp) = Some data)"

definition logged_in ::
  "env \<Rightarrow> string \<Rightarrow> string \<Rightarrow> string \<Rightarrow> http_request list \<Rightarrow> string \<Rightarrow> string \<Rightarrow> bool"
where
  "logged_in E ep user pass rs hkey session \<longleftrightarrow>
     (\<exists>body data ne. json_to_string E (host_key_request user pass) = Some body \<and>
        completed E ep ''hostKey'' [] session (as_bytes body) rs data ne \<and>
        Option.bind (json_from_str E (string_of_bytes data)) host_key_response = Some hkey)"

definition login_attempted :: "env \<Rightarrow> string \<Rightarrow> string \<Rightarrow> string \<Rightarrow> http_request list \<Rightarrow> bool" where
  "login_attempted E ep user pass rs \<longleftrightarrow> rs = [] \<or>
     (\<exists>body session. json_to_string E (host_key_request user pass) = Some body \<and>
        attempted E ep ''hostKey'' [] session (as_bytes body) rs)"

definition session_opened ::
  "env \<Rightarrow> string \<Rightarrow> SyncConfig \<Rightarrow> http_request list \<Rightarrow> string \<Rightarrow> string \<Rightarrow> string \<Rightarrow> bytes \<Rightarrow> bool"
where
  "session_opened E ep config rs ep' hkey session data \<longleftrightarrow>
     (\<exists>rs1 rs2 body ne. rs = rs1 @ rs2 \<and>
        logged_in E ep (username config) (password config) rs1 hkey session \<and>
        json_to_string E meta_request = Some body \<and>
        completed E ep ''meta'' hkey session (as_bytes body) rs2 data ne \<and> ep' = unwrap_or ne ep)"

definition session_attempted :: "env \<Rightarrow> string \<Rightarrow> SyncConfig \<Rightarrow> http_request list \<Rightarrow> bool" where
  "session_attempted E ep config rs \<longleftrightarrow>
     login_attempted E ep (username config) (password config) rs \<or>
     (\<exists>rs1 rs2 hkey session body. rs = rs1 @ rs2 \<and>
        logged_in E ep (username config) (password config) rs1 hkey session \<and>
        attempted E ep ''meta'' hkey session body rs2)"

text \<open>
  What a transfer sent when it failed: part of a session, or a whole session and then only
  attempts at the transfer itself, with the key of that session.
\<close>

definition transfer_attempted ::
  "env \<Rightarrow> string \<Rightarrow> SyncConfig \<Rightarrow> string \<Rightarrow> bytes \<Rightarrow> http_request list \<Rightarrow> bool"
where
  "transfer_attempted E ep config method body rs \<longleftrightarrow>
     session_attempted E ep config rs \<or>
     (\<exists>rs1 rs2 ep' hkey session data. rs = rs1 @ rs2 \<and>
        session_opened E ep config rs1 ep' hkey session data \<and>
        attempted E ep' method hkey session body rs2)"

definition transferred ::
  "env \<Rightarrow> string \<Rightarrow> SyncConfig \<Rightarrow> string \<Rightarrow> bytes \<Rightarrow> http_request list \<Rightarrow> bytes \<Rightarrow> bytes \<Rightarrow> bool"
where
  "transferred E ep config method body rs meta_data data \<longleftrightarrow>
     (\<exists>rs1 rs2 ep' hkey session ne. rs = rs1 @ rs2 \<and>
        session_opened E ep config rs1 ep' hkey session meta_data \<and>
        completed E ep' method hkey session body rs2 data ne)"

text \<open>What the answer to \<open>meta\<close> must say before anything is downloaded.\<close>

definition meta_accepts :: "env \<Rightarrow> bytes \<Rightarrow> bool" where
  "meta_accepts E data \<longleftrightarrow>
     (case Option.bind (json_from_str E (string_of_bytes data)) meta_response of
        None \<Rightarrow> False
      | Some meta \<Rightarrow> \<not> meta_empty meta)"

text \<open>
  A server that answers: whenever it is asked, it gives the same answer, through the same
  redirect. \<open>serves\<close> is one that lets the user of \<open>config\<close> log in and answers one transfer.
\<close>

definition answers ::
  "env \<Rightarrow> string \<Rightarrow> string \<Rightarrow> string \<Rightarrow> string \<Rightarrow> bytes \<Rightarrow> bytes \<Rightarrow> string option \<Rightarrow> bool"
where
  "answers E ep method hkey session body data ne \<longleftrightarrow>
     (\<exists>header compressed first resp.
        json_to_string E (sync_header hkey session) = Some header \<and> zstd_encode E body = Some compressed \<and>
        (\<forall>k. http_reply E k (sync_post (trim_end_matches (CHR ''/'') ep) method header compressed) = Some first) \<and>
        redirect_target E first = ne \<and>
        (case ne of
           None \<Rightarrow> resp = first
         | Some base \<Rightarrow> \<forall>k. http_reply E k (sync_post base method header compressed) = Some resp) \<and>
        is_success (resp_status resp) \<and> decoded E (resp_body resp) = Some data)"

definition serves :: "env \<Rightarrow> string \<Rightarrow> SyncConfig \<Rightarrow> string \<Rightarrow> bytes \<Rightarrow> bytes \<Rightarrow> bool" where
  "serves E ep config method body data \<longleftrightarrow>
     (\<exists>cred meta hkey ep'.
        json_to_string E (host_key_request (username config) (password config)) = Some cred \<and>
        json_to_string E meta_request = Some meta \<and>
        (\<forall>session.
          (\<exists>d ne. answers E ep ''hostKey'' [] session (as_bytes cred) d ne \<and>
            Option.bind (json_from_str E (string_of_bytes d)) host_key_response = Some hkey) \<and>
          (\<exists>d ne. answers E ep ''meta'' hkey session (as_bytes meta) d ne \<and>
            meta_accepts E d \<and> ep' = unwrap_or ne ep) \<and>
          (\<exists>ne. answers E ep' method hkey session body data ne)))"

text \<open>Without faults, a computation that ends in a value and leaves the environment quiet.\<close>

definition quietly :: "'db world \<Rightarrow> 'db world \<Rightarrow> bool" where
  "quietly w w' \<longleftrightarrow> quiet w' \<and> env w' = env w"

definition has_credentials :: "SyncConfig \<Rightarrow> bool" where
  "has_credentials config \<longleftrightarrow> username config \<noteq> [] \<and> password config \<noteq> []"

definition config_endpoint :: "SyncConfig \<Rightarrow> string" where
  "config_endpoint config = unwrap_or (endpoint config) DEFAULT_ENDPOINT"

section \<open>Lemmas\<close>

subsection \<open>The session key\<close>

lemma length_session_table [simp]: "length session_table = 62"
  by (simp add: session_table_def)

lemma distinct_session_table: "distinct session_table"
  unfolding session_table_def by code_simp

lemma session_loop_0 [simp]: "session_loop 0 = []"
  by (subst session_loop.simps) simp

lemma session_loop_Cons:
  "0 < val \<Longrightarrow> session_loop val = session_table ! (unat val mod 62) # session_loop (val div 62)"
  by (subst session_loop.simps) (simp add: unat_mod)

lemma session_loop_eq_Nil [simp]: "session_loop val = [] \<longleftrightarrow> val = 0"
  by (cases "val = 0") (simp_all add: session_loop_Cons word_neq_0_conv)

lemma session_loop_chars: "set (session_loop val) \<subseteq> set session_table"
proof (induction val rule: session_loop.induct)
  case (1 val)
  then show ?case
    by (cases "val = 0") (simp_all add: session_loop_Cons word_neq_0_conv)
qed

lemma session_loop_length: "unat val < 62 ^ k \<Longrightarrow> length (session_loop val) \<le> k"
proof (induction k arbitrary: val)
  case 0
  then have "val = 0" by (simp add: unat_eq_0)
  then show ?case by simp
next
  case (Suc k)
  have "unat (val div 62) < 62 ^ k"
    using Suc.prems by (simp add: unat_div less_mult_imp_div_less)
  from Suc.IH [OF this] show ?case
    by (cases "val = 0") (simp_all add: session_loop_Cons word_neq_0_conv)
qed

lemma session_loop_inj: "session_loop a = session_loop b \<longleftrightarrow> a = b"
proof (induction a arbitrary: b rule: session_loop.induct)
  case (1 a)
  show ?case
  proof (cases "a = 0 \<or> b = 0")
    case True
    then show ?thesis by (metis session_loop_eq_Nil)
  next
    case False
    then have pos: "0 < a" "0 < b" by (simp_all add: word_neq_0_conv)
    have "session_loop (a div 62) = session_loop (b div 62) \<longleftrightarrow> a div 62 = b div 62"
      using 1 [OF pos(1)] by simp
    moreover have "session_table ! (unat a mod 62) = session_table ! (unat b mod 62)
        \<longleftrightarrow> unat a mod 62 = unat b mod 62"
      by (simp add: nth_eq_iff_index_eq [OF distinct_session_table])
    moreover have "a = b \<longleftrightarrow> unat a mod 62 = unat b mod 62 \<and> a div 62 = b div 62"
    proof -
      have "a = b" if "unat a mod 62 = unat b mod 62" "a div 62 = b div 62"
      proof -
        have "unat a div 62 = unat b div 62"
          using arg_cong [OF that(2), of unat] by (simp add: unat_div)
        with that(1) have "unat a = unat b" by (metis div_mult_mod_eq)
        then show ?thesis by (simp add: word_unat_eq_iff)
      qed
      then show ?thesis by blast
    qed
    ultimately show ?thesis using pos by (simp add: session_loop_Cons)
  qed
qed

subsection \<open>Requests\<close>

lemma runs_http_post:
  "runs (http_post req) w
     (\<lambda>resp w'. talks w w' [req] \<and> http_reply (env w) (step w) req = Some resp \<and> \<not> faulted w w')
     (\<lambda>_ w'. talks w w' [req] \<and> (faulted w w' \<or> http_reply (env w) (step w) req = None))"
  by (auto simp: http_post_def runs_def Let_def talks_def later_def faulted_def less_Suc_eq_le
      split: option.split)

lemma runs_http_step:
  "runs (http_step x) w (\<lambda>y w'. y = x \<and> talks w w' []) (\<lambda>_ w'. talks w w' [] \<and> faulted w w')"
  by (auto simp: http_step_def runs_def talks_def later_def faulted_def)

lemma talks_later: "talks w w' rs \<Longrightarrow> later w w'"
  by (simp add: talks_def)

lemma talks_env: "talks w w' rs \<Longrightarrow> env w' = env w"
  by (simp add: talks_def later_def)

lemma talks_refl [simp]: "talks w w []"
  by (simp add: talks_def)

lemma talks_tick [simp]: "talks w (w\<lparr>step := Suc (step w)\<rparr>) []"
  by (simp add: talks_def later_def)

lemma talks_trans: "talks a b rs \<Longrightarrow> talks b c qs \<Longrightarrow> talks a c (rs @ qs)"
  by (auto simp: talks_def later_def)

lemma talks_silent: "talks a b rs \<Longrightarrow> talks b c [] \<Longrightarrow> talks a c rs"
  by (auto simp: talks_def later_def)

lemma runs_follow_redirect:
  "runs (follow_redirect method header body first) w
     (\<lambda>(resp, ne) w'. ne = redirect_target (env w) first \<and>
        (case ne of
           None \<Rightarrow> w' = w \<and> resp = first
         | Some base \<Rightarrow> talks w w' [sync_post base method header body] \<and>
             http_reply (env w) (step w) (sync_post base method header body) = Some resp))
     (\<lambda>_ w'. \<exists>base. redirect_target (env w) first = Some base \<and>
        talks w w' [sync_post base method header body])"
proof (cases "redirect_target (env w) first")
  case None
  then show ?thesis
    by (auto simp: follow_redirect_def redirect_target_def wp_simps split: option.splits if_splits)
next
  case (Some base)
  have "runs (follow_redirect method header body first) w Q R =
      runs (bind_io (map_err (Context (''POST '' @ method_url base method @ '' (redirect)''))
        (http_post (sync_post base method header body))) (\<lambda>resp. return_io (resp, Some base))) w Q R"
    for Q :: "http_response \<times> string option \<Rightarrow> 'a world \<Rightarrow> bool" and R
    using Some by (auto simp: follow_redirect_def redirect_target_def wp_simps Let_def
        split: option.splits if_splits)
  then show ?thesis
    unfolding runs_bind runs_map_err runs_return
    by (simp only:, intro runs_mono [OF runs_http_post]) (use Some in auto)
qed

lemma runs_decode_response:
  "runs (decode_response method content) w
     (\<lambda>data w'. w' = w \<and> decoded (env w) content = Some data)
     (\<lambda>_ w'. w' = w \<and> decoded (env w) content = None)"
  by (simp add: decode_response_def decoded_def wp_simps split: option.split)

lemma runs_read_response:
  "runs (read_response method resp) w
     (\<lambda>data w'. talks w w' [] \<and> is_success (resp_status resp) \<and> decoded (env w) (resp_body resp) = Some data)
     (\<lambda>_ w'. talks w w' [])"
proof (cases "is_success (resp_status resp)")
  case True
  have "runs (decode_response method (resp_body resp)) w1
      (\<lambda>data w'. talks w w' [] \<and> decoded (env w) (resp_body resp) = Some data) (\<lambda>_ w'. talks w w' [])"
    if "talks w w1 []" for w1
    by (rule runs_mono [OF runs_decode_response]) (use that talks_env [OF that] in auto)
  with True show ?thesis
    by (auto simp: read_response_def wp_simps intro: runs_mono [OF runs_http_step])
next
  case False
  then show ?thesis
    by (auto simp: read_response_def wp_simps intro!: runs_mono [OF runs_http_step])
qed

lemma attemptedI:
  assumes "posts_to E (trim_end_matches (CHR ''/'') ep # bases) method hkey session body rs"
    and "length bases \<le> 1"
  shows "attempted E ep method hkey session body rs"
  using assms by (auto simp: attempted_def)

text \<open>
  \<open>sync_request\<close> after its first response: at most one more post, and the data come from the
  answer to the last one.
\<close>

lemma runs_after_first:
  assumes posts: "\<And>bases. posts_to (env w0) bases method hkey session body
      (map (\<lambda>base. sync_post base method header compressed) bases)"
    and talks: "talks w0 w [sync_post (trim_end_matches (CHR ''/'') ep) method header compressed]"
    and reply: "http_reply (env w0) (step w0)
      (sync_post (trim_end_matches (CHR ''/'') ep) method header compressed) = Some first"
  shows "runs (bind_io (follow_redirect method header compressed first) (\<lambda>(resp, ne).
      bind_io (read_response method resp) (\<lambda>data. return_io (data, ne)))) w
     (\<lambda>(data, ne) w'. \<exists>rs. talks w0 w' rs \<and> completed (env w0) ep method hkey session body rs data ne)
     (\<lambda>_ w'. \<exists>rs. talks w0 w' rs \<and> attempted (env w0) ep method hkey session body rs)"
  unfolding runs_bind
proof (rule runs_mono [OF runs_follow_redirect], goal_cases)
  case (1 p w1)
  obtain resp ne where p: "p = (resp, ne)" by (cases p)
  let ?post = "\<lambda>base. sync_post base method header compressed"
  let ?rs = "map ?post (trim_end_matches (CHR ''/'') ep # (case ne of None \<Rightarrow> [] | Some b \<Rightarrow> [b]))"
  have env: "env w = env w0" using talks by (rule talks_env)
  have t1: "talks w0 w1 ?rs" and ne: "ne = redirect_target (env w0) first"
    and last: "\<exists>k. http_reply (env w0) k (last ?rs) = Some resp"
    using 1 talks reply env by (auto simp: p split: option.splits dest: talks_trans)
  have ps: "posts_to (env w0) (trim_end_matches (CHR ''/'') ep # (case ne of None \<Rightarrow> [] | Some b \<Rightarrow> [b]))
      method hkey session body ?rs" by (rule posts)
  then have att: "attempted (env w0) ep method hkey session body ?rs"
    by (rule attemptedI) (simp split: option.split)
  have first: "http_reply (env w0) (step w0) (hd ?rs) = Some first" using reply by simp
  have comp: "completed (env w0) ep method hkey session body ?rs data ne"
    if "is_success (resp_status resp)" "decoded (env w0) (resp_body resp) = Some data" for data
    unfolding completed_def using ps first ne last that by blast
  have "runs (read_response method resp) w1
      (\<lambda>data w'. \<exists>rs. talks w0 w' rs \<and> completed (env w0) ep method hkey session body rs data ne)
      (\<lambda>_ w'. \<exists>rs. talks w0 w' rs \<and> attempted (env w0) ep method hkey session body rs)"
  proof (rule runs_mono [OF runs_read_response])
    fix data w'
    assume "talks w1 w' [] \<and> is_success (resp_status resp) \<and> decoded (env w1) (resp_body resp) = Some data"
    then show "\<exists>rs. talks w0 w' rs \<and> completed (env w0) ep method hkey session body rs data ne"
      using comp talks_env [OF t1] talks_silent [OF t1] by metis
  qed (use att talks_silent [OF t1] in blast)
  then show ?case by (simp add: p wp_simps)
next
  case (2 e w1)
  then obtain base where "talks w w1 [sync_post base method header compressed]" by blast
  from talks_trans [OF talks this] show ?case
    using attemptedI [OF posts [of "[trim_end_matches (CHR ''/'') ep, base]"]] by auto
qed

text \<open>The law of \<open>sync_request\<close>.\<close>

lemma runs_sync_request:
  "runs (sync_request ep method hkey session body) w
     (\<lambda>(data, ne) w'. \<exists>rs. talks w w' rs \<and> completed (env w) ep method hkey session body rs data ne)
     (\<lambda>_ w'. \<exists>rs. talks w w' rs \<and> attempted (env w) ep method hkey session body rs)"
proof (cases "zstd_encode (env w) body = None \<or> json_to_string (env w) (sync_header hkey session) = None")
  case True
  have "\<exists>rs. talks w w rs \<and> attempted (env w) ep method hkey session body rs"
    by (rule exI [of _ "[]"]) (simp add: attempted_def)
  with True show ?thesis
    by (auto simp: sync_request_def Let_def wp_simps split: option.split)
next
  case False
  then obtain compressed header where enc: "zstd_encode (env w) body = Some compressed"
      "json_to_string (env w) (sync_header hkey session) = Some header" by auto
  then have posts: "posts_to (env w) bases method hkey session body
      (map (\<lambda>base. sync_post base method header compressed) bases)" for bases
    by (auto simp: posts_to_def)
  note after = runs_after_first [OF posts]
  show ?thesis
    unfolding sync_request_def Let_def runs_bind [of "get_io env"] runs_bind [of "of_option e r" for e r]
      runs_bind [of "map_err g m" for g m] runs_get runs_of_option enc option.simps runs_map_err
  proof (rule runs_mono [OF runs_http_post])
    fix e w'
    assume "talks w w' [sync_post (trim_end_matches (CHR ''/'') ep) method header compressed] \<and>
      (faulted w w' \<or> http_reply (env w) (step w)
        (sync_post (trim_end_matches (CHR ''/'') ep) method header compressed) = None)"
    then show "\<exists>rs. talks w w' rs \<and> attempted (env w) ep method hkey session body rs"
      using attemptedI [OF posts [of "[trim_end_matches (CHR ''/'') ep]"]] by auto
  qed (rule after, auto)
qed

subsection \<open>Sessions\<close>

lemma attempted_Nil [simp]: "attempted E ep method hkey session body []"
  by (simp add: attempted_def)

lemma login_attempted_Nil [simp]: "login_attempted E ep user pass []"
  by (simp add: login_attempted_def)

lemma completed_attempted:
  assumes "completed E ep method hkey session body rs data ne"
  shows "attempted E ep method hkey session body rs"
proof (rule attemptedI)
  show "posts_to E (trim_end_matches (CHR ''/'') ep # (case ne of None \<Rightarrow> [] | Some b \<Rightarrow> [b]))
      method hkey session body rs"
    using assms by (simp add: completed_def)
qed (simp split: option.split)

lemma login_attemptedI:
  "json_to_string E (host_key_request user pass) = Some body \<Longrightarrow>
   attempted E ep ''hostKey'' [] session (as_bytes body) rs \<Longrightarrow> login_attempted E ep user pass rs"
  by (auto simp: login_attempted_def)

lemma logged_inI:
  "json_to_string E (host_key_request user pass) = Some body \<Longrightarrow>
   completed E ep ''hostKey'' [] session (as_bytes body) rs data ne \<Longrightarrow>
   Option.bind (json_from_str E (string_of_bytes data)) host_key_response = Some hkey \<Longrightarrow>
   logged_in E ep user pass rs hkey session"
  unfolding logged_in_def by blast

lemma runs_login:
  "runs (login ep user pass) w
     (\<lambda>(hkey, session) w'. \<exists>rs. talks w w' rs \<and> logged_in (env w) ep user pass rs hkey session)
     (\<lambda>_ w'. \<exists>rs. talks w w' rs \<and> login_attempted (env w) ep user pass rs)"
proof -
  let ?session = "session_id_of (random_u32 (env w) (step w))"
  let ?w1 = "w\<lparr>step := Suc (step w)\<rparr>"
  have t: "talks w w' rs" if "talks ?w1 w' rs" for w' rs
    using that by (auto simp: talks_def later_def)
  show ?thesis
  proof (cases "json_to_string (env w) (host_key_request user pass)")
    case None
    then show ?thesis
      by (auto simp: login_def simple_session_id_def wp_simps intro!: exI [of _ "[]"])
  next
    case (Some body)
    have "runs (sync_request ep ''hostKey'' [] ?session (as_bytes body)) ?w1
       (\<lambda>(data, ne) w'. \<exists>rs. talks w w' rs \<and>
          completed (env w) ep ''hostKey'' [] ?session (as_bytes body) rs data ne)
       (\<lambda>_ w'. \<exists>rs. talks w w' rs \<and> login_attempted (env w) ep user pass rs)"
      by (rule runs_mono [OF runs_sync_request])
        (use Some in \<open>auto simp: login_attempted_def dest!: t\<close>)
    then show ?thesis
      unfolding login_def simple_session_id_def runs_bind runs_tick runs_get runs_of_option runs_map_err
      using Some
      by (auto simp: wp_simps elim!: runs_mono split: option.split)
        (blast intro: login_attemptedI logged_inI completed_attempted)+
  qed
qed

lemma session_attempted_login:
  "login_attempted E ep (username config) (password config) rs \<Longrightarrow> session_attempted E ep config rs"
  by (simp add: session_attempted_def)

lemma session_attempted_meta:
  "logged_in E ep (username config) (password config) rs1 hkey session \<Longrightarrow>
   attempted E ep ''meta'' hkey session body rs2 \<Longrightarrow> session_attempted E ep config (rs1 @ rs2)"
  unfolding session_attempted_def by blast

lemma session_openedI:
  "logged_in E ep (username config) (password config) rs1 hkey session \<Longrightarrow>
   json_to_string E meta_request = Some body \<Longrightarrow>
   completed E ep ''meta'' hkey session (as_bytes body) rs2 data ne \<Longrightarrow>
   session_opened E ep config (rs1 @ rs2) (unwrap_or ne ep) hkey session data"
  unfolding session_opened_def by blast

lemma session_opened_attempted:
  "session_opened E ep config rs ep' hkey session data \<Longrightarrow> session_attempted E ep config rs"
  unfolding session_opened_def using session_attempted_meta completed_attempted by blast

text \<open>The \<open>meta\<close> step, from a world in which the login has ended.\<close>

lemma runs_request_meta:
  assumes t: "talks w w1 rs1" and l: "logged_in (env w) ep (username config) (password config) rs1 hkey session"
  shows "runs (request_meta ep hkey session) w1
     (\<lambda>(data, ne) w'. \<exists>rs. talks w w' rs \<and>
        session_opened (env w) ep config rs (unwrap_or ne ep) hkey session data)
     (\<lambda>_ w'. \<exists>rs. talks w w' rs \<and> session_attempted (env w) ep config rs)"
proof (cases "json_to_string (env w) meta_request")
  case None
  then show ?thesis
    using t session_attempted_meta [OF l attempted_Nil]
    by (auto simp: request_meta_def wp_simps talks_env [OF t])
next
  case (Some body)
  have ok: "\<exists>rs. talks w w' rs \<and> session_opened (env w) ep config rs (unwrap_or ne ep) hkey session data"
    if "talks w1 w' rs" "completed (env w) ep ''meta'' hkey session (as_bytes body) rs data ne" for w' rs data ne
    using talks_trans [OF t that(1)] session_openedI [OF l Some that(2)] by blast
  have err: "\<exists>rs. talks w w' rs \<and> session_attempted (env w) ep config rs"
    if "talks w1 w' rs" "attempted (env w) ep ''meta'' hkey session (as_bytes body) rs" for w' rs
    using talks_trans [OF t that(1)] session_attempted_meta [OF l that(2)] by blast
  show ?thesis
    unfolding request_meta_def runs_bind runs_get runs_of_option runs_map_err talks_env [OF t] Some option.simps
    by (rule runs_mono [OF runs_sync_request]) (use ok err in \<open>auto simp: talks_env [OF t]\<close>)
qed

lemma runs_begin_session:
  "runs (begin_session ep config) w
     (\<lambda>(ep', hkey, session, data) w'. \<exists>rs. talks w w' rs \<and>
        session_opened (env w) ep config rs ep' hkey session data)
     (\<lambda>_ w'. \<exists>rs. talks w w' rs \<and> session_attempted (env w) ep config rs)"
proof -
  have login: "runs (login ep (username config) (password config)) w1
     (\<lambda>(hkey, session) w'. \<exists>rs. talks w w' rs \<and>
        logged_in (env w) ep (username config) (password config) rs hkey session)
     (\<lambda>_ w'. \<exists>rs. talks w w' rs \<and> session_attempted (env w) ep config rs)"
    if t: "talks w w1 []" for w1
    by (rule runs_mono [OF runs_login])
      (use talks_trans [OF t] in \<open>auto simp: talks_env [OF t] intro: session_attempted_login\<close>)
  have silent: "\<exists>rs. talks w w' rs \<and> session_attempted (env w) ep config rs" if "talks w w' []" for w'
    using that session_attempted_login login_attempted_Nil by blast
  show ?thesis
    unfolding begin_session_def runs_seq
    by (rule runs_mono [OF runs_http_step])
      (auto simp: runs_bind runs_return silent
        intro!: runs_mono [OF login] runs_mono [OF runs_request_meta], blast+)
qed

subsection \<open>Transfers\<close>

lemma transfer_attempted_session:
  "session_attempted E ep config rs \<Longrightarrow> transfer_attempted E ep config method body rs"
  by (simp add: transfer_attempted_def)

lemma runs_transfer:
  assumes t: "talks w w1 rs1" and o: "session_opened (env w) ep config rs1 ep' hkey session meta_data"
  shows "runs (sync_request ep' method hkey session body) w1
     (\<lambda>(data, ne) w'. \<exists>rs. talks w w' rs \<and> transferred (env w) ep config method body rs meta_data data)
     (\<lambda>_ w'. \<exists>rs. talks w w' rs \<and> transfer_attempted (env w) ep config method body rs)"
proof -
  have ok: "\<exists>rs. talks w w' rs \<and> transferred (env w) ep config method body rs meta_data data"
    if "talks w1 w' rs" "completed (env w) ep' method hkey session body rs data ne" for w' rs data ne
    unfolding transferred_def using talks_trans [OF t that(1)] o that(2) by blast
  have err: "\<exists>rs. talks w w' rs \<and> transfer_attempted (env w) ep config method body rs"
    if "talks w1 w' rs" "attempted (env w) ep' method hkey session body rs" for w' rs
    unfolding transfer_attempted_def using talks_trans [OF t that(1)] o that(2) by blast
  show ?thesis
    by (rule runs_mono [OF runs_sync_request]) (use ok err in \<open>auto simp: talks_env [OF t]\<close>)
qed

lemma runs_upload_collection:
  "runs (upload_collection config content) w
     (\<lambda>_ w'. has_credentials config \<and> (\<exists>rs meta_data data. talks w w' rs \<and>
        transferred (env w) (config_endpoint config) config ''upload'' content rs meta_data data))
     (\<lambda>e w'. if has_credentials config
        then \<exists>rs. talks w w' rs \<and> transfer_attempted (env w) (config_endpoint config) config ''upload'' content rs
        else e = SyncError MissingCredentials \<and> w' = w)"
proof (cases "has_credentials config")
  case False
  then show ?thesis by (auto simp: upload_collection_def has_credentials_def wp_simps)
next
  case True
  have sess: "\<exists>rs. talks w w' rs \<and> transfer_attempted (env w) (config_endpoint config) config ''upload'' content rs"
    if "talks w w' rs" "session_attempted (env w) (config_endpoint config) config rs" for w' rs
    using that transfer_attempted_session by blast
  have up: "runs (bind_io (map_err (Context ''upload request failed'')
       (sync_request ep ''upload'' hkey session content)) (\<lambda>_. return_io ())) w1
     (\<lambda>_ w'. \<exists>rs meta_data data. talks w w' rs \<and>
        transferred (env w) (config_endpoint config) config ''upload'' content rs meta_data data)
     (\<lambda>e w'. \<exists>rs. talks w w' rs \<and>
        transfer_attempted (env w) (config_endpoint config) config ''upload'' content rs)"
    if "talks w w1 rs" "session_opened (env w) (config_endpoint config) config rs ep hkey session data"
    for w1 rs ep hkey session data
    unfolding runs_bind runs_map_err runs_return by (rule runs_mono [OF runs_transfer [OF that]]) auto
  have cred: "\<not> (username config = [] \<or> password config = [])"
    using True by (simp add: has_credentials_def)
  show ?thesis
    unfolding upload_collection_def if_not_P [OF cred] runs_bind config_endpoint_def [symmetric]
    by (rule runs_mono [OF runs_begin_session])
      (use True sess up in \<open>auto split: prod.splits\<close>)
qed

lemma runs_download:
  assumes t: "talks w w1 rs1" and o: "session_opened (env w) ep config rs1 ep' hkey session meta_data"
  shows "runs (download_collection start (ep', hkey, session, meta_data)) w1
     (\<lambda>r w'. result_source_revision r = None \<and>
        (\<exists>rs meta_data. talks w w' rs \<and> meta_accepts (env w) meta_data \<and>
          transferred (env w) ep config ''download'' (as_bytes ''{}'') rs meta_data (collection_bytes r)))
     (\<lambda>_ w'. \<exists>rs. talks w w' rs \<and> transfer_attempted (env w) ep config ''download'' (as_bytes ''{}'') rs)"
proof (cases "meta_accepts (env w) meta_data")
  case False
  then show ?thesis
    using t transfer_attempted_session [OF session_opened_attempted [OF o]]
    by (auto simp: download_collection_def meta_accepts_def wp_simps talks_env [OF t] split: option.split)
next
  case True
  then obtain meta where m: "\<not> meta_empty meta"
      "Option.bind (json_from_str (env w) (string_of_bytes meta_data)) meta_response = Some meta"
    by (auto simp: meta_accepts_def split: option.splits)
  have tick: "talks w (w'\<lparr>step := Suc (step w')\<rparr>) rs" if "talks w w' rs" for w' rs
    by (rule talks_silent [OF that]) simp
  show ?thesis
    unfolding download_collection_def prod.case runs_bind runs_get runs_of_option talks_env [OF t]
      m(2) option.simps if_not_P [OF m(1)] runs_map_err
    by (rule runs_mono [OF runs_transfer [OF t o]]) (use True tick in \<open>auto simp: wp_simps, blast+\<close>)
qed

lemma runs_sync_collection:
  "runs (sync_collection config) w
     (\<lambda>r w'. has_credentials config \<and> result_source_revision r = None \<and>
        (\<exists>rs meta_data. talks w w' rs \<and> meta_accepts (env w) meta_data \<and>
          transferred (env w) (config_endpoint config) config ''download'' (as_bytes ''{}'') rs meta_data
            (collection_bytes r)))
     (\<lambda>e w'. if has_credentials config
        then \<exists>rs. talks w w' rs \<and>
          transfer_attempted (env w) (config_endpoint config) config ''download'' (as_bytes ''{}'') rs
        else e = SyncError MissingCredentials \<and> talks w w' [])"
proof (cases "has_credentials config")
  case False
  then show ?thesis by (auto simp: sync_collection_def has_credentials_def wp_simps)
next
  case True
  let ?w0 = "w\<lparr>step := Suc (step w)\<rparr>"
  have cred: "\<not> (username config = [] \<or> password config = [])"
    using True by (simp add: has_credentials_def)
  have tick: "talks w w' rs" if "talks ?w0 w' rs" for w' rs
    using that by (auto simp: talks_def later_def)
  have sess: "\<exists>rs. talks w w' rs \<and> transfer_attempted (env w) (config_endpoint config) config ''download'' b rs"
    if "talks w w' rs" "session_attempted (env w) (config_endpoint config) config rs" for w' rs b
    using that transfer_attempted_session by blast
  have sess0: "runs (begin_session (config_endpoint config) config) ?w0
     (\<lambda>(ep', hkey, session, data) w'. \<exists>rs. talks w w' rs \<and>
        session_opened (env w) (config_endpoint config) config rs ep' hkey session data)
     (\<lambda>_ w'. \<exists>rs. talks w w' rs \<and> session_attempted (env w) (config_endpoint config) config rs)"
    by (rule runs_mono [OF runs_begin_session]) (auto dest!: tick)
  show ?thesis
    unfolding sync_collection_def if_not_P [OF cred] runs_bind runs_tick config_endpoint_def [symmetric]
    by (rule runs_mono [OF sess0])
      (use True sess in \<open>auto intro!: runs_mono [OF runs_download]\<close>)
qed

subsection \<open>A server that answers\<close>

lemma runs_http_post_quiet:
  assumes "quiet w" and "\<forall>k. http_reply (env w) k req = Some resp"
  shows "runs (http_post req) w (\<lambda>r w'. r = resp \<and> quietly w w') (\<lambda>_ _. False)"
  using assms by (auto simp: http_post_def runs_def Let_def quiet_def quietly_def)

lemma runs_http_step_quiet:
  assumes "quiet w"
  shows "runs (http_step x) w (\<lambda>r w'. r = x \<and> quietly w w') (\<lambda>_ _. False)"
  using assms by (auto simp: http_step_def runs_def quiet_def quietly_def)

lemma runs_tick_quiet:
  assumes "quiet w"
  shows "runs (tick_io f) w (\<lambda>_ w'. quietly w w') (\<lambda>_ _. False)"
  using assms by (auto simp: wp_simps quiet_def quietly_def)

lemma quietly_trans: "quietly a b \<Longrightarrow> quietly b c \<Longrightarrow> quietly a c"
  by (simp add: quietly_def)

lemma runs_read_response_quiet:
  assumes q: "quiet w" and s: "is_success (resp_status resp)" and d: "decoded (env w) (resp_body resp) = Some data"
  shows "runs (read_response method resp) w (\<lambda>r w'. r = data \<and> quietly w w') (\<lambda>_ _. False)"
proof -
  have "runs (decode_response method (resp_body resp)) w1 (\<lambda>r w'. r = data \<and> quietly w w') (\<lambda>_ _. False)"
    if "quietly w w1" for w1
    by (rule runs_mono [OF runs_decode_response]) (use that d in \<open>auto simp: quietly_def\<close>)
  then show ?thesis
    unfolding read_response_def runs_bind runs_get
    using s by (auto simp: wp_simps intro!: runs_mono [OF runs_http_step_quiet [OF q]])
qed

lemma runs_follow_redirect_quiet:
  assumes q: "quiet w" and t: "redirect_target (env w) first = ne"
    and r: "case ne of None \<Rightarrow> resp = first
      | Some base \<Rightarrow> \<forall>k. http_reply (env w) k (sync_post base method header body) = Some resp"
  shows "runs (follow_redirect method header body first) w (\<lambda>p w'. p = (resp, ne) \<and> quietly w w') (\<lambda>_ _. False)"
proof (cases ne)
  case None
  with assms show ?thesis
    by (auto simp: follow_redirect_def redirect_target_def quietly_def wp_simps split: option.splits if_splits)
next
  case (Some base)
  have "runs (follow_redirect method header body first) w Q R =
      runs (http_post (sync_post base method header body)) w (\<lambda>resp. Q (resp, Some base))
        (\<lambda>e. R (Context (''POST '' @ method_url base method @ '' (redirect)'') e))" for Q R
    using t Some by (auto simp: follow_redirect_def redirect_target_def wp_simps Let_def
        split: option.splits if_splits)
  moreover have "\<forall>k. http_reply (env w) k (sync_post base method header body) = Some resp"
    using r Some by simp
  ultimately show ?thesis
    using runs_http_post_quiet [OF q] Some by simp
qed

lemma runs_sync_request_quiet:
  assumes q: "quiet w" and a: "answers (env w) ep method hkey session body data ne"
  shows "runs (sync_request ep method hkey session body) w (\<lambda>p w'. p = (data, ne) \<and> quietly w w') (\<lambda>_ _. False)"
proof -
  from a obtain header compressed first resp where
    enc: "zstd_encode (env w) body = Some compressed" "json_to_string (env w) (sync_header hkey session) = Some header"
    and first: "\<forall>k. http_reply (env w) k
      (sync_post (trim_end_matches (CHR ''/'') ep) method header compressed) = Some first"
    and ne: "redirect_target (env w) first = ne"
    and resp: "case ne of None \<Rightarrow> resp = first
      | Some base \<Rightarrow> \<forall>k. http_reply (env w) k (sync_post base method header compressed) = Some resp"
    and ok: "is_success (resp_status resp)" "decoded (env w) (resp_body resp) = Some data"
    unfolding answers_def by blast
  have read: "runs (read_response method resp) w2 (\<lambda>d w'. (d, ne) = (data, ne) \<and> quietly w w') (\<lambda>_ _. False)"
    if "quietly w w2" for w2
    by (rule runs_mono [OF runs_read_response_quiet]) (use that ok in \<open>auto simp: quietly_def\<close>)
  have redirect: "runs (follow_redirect method header compressed first) w1
      (\<lambda>p w'. p = (resp, ne) \<and> quietly w w') (\<lambda>_ _. False)" if "quietly w w1" for w1
    by (rule runs_mono [OF runs_follow_redirect_quiet]) (use that ne resp in \<open>auto simp: quietly_def cong: option.case_cong\<close>)
  show ?thesis
    unfolding sync_request_def Let_def runs_bind runs_get runs_of_option enc option.simps runs_map_err runs_return
    by (auto simp: runs_bind runs_return intro!: runs_mono [OF runs_http_post_quiet [OF q first]] runs_mono [OF redirect] runs_mono [OF read])
qed

lemma runs_login_quiet:
  assumes q: "quiet w" and j: "json_to_string (env w) (host_key_request user pass) = Some cred"
    and a: "\<And>session. \<exists>d ne. answers (env w) ep ''hostKey'' [] session (as_bytes cred) d ne \<and>
      Option.bind (json_from_str (env w) (string_of_bytes d)) host_key_response = Some hkey"
  shows "runs (login ep user pass) w (\<lambda>(k, _) w'. k = hkey \<and> quietly w w') (\<lambda>_ _. False)"
proof -
  let ?session = "session_id_of (random_u32 (env w) (step w))"
  obtain d ne where d: "answers (env w) ep ''hostKey'' [] ?session (as_bytes cred) d ne"
      "Option.bind (json_from_str (env w) (string_of_bytes d)) host_key_response = Some hkey"
    using a by blast
  have "runs (sync_request ep ''hostKey'' [] ?session (as_bytes cred)) (w\<lparr>step := Suc (step w)\<rparr>)
      (\<lambda>p w'. p = (d, ne) \<and> quietly w w') (\<lambda>_ _. False)"
    by (rule runs_mono [OF runs_sync_request_quiet]) (use q d in \<open>auto simp: quietly_def quiet_def\<close>)
  then show ?thesis
    unfolding login_def simple_session_id_def runs_bind runs_tick runs_get runs_of_option runs_map_err
    by (auto simp: j d wp_simps elim!: runs_mono)
qed

lemma runs_request_meta_quiet:
  assumes "quiet w" and "json_to_string (env w) meta_request = Some meta"
    and "answers (env w) ep ''meta'' hkey session (as_bytes meta) d ne"
  shows "runs (request_meta ep hkey session) w (\<lambda>p w'. p = (d, ne) \<and> quietly w w') (\<lambda>_ _. False)"
  using runs_sync_request_quiet [OF assms(1,3)] assms(2) by (simp add: request_meta_def wp_simps)

lemma runs_begin_session_quiet:
  assumes q: "quiet w" and s: "serves (env w) ep config method body data"
  shows "runs (begin_session ep config) w
    (\<lambda>(ep', hkey, session, d) w'. quietly w w' \<and> meta_accepts (env w) d \<and>
      (\<exists>ne. answers (env w) ep' method hkey session body data ne)) (\<lambda>_ _. False)"
proof -
  from s obtain cred meta hkey ep' where
    j: "json_to_string (env w) (host_key_request (username config) (password config)) = Some cred"
       "json_to_string (env w) meta_request = Some meta"
    and key: "\<And>session. \<exists>d ne. answers (env w) ep ''hostKey'' [] session (as_bytes cred) d ne \<and>
       Option.bind (json_from_str (env w) (string_of_bytes d)) host_key_response = Some hkey"
    and met: "\<And>session. \<exists>d ne. answers (env w) ep ''meta'' hkey session (as_bytes meta) d ne \<and>
       meta_accepts (env w) d \<and> ep' = unwrap_or ne ep"
    and fin: "\<And>session. \<exists>ne. answers (env w) ep' method hkey session body data ne"
    unfolding serves_def by blast
  have login: "runs (login ep (username config) (password config)) w1 (\<lambda>(k, _) w'. k = hkey \<and> quietly w w')
      (\<lambda>_ _. False)" if "quietly w w1" for w1
    by (rule runs_mono [OF runs_login_quiet]) (use that j key in \<open>auto simp: quietly_def\<close>)
  have meta: "runs (request_meta ep hkey session) w2 (\<lambda>(d, ne) w'. quietly w w' \<and> meta_accepts (env w) d \<and>
      (\<exists>ne'. answers (env w) (unwrap_or ne ep) method hkey session body data ne')) (\<lambda>_ _. False)"
    if "quietly w w2" for w2 session
  proof -
    obtain d ne where d: "answers (env w) ep ''meta'' hkey session (as_bytes meta) d ne"
        "meta_accepts (env w) d" "ep' = unwrap_or ne ep" using met by blast
    show ?thesis
      by (rule runs_mono [OF runs_request_meta_quiet])
        (use that j d fin [of session] in \<open>auto simp: quietly_def\<close>)
  qed
  show ?thesis
    unfolding begin_session_def runs_seq runs_bind
    by (auto simp: runs_bind runs_return intro!: runs_mono [OF runs_http_step_quiet [OF q]] runs_mono [OF login]
        runs_mono [OF meta], blast)
qed

lemma runs_download_quiet:
  assumes "quiet w" and "meta_accepts (env w) d"
    and "answers (env w) ep ''download'' hkey session (as_bytes ''{}'') data ne"
  shows "runs (download_collection start (ep, hkey, session, d)) w
    (\<lambda>r w'. collection_bytes r = data \<and> quietly w w') (\<lambda>_ _. False)"
proof -
  from assms(2) obtain meta where m: "\<not> meta_empty meta"
      "Option.bind (json_from_str (env w) (string_of_bytes d)) meta_response = Some meta"
    by (auto simp: meta_accepts_def split: option.splits)
  show ?thesis
    unfolding download_collection_def prod.case runs_bind runs_get runs_of_option
      m(2) option.simps if_not_P [OF m(1)] runs_map_err
    by (rule runs_mono [OF runs_sync_request_quiet [OF assms(1,3)]])
      (auto simp: wp_simps quietly_def quiet_def)
qed

lemma runs_sync_collection_quiet:
  assumes q: "quiet w" and c: "has_credentials config"
    and s: "serves (env w) (config_endpoint config) config ''download'' (as_bytes ''{}'') data"
  shows "runs (sync_collection config) w (\<lambda>r w'. collection_bytes r = data \<and> quietly w w') (\<lambda>_ _. False)"
proof -
  have cred: "\<not> (username config = [] \<or> password config = [])"
    using c by (simp add: has_credentials_def)
  let ?w0 = "w\<lparr>step := Suc (step w)\<rparr>"
  have q0: "quiet ?w0" "env ?w0 = env w" using q by (auto simp: quiet_def)
  have dl: "runs (download_collection (step w) (ep, hkey, session, d)) w1
      (\<lambda>r w'. collection_bytes r = data \<and> quietly w w') (\<lambda>_ _. False)"
    if "quietly ?w0 w1" "meta_accepts (env w) d"
      "answers (env w) ep ''download'' hkey session (as_bytes ''{}'') data ne" for w1 ep hkey session d ne
    by (rule runs_mono [OF runs_download_quiet]) (use that in \<open>auto simp: quietly_def\<close>)
  show ?thesis
    unfolding sync_collection_def runs_bind runs_tick if_not_P [OF cred] config_endpoint_def [symmetric]
    by (rule runs_mono [OF runs_begin_session_quiet [OF q0(1)]]) (use s dl in auto)
qed

end
