(* ===== verification/Sync_Facts.thy ===== *)
theory Sync_Facts
  imports Example_World Sync_Client
begin

text \<open>
  What the AnkiWeb client guarantees, for every behaviour of the network. \<open>transferred\<close> spells out a
  complete exchange: the login with the password, \<open>meta\<close> with the host key of the login, and the
  transfer with the same key at the host that \<open>meta\<close> redirected to; \<open>transfer_attempted\<close> is how far an
  exchange that failed may have come.
\<close>

section \<open>Definitions\<close>

definition zstd_codec :: "env \<Rightarrow> bool" where
  "zstd_codec E \<longleftrightarrow> (\<forall>content z. zstd_encode E content = Some z \<longrightarrow> zstd_decode E z = Some content)"

definition demo_config :: SyncConfig where
  "demo_config = \<lparr>username = ''ann'', password = ''secret'', endpoint = None\<rparr>"

section \<open>Lemmas\<close>

lemma string_of_bytes_as_bytes [simp]: "string_of_bytes (as_bytes s) = s"
  by (simp add: string_of_bytes_def as_bytes_def comp_def unat_of_char)

subsection \<open>The length of an exchange\<close>

lemma attempted_length: "attempted E ep method hkey session body rs \<Longrightarrow> length rs \<le> 2"
  by (auto simp: attempted_def posts_to_def)

lemma logged_in_length: "logged_in E ep user pass rs hkey session \<Longrightarrow> length rs \<le> 2"
  by (auto simp: logged_in_def dest: completed_attempted attempted_length)

lemma session_opened_length: "session_opened E ep config rs ep' hkey session data \<Longrightarrow> length rs \<le> 4"
  by (auto simp: session_opened_def dest!: logged_in_length completed_attempted attempted_length)

lemma session_attempted_length: "session_attempted E ep config rs \<Longrightarrow> length rs \<le> 4"
  by (auto simp: session_attempted_def login_attempted_def dest!: logged_in_length attempted_length)

lemma transfer_attempted_length: "transfer_attempted E ep config method body rs \<Longrightarrow> length rs \<le> 6"
  by (auto simp: transfer_attempted_def dest!: session_attempted_length session_opened_length attempted_length)

lemma transferred_length: "transferred E ep config method body rs d data \<Longrightarrow> length rs \<le> 6"
  by (auto simp: transferred_def dest!: session_opened_length completed_attempted attempted_length)

subsection \<open>The example server\<close>

lemma demo_net:
  "json_to_string demo_env j = Some (show_nat (to_nat j))" "json_from_str demo_env (show_nat (to_nat j)) = Some j"
  "zstd_encode demo_env content = Some (0x28 # 0xb5 # 0x2f # 0xfd # content)"
  "http_reply demo_env k = demo_reply" "header_to_str demo_env = Some"
  by (simp_all add: demo_env_def)

lemma demo_zstd_codec: "zstd_codec demo_env"
  by (auto simp: zstd_codec_def demo_env_def)

lemma digits_no_zstd: "\<not> starts_with zstd_magic (as_bytes (show_nat n))"
proof -
  obtain d cs where d: "d < 10" "show_nat n = digit_char d # cs" using show_nat_hd by blast
  have "unat (of_char (digit_char d) :: u8) = 48 + d"
    using d(1) by (simp add: unat_of_char digit_char_def)
  then have "(of_char (digit_char d) :: u8) \<noteq> 0x28" using unsigned_numeral by fastforce
  then show ?thesis by (auto simp: d(2) as_bytes_def zstd_magic_def starts_with_def)
qed

lemma decoded_document [simp]: "decoded demo_env (demo_document j) = Some (demo_document j)"
  by (simp add: decoded_def demo_document_def digits_no_zstd)

lemma trim_default: "trim_end_matches (CHR ''/'') DEFAULT_ENDPOINT = ''https://sync.ankiweb.net''"
  by (simp add: trim_end_matches_def DEFAULT_ENDPOINT_def)

lemma trim_shard: "trim_end_matches (CHR ''/'') ''https://sync7.ankiweb.net/'' = ''https://sync7.ankiweb.net''"
  "trim_end_matches (CHR ''/'') ''https://sync7.ankiweb.net'' = ''https://sync7.ankiweb.net''"
  by (simp_all add: trim_end_matches_def)

lemma demo_redirects:
  "redirect_target demo_env \<lparr>resp_status = 200, resp_location = None, resp_body = b\<rparr> = None"
  "redirect_target demo_env \<lparr>resp_status = 308, resp_location = Some ''https://sync7.ankiweb.net/'', resp_body = b\<rparr> =
     Some ''https://sync7.ankiweb.net''"
  by (simp_all add: redirect_target_def is_redirection_def demo_net trim_shard)

lemmas demo_answer_simps = answers_def demo_net demo_reply_def demo_ok_def sync_post_def method_url_def
  trim_default trim_shard demo_redirects is_success_def

lemma demo_host_key:
  "answers demo_env DEFAULT_ENDPOINT ''hostKey'' k s b (demo_document (JObject [(''key'', JString ''k'')])) None"
  by (simp add: demo_answer_simps)

lemma demo_meta:
  "answers demo_env DEFAULT_ENDPOINT ''meta'' k s b (demo_document (JObject [])) (Some ''https://sync7.ankiweb.net'')"
  by (simp add: demo_answer_simps)

lemma demo_download:
  "answers demo_env ''https://sync7.ankiweb.net'' ''download'' k s b [1, 2, 3] None"
proof -
  have "decoded demo_env [0x28, 0xb5, 0x2f, 0xfd, 1, 2, 3] = Some [1, 2, 3]"
    by (simp add: decoded_def starts_with_def zstd_magic_def demo_env_def)
  then show ?thesis by (simp add: demo_answer_simps)
qed

lemma demo_document_text [simp]: "json_from_str demo_env (string_of_bytes (demo_document j)) = Some j"
  by (simp add: demo_document_def demo_net)

lemma demo_serves: "serves demo_env DEFAULT_ENDPOINT demo_config ''download'' (as_bytes ''{}'') [1, 2, 3]"
proof -
  have key: "host_key_response (JObject [(''key'', JString ''k'')]) = Some ''k''"
    by (simp add: json_field_def)
  have meta: "meta_accepts demo_env (demo_document (JObject []))"
    by (simp add: meta_accepts_def default_field_def meta_of_parts_def)
  have 1: "\<exists>d ne. answers demo_env DEFAULT_ENDPOINT ''hostKey'' [] s b d ne \<and>
      Option.bind (json_from_str demo_env (string_of_bytes d)) host_key_response = Some ''k''" for s b
    using demo_host_key [of "[]" s b] key
    by (intro exI [of _ "demo_document (JObject [(''key'', JString ''k'')])"] exI [of _ None]) simp
  have 2: "\<exists>d ne. answers demo_env DEFAULT_ENDPOINT ''meta'' ''k'' s b d ne \<and> meta_accepts demo_env d \<and>
      ''https://sync7.ankiweb.net'' = unwrap_or ne DEFAULT_ENDPOINT" for s b
    using demo_meta [of "''k''" s b] meta
    by (intro exI [of _ "demo_document (JObject [])"] exI [of _ "Some ''https://sync7.ankiweb.net''"]) simp
  show ?thesis
    unfolding serves_def using demo_net(1) 1 2 demo_download by blast
qed

lemma demo_credentials: "has_credentials demo_config" "config_endpoint demo_config = DEFAULT_ENDPOINT"
  by (simp_all add: has_credentials_def config_endpoint_def demo_config_def)

lemma completed_last:
  assumes "completed E ep method hkey session body rs data ne"
  obtains qs base header z k resp where "rs = qs @ [sync_post base method header z]"
    "zstd_encode E body = Some z" "json_to_string E (sync_header hkey session) = Some header"
    "http_reply E k (sync_post base method header z) = Some resp" "is_success (resp_status resp)"
proof -
  let ?bases = "trim_end_matches (CHR ''/'') ep # (case ne of None \<Rightarrow> [] | Some b \<Rightarrow> [b])"
  obtain header z k resp where p: "json_to_string E (sync_header hkey session) = Some header"
      "zstd_encode E body = Some z" "rs = map (\<lambda>base. sync_post base method header z) ?bases"
      "http_reply E k (last rs) = Some resp" "is_success (resp_status resp)"
    using assms unfolding completed_def posts_to_def by blast
  have l: "last rs = sync_post (last ?bases) method header z" unfolding p(3) by (rule last_map) simp
  have "rs = butlast rs @ [sync_post (last ?bases) method header z]"
    unfolding l [symmetric] using p(3) by (intro append_butlast_last_id [symmetric]) simp
  then show ?thesis using that p l by metis
qed

section \<open>Download and upload\<close>

text \<open>C8. A download that succeeds was one complete exchange, answered with success at every step,
  and its bytes are the decoded body of the answer to the last request; one that fails has sent at
  most a part of such an exchange, and nothing at all without credentials. At most six requests are
  sent, and neither files nor database change.\<close>

theorem sync_collection_correct:
  "runs (sync_collection config) w
    (\<lambda>r w'. has_credentials config \<and> files w' = files w \<and> db w' = db w \<and>
       (\<exists>rs meta_data. sent w' = sent w @ rs \<and> length rs \<le> 6 \<and> meta_accepts (env w) meta_data \<and>
          transferred (env w) (config_endpoint config) config ''download'' (as_bytes ''{}'') rs meta_data
            (collection_bytes r)))
    (\<lambda>e w'. files w' = files w \<and> db w' = db w \<and>
       (\<exists>rs. sent w' = sent w @ rs \<and> length rs \<le> 6 \<and>
          (if has_credentials config
           then transfer_attempted (env w) (config_endpoint config) config ''download'' (as_bytes ''{}'') rs
           else rs = [] \<and> e = SyncError MissingCredentials)))"
  by (rule runs_mono [OF runs_sync_collection])
     (auto simp: talks_def split: if_splits dest: transferred_length transfer_attempted_length)

text \<open>C33. Progress: against a server that answers, a download without failing calls returns exactly
  the collection that the server holds.\<close>

theorem sync_collection_completes:
  assumes "quiet w" "has_credentials config"
    and "serves (env w) (config_endpoint config) config ''download'' (as_bytes ''{}'') content"
  shows "\<exists>r w'. sync_collection config w = (Inr r, w') \<and> collection_bytes r = content"
  using runs_sync_collection_quiet [OF assms] by (elim runs_no_errorE) blast

theorem sync_collection_completes_witness:
  "\<exists>r w'. sync_collection demo_config (demo_world demo_env demo_sqlite) = (Inr r, w') \<and>
     collection_bytes r = [1, 2, 3]"
  by (rule sync_collection_completes) (simp_all add: demo_quiet demo_credentials demo_serves)

text \<open>C34. Round trip of an upload: when it succeeds, the last request went to an \<open>upload\<close> URL and was
  answered with success, and decompressing its body gives back the collection.\<close>

theorem upload_collection_delivers:
  assumes "zstd_codec (env w)"
  shows "runs (upload_collection config content) w
    (\<lambda>_ w'. \<exists>rs q base k resp. sent w' = sent w @ rs @ [q] \<and> req_url q = method_url base ''upload'' \<and>
       zstd_decode (env w) (req_body q) = Some content \<and>
       http_reply (env w) k q = Some resp \<and> is_success (resp_status resp))
    (\<lambda>_ _. True)"
proof (rule runs_mono [OF runs_upload_collection])
  fix x w'
  assume "has_credentials config \<and> (\<exists>rs meta_data data. talks w w' rs \<and>
    transferred (env w) (config_endpoint config) config ''upload'' content rs meta_data data)"
  then obtain rs1 rs2 ep hkey session data ne where t: "talks w w' (rs1 @ rs2)"
    and c: "completed (env w) ep ''upload'' hkey session content rs2 data ne"
    by (auto simp: transferred_def)
  obtain qs base header z k resp where q: "rs2 = qs @ [sync_post base ''upload'' header z]"
      "zstd_encode (env w) content = Some z" "http_reply (env w) k (sync_post base ''upload'' header z) = Some resp"
      "is_success (resp_status resp)"
    using c by (rule completed_last)
  have "sent w' = sent w @ (rs1 @ qs) @ [sync_post base ''upload'' header z]"
    using t q(1) by (simp add: talks_def)
  moreover have "req_url (sync_post base ''upload'' header z) = method_url base ''upload''"
    "zstd_decode (env w) (req_body (sync_post base ''upload'' header z)) = Some content"
    using assms q(2) by (simp_all add: sync_post_def zstd_codec_def)
  ultimately show "\<exists>rs q base k resp. sent w' = sent w @ rs @ [q] \<and> req_url q = method_url base ''upload'' \<and>
       zstd_decode (env w) (req_body q) = Some content \<and>
       http_reply (env w) k q = Some resp \<and> is_success (resp_status resp)"
    using q(3,4) by blast
qed simp

theorem upload_collection_delivers_witness:
  "runs (upload_collection demo_config [9]) (demo_world demo_env demo_sqlite)
    (\<lambda>_ w'. \<exists>rs q. sent w' = rs @ [q] \<and> zstd_decode demo_env (req_body q) = Some [9]) (\<lambda>_ _. True)"
  by (rule runs_mono [OF upload_collection_delivers]) (auto simp: demo_zstd_codec)

section \<open>The session key\<close>

text \<open>C35. The loop that writes the session key ends, with one to six letters and digits; two drawn
  numbers get the same key only if they are equal, or if they are 0 and 52.\<close>

theorem session_id_correct:
  "session_id_of n \<noteq> [] \<and> length (session_id_of n) \<le> 6 \<and> set (session_id_of n) \<subseteq> set session_table \<and>
   (session_id_of n = session_id_of m \<longleftrightarrow> n = m \<or> n = 0 \<and> m = 52 \<or> n = 52 \<and> m = 0)"
proof -
  have u: "unat (ucast k :: u64) = unat k" for k :: u32
    by (simp add: unsigned_ucast_eq take_bit_nat_eq_self unsigned_less [THEN order.strict_trans])
  have inj: "(ucast k :: u64) = ucast l \<longleftrightarrow> k = l" for k l :: u32
    by (simp add: word_unat_eq_iff u)
  have zero: "(ucast k :: u64) = 0 \<longleftrightarrow> k = 0" for k :: u32
    using inj [of k 0] by simp
  have z: "''0'' = session_loop 52"
    by (simp add: session_loop_Cons session_table_def)
  have key: "session_id_of k = session_loop (if k = 0 then 52 else ucast k)" for k
    by (simp add: session_id_of_def zero z)
  have "unat (if k = 0 then 52 else ucast k :: u64) < 62 ^ 6" for k :: u32
    using unsigned_less [of k, where ?'a = nat] by (simp add: u)
  then have "length (session_id_of n) \<le> 6" unfolding key by (rule session_loop_length)
  moreover have "(if n = 0 then 52 else ucast n :: u64) = (if m = 0 then 52 else ucast m) \<longleftrightarrow>
      n = m \<or> n = 0 \<and> m = 52 \<or> n = 52 \<and> m = 0"
    using inj [of n m] inj [of n 52] inj [of 52 m] by auto
  moreover have "(if n = 0 then 52 else ucast n :: u64) \<noteq> 0" by (simp add: zero)
  ultimately show ?thesis unfolding key session_loop_inj session_loop_eq_Nil
    using session_loop_chars by blast
qed

end
