(* ===== verification/Server.thy ===== *)
theory Server
  imports Repository Sync_Client
begin

text \<open>
  \<open>crates/daemon/src/server.rs\<close>: the HTTP service. A handler is a computation that ends in a status
  code or in what it answers with; the text of a JSON document and the HTML of the two templates are
  left to axum and askama. The mutex around the time of the last rollback is held for the rest of
  its handler, so the handler takes its value and returns the new one.
\<close>

section \<open>State and views\<close>

record 'db AppState =
  repo :: "'db BackupRepository"
  csrf_token :: "string option"
  api_token :: "string option"
  sync_config :: "SyncConfig option"

type_synonym rollback_gate = "datetime option"

type_synonym HeaderMap = "(string \<times> string) list"

type_synonym 'a result = "nat + 'a"

record BackupListItem =
  item_id :: string
  item_created_at :: string
  item_status :: string
  item_total_cards :: i64
  item_total_decks :: i64
  item_total_notes :: i64
  item_size_display :: string

record BackupDetailView =
  view_id :: string
  view_created_at :: string
  view_status :: string
  view_content_hash :: string
  view_size_display :: string
  view_deck_stats :: "DeckStats list"

record DetailTemplate =
  detail_backup :: BackupDetailView
  detail_csrf_token :: string

record Download =
  download_content_type :: string
  download_disposition :: string
  download_body :: bytes

section \<open>Sizes\<close>

text \<open>Rounding \<open>n / d\<close> to the nearest integer, ties to even, as IEEE 754 and \<open>{:.1}\<close> do.\<close>

definition round_half_even :: "nat \<Rightarrow> nat \<Rightarrow> nat" where
  "round_half_even n d =
     (let q = n div d; r = n mod d in
      if d < 2 * r \<or> 2 * r = d \<and> odd q then Suc q else q)"

text \<open>\<open>as f64\<close>: 53 significant bits; the bits below are rounded away.\<close>

function f64_excess :: "nat \<Rightarrow> nat" where
  "f64_excess n = (if n < 2 ^ 53 then 0 else Suc (f64_excess (n div 2)))"
  by pat_completeness auto
termination
  by (relation "measure id") auto

declare f64_excess.simps [simp del]

definition as_f64 :: "nat \<Rightarrow> nat" where
  "as_f64 n = round_half_even n (2 ^ f64_excess n) * 2 ^ f64_excess n"

definition one_decimal :: "nat \<Rightarrow> nat \<Rightarrow> string" where
  "one_decimal n d =
     (let t = round_half_even (10 * n) d in show_nat (t div 10) @ ''.'' @ show_nat (t mod 10))"

definition format_size :: "i64 \<Rightarrow> string" where
  "format_size len =
     (if sint len < 1024 then show_i64 len @ '' B''
      else if sint len < 1024 * 1024 then one_decimal (as_f64 (nat (sint len))) 1024 @ '' KB''
      else one_decimal (as_f64 (nat (sint len))) (1024 * 1024) @ '' MB'')"

section \<open>Helpers of the handlers\<close>

text \<open>\<open>m.map_err(|_| code)?\<close> and \<open>r.ok_or(code)?\<close>.\<close>

definition or_status :: "nat \<Rightarrow> ('w, 'a) io \<Rightarrow> ('a \<Rightarrow> ('w, 'b result) io) \<Rightarrow> ('w, 'b result) io" where
  "or_status code m f =
     bind_io (try_await m) (\<lambda>r. case r of Inl _ \<Rightarrow> return_io (Inl code) | Inr x \<Rightarrow> f x)"

definition ok_or :: "nat \<Rightarrow> 'a option \<Rightarrow> ('a \<Rightarrow> ('w, 'b result) io) \<Rightarrow> ('w, 'b result) io" where
  "ok_or code r f = (case r of None \<Rightarrow> return_io (Inl code) | Some x \<Rightarrow> f x)"

definition header_str :: "env \<Rightarrow> string \<Rightarrow> HeaderMap \<Rightarrow> string option" where
  "header_str E name hs = Option.bind (map_of hs name) (header_to_str E)"

definition require_api_auth :: "env \<Rightarrow> 'db AppState \<Rightarrow> HeaderMap \<Rightarrow> unit result" where
  "require_api_auth E st hs =
     (case api_token st of
        None \<Rightarrow> Inr ()
      | Some expected \<Rightarrow>
          (case Option.bind (header_str E ''authorization'' hs) (strip_prefix ''Bearer '') of
             Some token \<Rightarrow> if token = expected then Inr () else Inl 401
           | None \<Rightarrow> Inl 401))"

definition authorized ::
  "'db AppState \<Rightarrow> HeaderMap \<Rightarrow> ('db world, 'a result) io \<Rightarrow> ('db world, 'a result) io"
where
  "authorized st hs m =
     bind_io (get_io env) (\<lambda>E.
     case require_api_auth E st hs of Inl code \<Rightarrow> return_io (Inl code) | Inr _ \<Rightarrow> m)"

text \<open>\<open>serde_json::to_value\<close>: the fields of an object are kept in the order of their names.\<close>

fun to_value :: "json \<Rightarrow> json" where
  "to_value (JObject fs) = JObject (sort_key fst (map (\<lambda>(k, v). (k, to_value v)) fs))"
| "to_value (JArray js) = JArray (map to_value js)"
| "to_value j = j"

section \<open>Handlers that read\<close>

definition healthz :: json where
  "healthz = JObject [(''status'', JString ''ok'')]"

definition list_item_json :: "env \<Rightarrow> BackupEntry \<Rightarrow> json" where
  "list_item_json E b =
     to_value (JObject [(''id'', JString (uuid_to_string E (backup_id b))),
       (''created_at'', JString (serde_datetime E (created_at b))),
       (''status'', JString (status_name (status b))),
       (''size_bytes'', json_of_i64 (size_bytes b)),
       (''stats'', json_of_option json_of_stats (stats b))])"

definition api_list_backups :: "'db AppState \<Rightarrow> HeaderMap \<Rightarrow> ('db world, json list result) io" where
  "api_list_backups st hs =
     authorized st hs
       (or_status 500 (repo_list_backups (repo st)) (\<lambda>rows.
        bind_io (get_io env) (\<lambda>E. return_io (Inr (map (list_item_json E) rows)))))"

text \<open>The lookup that four handlers share: the id of the path, then the entry.\<close>

definition find_backup ::
  "'db AppState \<Rightarrow> string \<Rightarrow> (BackupEntry \<Rightarrow> ('db world, 'a result) io) \<Rightarrow> ('db world, 'a result) io"
where
  "find_backup st ident f =
     bind_io (get_io env) (\<lambda>E.
     ok_or 400 (uuid_parse_str E ident) (\<lambda>u.
     or_status 500 (repo_get_backup (repo st) u) (\<lambda>found.
     ok_or 404 found f)))"

definition api_backup_detail :: "'db AppState \<Rightarrow> string \<Rightarrow> HeaderMap \<Rightarrow> ('db world, json result) io" where
  "api_backup_detail st ident hs =
     authorized st hs
       (find_backup st ident (\<lambda>b.
        bind_io (get_io env) (\<lambda>E.
        return_io (Inr (to_value (json_of_entry (uuid_to_string E) (serde_datetime E) b))))))"

definition download_backup :: "'db AppState \<Rightarrow> string \<Rightarrow> HeaderMap \<Rightarrow> ('db world, Download result) io" where
  "download_backup st ident hs =
     authorized st hs
       (find_backup st ident (\<lambda>b.
        if status b \<noteq> Created then return_io (Inl 400)
        else
          or_status 500 (fs_read (backup_file_path (repo st) b)) (\<lambda>content.
          bind_io (get_io env) (\<lambda>E.
          ok_or 500 (tar_single_file E ''collection.anki2'' content) (\<lambda>tar_data.
          ok_or 500 (zstd_encode E tar_data) (\<lambda>compressed.
          return_io (Inr \<lparr>download_content_type = ''application/zstd'',
            download_disposition =
              ''attachment; filename=backup-'' @ uuid_to_string E (backup_id b) @ ''.tar.zst'',
            download_body = compressed\<rparr>)))))))"

definition status_word :: "BackupStatus \<Rightarrow> string" where
  "status_word s = (case s of Created \<Rightarrow> ''created'' | Skipped \<Rightarrow> ''skipped'')"

definition total_or_0 :: "(BackupStats \<Rightarrow> i64) \<Rightarrow> BackupEntry \<Rightarrow> i64" where
  "total_or_0 f b = unwrap_or (map_option f (stats b)) 0"

definition list_item :: "env \<Rightarrow> BackupEntry \<Rightarrow> BackupListItem" where
  "list_item E b =
     \<lparr>item_id = uuid_to_string E (backup_id b), item_created_at = format_datetime E (created_at b),
      item_status = status_word (status b), item_total_cards = total_or_0 total_cards b,
      item_total_decks = total_or_0 total_decks b, item_total_notes = total_or_0 total_notes b,
      item_size_display = format_size (size_bytes b)\<rparr>"

definition index :: "'db AppState \<Rightarrow> ('db world, BackupListItem list result) io" where
  "index st =
     or_status 500 (repo_list_backups (repo st)) (\<lambda>backups.
     bind_io (get_io env) (\<lambda>E. return_io (Inr (map (list_item E) backups))))"

definition backup_detail :: "'db AppState \<Rightarrow> string \<Rightarrow> ('db world, DetailTemplate result) io" where
  "backup_detail st ident =
     find_backup st ident (\<lambda>b.
     bind_io (get_io env) (\<lambda>E.
     return_io (Inr
       \<lparr>detail_backup =
          \<lparr>view_id = uuid_to_string E (backup_id b), view_created_at = format_datetime E (created_at b),
           view_status = status_word (status b), view_content_hash = entry_hash b,
           view_size_display = format_size (size_bytes b),
           view_deck_stats = unwrap_or (map_option deck_stats (stats b)) []\<rparr>,
        detail_csrf_token = unwrap_or (csrf_token st) []\<rparr>)))"

section \<open>Rolling back\<close>

definition csrf_ok :: "env \<Rightarrow> 'db AppState \<Rightarrow> HeaderMap \<Rightarrow> bool" where
  "csrf_ok E st hs =
     (case csrf_token st of
        None \<Rightarrow> True
      | Some expected \<Rightarrow> unwrap_or (header_str E ''x-csrf-token'' hs) [] = expected)"

definition gate_closed :: "rollback_gate \<Rightarrow> ('db world, bool) io" where
  "gate_closed gate =
     (case gate of
        None \<Rightarrow> return_io False
      | Some previous \<Rightarrow>
          bind_io utc_now (\<lambda>now.
          bind_io (get_io env) (\<lambda>E.
          return_io (num_seconds E (now - previous) < 10))))"

definition upload_rolled :: "'db AppState \<Rightarrow> BackupEntry \<Rightarrow> ('db world, unit result) io" where
  "upload_rolled st rolled =
     (case sync_config st of
        None \<Rightarrow> return_io (Inr ())
      | Some cfg \<Rightarrow>
          or_status 500 (fs_read (backup_file_path (repo st) rolled)) (\<lambda>content.
          or_status 502 (upload_collection cfg content) (\<lambda>_. return_io (Inr ()))))"

definition rollback_json :: "env \<Rightarrow> 'db AppState \<Rightarrow> BackupEntry \<Rightarrow> json" where
  "rollback_json E st rolled =
     JObject [(''rolled_back_to'', JString (uuid_to_string E (backup_id rolled))),
              (''uploaded'', JBool (sync_config st \<noteq> None))]"

text \<open>The part of \<open>rollback_backup\<close> behind its guards.\<close>

definition perform_rollback :: "'db AppState \<Rightarrow> string \<Rightarrow> ('db world, json result) io" where
  "perform_rollback st ident =
     bind_io (get_io env) (\<lambda>E.
     ok_or 400 (uuid_parse_str E ident) (\<lambda>u.
     or_status 400 (rollback_to (repo st) u) (\<lambda>rolled.
     bind_io (upload_rolled st rolled) (\<lambda>uploaded.
     case uploaded of
       Inl code \<Rightarrow> return_io (Inl code)
     | Inr _ \<Rightarrow> return_io (Inr (rollback_json E st rolled))))))"

definition rollback_backup ::
  "'db AppState \<Rightarrow> string \<Rightarrow> HeaderMap \<Rightarrow> rollback_gate \<Rightarrow> ('db world, json result \<times> rollback_gate) io"
where
  "rollback_backup st ident hs gate =
     bind_io (get_io env) (\<lambda>E.
     case require_api_auth E st hs of
       Inl code \<Rightarrow> return_io (Inl code, gate)
     | Inr _ \<Rightarrow>
         if \<not> csrf_ok E st hs then return_io (Inl 403, gate)
         else
           bind_io (gate_closed gate) (\<lambda>closed.
           if closed then return_io (Inl 429, gate)
           else
             bind_io (perform_rollback st ident) (\<lambda>r.
             case r of
               Inl code \<Rightarrow> return_io (Inl code, gate)
             | Inr j \<Rightarrow> bind_io utc_now (\<lambda>now. return_io (Inr j, Some now)))))"

section \<open>Routes\<close>

datatype Method = GET | HEAD | POST | OtherMethod string

datatype Endpoint =
    Index | BackupDetail | DownloadBackup | RollbackBackup | Healthz | ApiListBackups | ApiBackupDetail

definition build_router :: "(string list \<times> Method \<times> Endpoint) list" where
  "build_router =
     [([], GET, Index),
      ([''backups'', ''{id}''], GET, BackupDetail),
      ([''backups'', ''{id}'', ''download''], GET, DownloadBackup),
      ([''backups'', ''{id}'', ''rollback''], POST, RollbackBackup),
      ([''api'', ''v1'', ''healthz''], GET, Healthz),
      ([''api'', ''v1'', ''backups''], GET, ApiListBackups),
      ([''api'', ''v1'', ''backups'', ''{id}''], GET, ApiBackupDetail),
      ([''api'', ''v1'', ''backups'', ''{id}'', ''download''], GET, DownloadBackup),
      ([''api'', ''v1'', ''backups'', ''{id}'', ''rollback''], POST, RollbackBackup)]"

text \<open>A pattern against the segments of a path; \<open>{id}\<close> takes one segment that is not empty.\<close>

definition segment_matches :: "string \<Rightarrow> string \<Rightarrow> bool" where
  "segment_matches p s \<longleftrightarrow> (if p = ''{id}'' then s \<noteq> [] else p = s)"

definition path_matches :: "string list \<Rightarrow> string list \<Rightarrow> bool" where
  "path_matches ps ss \<longleftrightarrow> list_all2 segment_matches ps ss"

definition captured :: "string list \<Rightarrow> string list \<Rightarrow> string" where
  "captured ps ss = (case filter (\<lambda>(p, _). p = ''{id}'') (zip ps ss) of [] \<Rightarrow> [] | (_, s) # _ \<Rightarrow> s)"

text \<open>A route for \<open>GET\<close> also answers \<open>HEAD\<close>.\<close>

definition method_matches :: "Method \<Rightarrow> Method \<Rightarrow> bool" where
  "method_matches m req \<longleftrightarrow> req = m \<or> m = GET \<and> req = HEAD"

definition dispatch :: "Method \<Rightarrow> string list \<Rightarrow> (Endpoint \<times> string) result" where
  "dispatch req ss =
     (case find (\<lambda>(ps, _). path_matches ps ss) build_router of
        None \<Rightarrow> Inl 404
      | Some (ps, m, h) \<Rightarrow> if method_matches m req then Inr (h, captured ps ss) else Inl 405)"

datatype Reply =
    StatusReply nat
  | JsonReply json
  | IndexPage "BackupListItem list"
  | DetailPage DetailTemplate
  | Attachment Download

definition reply_with :: "('a \<Rightarrow> Reply) \<Rightarrow> 'a result \<Rightarrow> Reply" where
  "reply_with f r = (case r of Inl code \<Rightarrow> StatusReply code | Inr x \<Rightarrow> f x)"

definition reading ::
  "('a \<Rightarrow> Reply) \<Rightarrow> ('db world, 'a result) io \<Rightarrow> rollback_gate \<Rightarrow> ('db world, Reply \<times> rollback_gate) io"
where
  "reading f m gate = bind_io m (\<lambda>r. return_io (reply_with f r, gate))"

fun handle ::
  "'db AppState \<Rightarrow> Endpoint \<Rightarrow> string \<Rightarrow> HeaderMap \<Rightarrow> rollback_gate \<Rightarrow> ('db world, Reply \<times> rollback_gate) io"
where
  "handle st Index ident hs gate = reading IndexPage (index st) gate"
| "handle st BackupDetail ident hs gate = reading DetailPage (backup_detail st ident) gate"
| "handle st DownloadBackup ident hs gate = reading Attachment (download_backup st ident hs) gate"
| "handle st RollbackBackup ident hs gate =
     bind_io (rollback_backup st ident hs gate) (\<lambda>(r, gate'). return_io (reply_with JsonReply r, gate'))"
| "handle st Healthz ident hs gate = return_io (JsonReply healthz, gate)"
| "handle st ApiListBackups ident hs gate = reading (\<lambda>js. JsonReply (JArray js)) (api_list_backups st hs) gate"
| "handle st ApiBackupDetail ident hs gate = reading JsonReply (api_backup_detail st ident hs) gate"

definition serve ::
  "'db AppState \<Rightarrow> Method \<Rightarrow> string list \<Rightarrow> HeaderMap \<Rightarrow> rollback_gate \<Rightarrow> ('db world, Reply \<times> rollback_gate) io"
where
  "serve st req ss hs gate =
     (case dispatch req ss of
        Inl code \<Rightarrow> return_io (StatusReply code, gate)
      | Inr (h, ident) \<Rightarrow> handle st h ident hs gate)"

section \<open>Lemmas\<close>

subsection \<open>Rules for the helpers\<close>

lemma runs_or_status [wp_simps]:
  "runs (or_status code m f) w Q R =
     runs m w (\<lambda>x w'. runs (f x) w' Q R) (\<lambda>e w'. if is_panic e then R e w' else Q (Inl code) w')"
  by (simp add: or_status_def wp_simps)

lemma runs_ok_or [wp_simps]:
  "runs (ok_or code r f) w Q R = (case r of None \<Rightarrow> Q (Inl code) w | Some x \<Rightarrow> runs (f x) w Q R)"
  by (simp add: ok_or_def wp_simps split: option.split)

lemma runs_authorized [wp_simps]:
  "runs (authorized st hs m) w Q R =
     (case require_api_auth (env w) st hs of Inl code \<Rightarrow> Q (Inl code) w | Inr _ \<Rightarrow> runs m w Q R)"
  by (simp add: authorized_def wp_simps split: sum.split)

lemma runs_gate_closed [wp_simps]:
  "runs (gate_closed gate) w Q R =
     (case gate of
        None \<Rightarrow> Q False w
      | Some t \<Rightarrow> Q (num_seconds (env w) (clock (env w) (step w) - t) < 10) (w\<lparr>step := Suc (step w)\<rparr>))"
  by (simp add: gate_closed_def wp_simps split: option.split)

lemma require_api_auth_iff:
  "require_api_auth E st hs = Inr () \<longleftrightarrow>
     (\<forall>expected. api_token st = Some expected \<longrightarrow> header_str E ''authorization'' hs = Some (''Bearer '' @ expected))"
  by (auto simp: require_api_auth_def strip_prefix_Some_iff strip_prefix_None_iff bind_eq_Some_conv split: option.splits if_splits)

lemma require_api_auth_code: "require_api_auth E st hs = Inl code \<Longrightarrow> code = 401"
  by (auto simp: require_api_auth_def split: option.splits if_splits)

subsection \<open>Routes\<close>

lemma dispatch_get_reads:
  assumes "dispatch req ss = Inr (h, ident)" and "req = GET \<or> req = HEAD"
  shows "h \<noteq> RollbackBackup"
proof -
  obtain ps m where f: "find (\<lambda>(ps, _). path_matches ps ss) build_router = Some (ps, m, h)"
    and m: "method_matches m req"
    using assms(1) by (auto simp: dispatch_def split: option.splits if_splits)
  have "(ps, m, h) \<in> set build_router" using f find_set by fastforce
  then show ?thesis using m assms(2) by (auto simp: build_router_def method_matches_def)
qed

end
