(* ===== verification/Server_Laws.thy ===== *)
theory Server_Laws
  imports Repository_Laws Server
begin

text \<open>
  The handlers of the service on any store that satisfies \<open>metadata_store_laws\<close>: what they answer
  and what they leave behind, also when a call fails or a handler panics.
\<close>

text \<open>A computation that changes nothing.\<close>

definition reads :: "('db world, 'a) io \<Rightarrow> 'db world \<Rightarrow> bool" where
  "reads m w \<longleftrightarrow> runs m w (\<lambda>_. read_only w) (\<lambda>_. read_only w)"

text \<open>
  What a download delivers: the archive of the file of the entry, compressed.
\<close>

definition delivers :: "env \<Rightarrow> path \<Rightarrow> file_system \<Rightarrow> BackupEntry \<Rightarrow> Download \<Rightarrow> bool" where
  "delivers E rt f e d \<longleftrightarrow> (\<exists>content tar_data.
     f (payload_at rt (timestamp_dir e)) = Some (File content) \<and>
     entry_hash e = content_hash (sha256 E) (hex_encode E) content \<and>
     tar_single_file E ''collection.anki2'' content = Some tar_data \<and>
     zstd_encode E tar_data = Some (download_body d) \<and>
     download_content_type d = ''application/zstd'' \<and>
     download_disposition d = ''attachment; filename=backup-'' @ uuid_to_string E (backup_id e) @ ''.tar.zst'')"

text \<open>
  What a rollback to \<open>e\<close> sends: nothing without credentials, and otherwise a whole upload of the
  file of the entry.
\<close>

definition uploads :: "env \<Rightarrow> path \<Rightarrow> file_system \<Rightarrow> SyncConfig option \<Rightarrow> BackupEntry \<Rightarrow> http_request list \<Rightarrow> bool" where
  "uploads E rt f cfg e rs \<longleftrightarrow>
     (case cfg of
        None \<Rightarrow> rs = []
      | Some c \<Rightarrow> (\<exists>content meta_data data. f (payload_at rt (timestamp_dir e)) = Some (File content) \<and>
          entry_hash e = content_hash (sha256 E) (hex_encode E) content \<and>
          transferred E (config_endpoint c) c ''upload'' content rs meta_data data))"

text \<open>The last rollback is at least ten seconds ago.\<close>

definition gate_open :: "env \<Rightarrow> rollback_gate \<Rightarrow> datetime \<Rightarrow> bool" where
  "gate_open E gate now = (case gate of None \<Rightarrow> True | Some t \<Rightarrow> 10 \<le> num_seconds E (now - t))"

section \<open>Lemmas\<close>

lemma readsD: "reads m w \<Longrightarrow> runs m w (\<lambda>_. read_only w) (\<lambda>_. read_only w)"
  by (simp add: reads_def)

lemma reads_authorized: "reads m w \<Longrightarrow> reads (authorized app hs m) w"
  by (simp add: reads_def wp_simps split: sum.split)

lemma reads_reading:
  assumes "reads m w"
  shows "runs (reading f m gate) w (\<lambda>(_, gate') w'. gate' = gate \<and> read_only w w') (\<lambda>_. read_only w)"
  unfolding reading_def runs_bind
  by (rule runs_mono [OF readsD [OF assms]]) (simp_all add: wp_simps)

lemma entry_file_path:
  "entry_ok (root r) E f e \<Longrightarrow> is_created e \<Longrightarrow> backup_file_path r e = payload_at (root r) (timestamp_dir e)"
  by (simp add: entry_ok_def is_created_def backup_file_path_def entry_shape_CreatedD)

lemma repo_ok_entry: "repo_ok rt E f es \<Longrightarrow> e \<in> set es \<Longrightarrow> entry_ok rt E f e"
  by (simp add: repo_ok_def list_all_iff)

lemma entry_ok_hash:
  "entry_ok rt E f e \<Longrightarrow> is_created e \<Longrightarrow> f (payload_at rt (timestamp_dir e)) = Some (File content) \<Longrightarrow>
   entry_hash e = content_hash (sha256 E) (hex_encode E) content"
  by (auto simp: entry_ok_def payload_ok_def)

context metadata_store_laws
begin

lemma runs_find_backup:
  assumes inv: "invar w" and st: "store (repo app) = st"
    and ok: "\<And>u e w'. uuid_parse_str (env w) ident = Some u \<Longrightarrow>
      find (\<lambda>e. backup_id e = u) (rows w) = Some e \<Longrightarrow> read_only w w' \<Longrightarrow> runs (f e) w' Q R"
    and err: "\<And>code w'. code \<in> {400, 404, 500} \<Longrightarrow> read_only w w' \<Longrightarrow> Q (Inl code) w'"
    and pan: "\<And>e w'. read_only w w' \<Longrightarrow> R e w'"
  shows "runs (find_backup app ident f) w Q R"
proof (cases "uuid_parse_str (env w) ident")
  case None
  then show ?thesis using err [of 400 w] by (simp add: find_backup_def wp_simps)
next
  case (Some u)
  have "runs (get_backup st u) w (\<lambda>found w'. case found of None \<Rightarrow> Q (Inl 404) w' | Some e \<Rightarrow> runs (f e) w' Q R)
      (\<lambda>e w'. if is_panic e then R e w' else Q (Inl 500) w')"
    by (rule runs_mono [OF get_backup_law [OF inv]]) (use ok [OF Some] err pan in \<open>auto split: option.split\<close>)
  with Some show ?thesis
    by (simp add: find_backup_def wp_simps repo_get_backup_def st)
qed

lemma reads_find_backup:
  assumes "invar w" "store (repo app) = st" "\<And>e w'. read_only w w' \<Longrightarrow> reads (f e) w'"
  shows "reads (find_backup app ident f) w"
  unfolding reads_def
  by (rule runs_find_backup [OF assms(1,2)])
     (auto intro!: runs_mono [OF readsD [OF assms(3)]] intro: read_only_trans)

lemma reads_list:
  assumes inv: "invar w" and st: "store (repo app) = st"
  shows "reads (or_status 500 (repo_list_backups (repo app)) (\<lambda>rows. bind_io (get_io env) (\<lambda>E. return_io (Inr (g E rows))))) w"
  unfolding reads_def runs_or_status repo_list_backups_def st
  by (rule runs_mono [OF list_backups_law [OF inv]]) (auto simp: wp_simps)

lemma reads_download:
  assumes inv: "invar w" and st: "store (repo app) = st"
  shows "reads (download_backup app ident hs) w"
  unfolding download_backup_def
  by (intro reads_authorized reads_find_backup assms)
     (auto simp: reads_def wp_simps split: option.split intro!: runs_mono [OF runs_fs_read])

lemma reads_handle:
  assumes inv: "invar w" and st: "store (repo app) = st" and h: "h \<noteq> RollbackBackup"
  shows "runs (handle app h ident hs gate) w (\<lambda>(_, gate') w'. gate' = gate \<and> read_only w w') (\<lambda>_. read_only w)"
proof (cases h)
  case Index
  then show ?thesis using reads_reading [OF reads_list [OF inv st]] by (simp add: index_def)
next
  case BackupDetail
  show ?thesis
    unfolding BackupDetail handle.simps backup_detail_def
    by (intro reads_reading reads_find_backup inv st) (simp add: reads_def wp_simps)
next
  case DownloadBackup
  then show ?thesis using reads_reading [OF reads_download [OF inv st]] by simp
next
  case RollbackBackup
  then show ?thesis using h by simp
next
  case Healthz
  then show ?thesis by (simp add: wp_simps)
next
  case ApiListBackups
  then show ?thesis
    using reads_reading [OF reads_authorized [OF reads_list [OF inv st]]] by (simp add: api_list_backups_def)
next
  case ApiBackupDetail
  show ?thesis
    unfolding ApiBackupDetail handle.simps api_backup_detail_def
    by (intro reads_reading reads_authorized reads_find_backup inv st) (simp add: reads_def wp_simps)
qed

lemma reads_serve:
  assumes "invar w" "store (repo app) = st" "req = GET \<or> req = HEAD"
  shows "runs (serve app req ss hs gate) w (\<lambda>(_, gate') w'. gate' = gate \<and> read_only w w') (\<lambda>_. read_only w)"
  using reads_handle [OF assms(1,2)] dispatch_get_reads [OF _ assms(3)]
  by (auto simp: serve_def wp_simps split: sum.split)

lemma runs_download_backup:
  assumes inv: "invar w" and st: "store (repo app) = st"
    and rok: "repo_ok (root (repo app)) (env w) (files w) (rows w)"
  shows "runs (download_backup app ident hs) w
    (\<lambda>r w'. read_only w w' \<and> (case r of
        Inl code \<Rightarrow> code \<in> {400, 401, 404, 500}
      | Inr d \<Rightarrow> require_api_auth (env w) app hs = Inr () \<and>
          (\<exists>e \<in> set (rows w). is_created e \<and> uuid_parse_str (env w) ident = Some (backup_id e) \<and>
             delivers (env w) (root (repo app)) (files w) e d)))
    (\<lambda>_. read_only w)"
proof (cases "require_api_auth (env w) app hs")
  case (Inl code)
  then show ?thesis
    using require_api_auth_code [OF Inl] by (simp add: download_backup_def wp_simps)
next
  case (Inr x)
  show ?thesis
    unfolding download_backup_def runs_authorized Inr sum.case
  proof (rule runs_find_backup [OF inv st], goal_cases)
    case (1 u e w1)
    then have e: "e \<in> set (rows w)" "backup_id e = u" and E: "env w1 = env w" "files w1 = files w"
      by (auto dest: find_set simp: frame_defs)
    show ?case
    proof (cases "is_created e")
      case False
      then show ?thesis using 1 by (simp add: is_created_def wp_simps)
    next
      case True
      have eok: "entry_ok (root (repo app)) (env w) (files w) e" using rok e(1) by (rule repo_ok_entry)
      show ?thesis
        unfolding entry_file_path [OF eok True]
        using True 1 e E Inr entry_ok_hash [OF eok True]
        by (auto simp: is_created_def delivers_def wp_simps split: option.split
            intro!: runs_mono [OF runs_fs_read] dest: read_only_trans simp: frame_defs)
    qed
  qed auto
qed

subsection \<open>Rolling back\<close>

text \<open>After a rollback, whatever happened: the invariant, and no entry has changed.\<close>

definition settled :: "'db BackupRepository \<Rightarrow> 'db world \<Rightarrow> 'db world \<Rightarrow> bool" where
  "settled r w w' \<longleftrightarrow> invar w' \<and> repo_ok (root r) (env w) (files w') (rows w') \<and> rows w' = rows w \<and> later w w'"

definition half_rolled :: "'db AppState \<Rightarrow> string \<Rightarrow> 'db world \<Rightarrow> 'db world \<Rightarrow> bool" where
  "half_rolled app ident w w' \<longleftrightarrow>
     files w' (pointer_at (root (repo app))) = files w (pointer_at (root (repo app))) \<or>
     (\<exists>e \<in> set (rows w). is_created e \<and> uuid_parse_str (env w) ident = Some (backup_id e) \<and>
        points_to (env w) e (files w' (pointer_at (root (repo app)))))"

definition rolled_back :: "'db AppState \<Rightarrow> string \<Rightarrow> json \<Rightarrow> 'db world \<Rightarrow> 'db world \<Rightarrow> bool" where
  "rolled_back app ident j w w' \<longleftrightarrow>
     (\<exists>e \<in> set (rows w). is_created e \<and> uuid_parse_str (env w) ident = Some (backup_id e) \<and>
        j = rollback_json (env w) app e \<and> points_to (env w) e (files w' (pointer_at (root (repo app)))) \<and>
        (\<exists>v. events w' = events w @ [(v, backup_id e)]) \<and>
        (\<exists>rs. sent w' = sent w @ rs \<and>
           uploads (env w) (root (repo app)) (files w') (sync_config app) e rs))"

lemma settled_read_only: "invar w \<Longrightarrow> repo_ok (root r) (env w) (files w) (rows w) \<Longrightarrow> read_only w w' \<Longrightarrow> settled r w w'"
  using view_read_only [of w w'] by (auto simp: settled_def frame_defs)

lemma settled_talks: "settled r w w1 \<Longrightarrow> talks w1 w' rs \<Longrightarrow> settled r w w'"
  using view_db [of w1 w'] by (auto simp: settled_def talks_def later_def)

lemma settled_undisturbed: "undisturbed r w w' \<Longrightarrow> settled r w w'"
  unfolding settled_def undisturbed_def by blast

end

lemma read_only_talks: "read_only w w' \<Longrightarrow> talks w w' []"
  by (simp add: frame_defs talks_def)

lemma runs_upload_rolled:
  assumes eok: "entry_ok (root (repo app)) (env w) (files w) e" and c: "is_created e"
  shows "runs (upload_rolled app e) w
    (\<lambda>r w'. \<exists>rs. talks w w' rs \<and> (case r of
        Inl code \<Rightarrow> code \<in> {500, 502}
      | Inr _ \<Rightarrow> uploads (env w) (root (repo app)) (files w) (sync_config app) e rs))
    (\<lambda>_ w'. \<exists>rs. talks w w' rs)"
proof (cases "sync_config app")
  case None
  then show ?thesis by (auto simp: upload_rolled_def uploads_def wp_simps)
next
  case (Some cfg)
  have up: "runs (upload_collection cfg content) w1
      (\<lambda>_ w'. \<exists>rs. talks w w' rs \<and> uploads (env w) (root (repo app)) (files w) (sync_config app) e rs)
      (\<lambda>_ w'. \<exists>rs. talks w w' rs)"
    if f: "files w (payload_at (root (repo app)) (timestamp_dir e)) = Some (File content)" and w1: "talks w w1 []"
    for w1 content
  proof (rule runs_mono [OF runs_upload_collection])
    fix x w'
    assume "has_credentials cfg \<and> (\<exists>rs meta_data data. talks w1 w' rs \<and>
      transferred (env w1) (config_endpoint cfg) cfg ''upload'' content rs meta_data data)"
    then obtain rs meta_data data where "talks w1 w' rs"
      "transferred (env w) (config_endpoint cfg) cfg ''upload'' content rs meta_data data"
      by (auto simp: talks_env [OF w1])
    then show "\<exists>rs. talks w w' rs \<and> uploads (env w) (root (repo app)) (files w) (sync_config app) e rs"
      using talks_trans [OF w1, of w' rs] f entry_ok_hash [OF eok c f] Some by (auto simp: uploads_def)
  next
    fix err w'
    assume "if has_credentials cfg then \<exists>rs. talks w1 w' rs \<and>
        transfer_attempted (env w1) (config_endpoint cfg) cfg ''upload'' content rs
      else err = SyncError MissingCredentials \<and> w' = w1"
    then show "\<exists>rs. talks w w' rs" using w1 talks_trans [OF w1, of w'] by (metis append_Nil)
  qed
  show ?thesis
    unfolding upload_rolled_def Some option.case runs_or_status entry_file_path [OF eok c]
  proof (rule runs_mono [OF runs_fs_read])
    fix content w1
    assume "read_only w w1 \<and> files w (payload_at (root (repo app)) (timestamp_dir e)) = Some (File content) \<and>
      \<not> faulted w w1"
    then show "runs (upload_collection cfg content) w1
      (\<lambda>x w'. runs (return_io (Inr ())) w' (\<lambda>r w'. \<exists>rs. talks w w' rs \<and> (case r of
          Inl code \<Rightarrow> code \<in> {500, 502}
        | Inr _ \<Rightarrow> uploads (env w) (root (repo app)) (files w) (Some cfg) e rs))
        (\<lambda>_ w'. \<exists>rs. talks w w' rs))
      (\<lambda>err w'. if is_panic err then \<exists>rs. talks w w' rs
        else \<exists>rs. talks w w' rs \<and> (case Inl 502 of
          Inl code \<Rightarrow> code \<in> {500, 502}
        | Inr _ \<Rightarrow> uploads (env w) (root (repo app)) (files w) (Some cfg) e rs))"
      by (intro runs_mono [OF up]) (auto simp: wp_simps Some dest: read_only_talks)
  qed (auto dest: read_only_talks)
qed

context metadata_store_laws
begin

lemma runs_perform_rollback:
  assumes inv: "invar w" and st: "store (repo app) = st"
    and rok: "repo_ok (root (repo app)) (env w) (files w) (rows w)"
  shows "runs (perform_rollback app ident) w
    (\<lambda>r w'. settled (repo app) w w' \<and> (case r of
        Inl code \<Rightarrow> code \<in> {400, 500, 502} \<and> half_rolled app ident w w'
      | Inr j \<Rightarrow> rolled_back app ident j w w'))
    (\<lambda>_ w'. settled (repo app) w w' \<and> half_rolled app ident w w')"
    (is "runs _ _ ?Q ?R")
proof (cases "uuid_parse_str (env w) ident")
  case None
  then show ?thesis
    using settled_read_only [OF inv rok, of w] by (simp add: perform_rollback_def half_rolled_def wp_simps)
next
  case (Some u)
  have failed: "settled (repo app) w w' \<and> half_rolled app ident w w'"
    if "rollback_failed (repo app) u w err w'" for err w'
    using that Some find_set [of "\<lambda>e. backup_id e = u" "rows w"]
    by (auto simp: rollback_failed_def half_rolled_def settled_undisturbed split: option.splits if_splits)
  have "runs (bind_io (upload_rolled app e) (\<lambda>uploaded. case uploaded of
       Inl code \<Rightarrow> return_io (Inl code)
     | Inr _ \<Rightarrow> return_io (Inr (rollback_json (env w) app e)))) w1 ?Q ?R"
    if w1: "undisturbed (repo app) w w1 \<and> find (\<lambda>e. backup_id e = u) (rows w) = Some e \<and> is_created e \<and>
       points_to (env w) e (files w1 (pointer_at (root (repo app)))) \<and> (\<exists>v. events w1 = events w @ [(v, u)])"
    for e w1
  proof -
    have e: "e \<in> set (rows w)" "backup_id e = u" using w1 by (auto dest: find_set)
    have s1: "settled (repo app) w w1" using w1 settled_undisturbed by blast
    have E: "env w1 = env w" "sent w1 = sent w" using w1 by (auto simp: undisturbed_def later_def)
    have eok: "entry_ok (root (repo app)) (env w1) (files w1) e"
      using s1 e E by (auto simp: settled_def intro: repo_ok_entry)
    have ok: "settled (repo app) w w'" "half_rolled app ident w w'"
      "uploads (env w) (root (repo app)) (files w1) (sync_config app) e rs \<Longrightarrow>
       rolled_back app ident (rollback_json (env w) app e) w w'"
      if t: "talks w1 w' rs" for w' rs
    proof -
      have f: "files w' = files w1" "sent w' = sent w @ rs" "events w' = events w1"
        using t E view_db [of w1 w'] s1 by (auto simp: talks_def later_def settled_def)
      show "settled (repo app) w w'" using s1 t by (rule settled_talks)
      show "half_rolled app ident w w'" using w1 e Some f by (auto simp: half_rolled_def)
      show "rolled_back app ident (rollback_json (env w) app e) w w'"
        if "uploads (env w) (root (repo app)) (files w1) (sync_config app) e rs"
        unfolding rolled_back_def using w1 e Some f that by (intro bexI [of _ e]) auto
    qed
    show ?thesis
      unfolding runs_bind
      by (rule runs_mono [OF runs_upload_rolled [OF eok]])
         (use w1 ok E in \<open>auto simp: wp_simps split: sum.split\<close>)
  qed
  then show ?thesis
    unfolding perform_rollback_def runs_bind [of "get_io env"] runs_get Some runs_ok_or option.case runs_or_status
    by (intro runs_mono [OF runs_rollback_to [OF inv st rok]]) (auto dest: failed)
qed

lemma settled_frame:
  assumes inv: "invar w" and l: "read_only w w1" and s: "settled r w1 w2" and r: "read_only w2 w3"
  shows "settled r w w3"
  using view_read_only [OF inv l] view_read_only [OF _ r] l s r
  by (auto simp: settled_def frame_defs)

lemma half_rolled_frame:
  assumes inv: "invar w" and l: "read_only w w1" and s: "half_rolled app ident w1 w2" and r: "read_only w2 w3"
  shows "half_rolled app ident w w3"
  using view_read_only [OF inv l] l s r by (auto simp: half_rolled_def frame_defs)

lemma rolled_back_frame:
  assumes inv: "invar w" "invar w2" and l: "read_only w w1" and s: "rolled_back app ident j w1 w2" and r: "read_only w2 w3"
  shows "rolled_back app ident j w w3"
  using view_read_only [OF inv(1) l] view_read_only [OF inv(2) r] l s r
  by (auto simp: rolled_back_def frame_defs)

lemma runs_guarded_rollback:
  assumes inv: "invar w" and st: "store (repo app) = st"
    and rok: "repo_ok (root (repo app)) (env w) (files w) (rows w)" and w1: "read_only w w1"
  shows "runs (bind_io (perform_rollback app ident) (\<lambda>r. case r of
       Inl code \<Rightarrow> return_io (Inl code, gate)
     | Inr j \<Rightarrow> bind_io utc_now (\<lambda>now. return_io (Inr j, Some now)))) w1
    (\<lambda>(r, gate') w'. settled (repo app) w w' \<and> (case r of
        Inl code \<Rightarrow> code \<in> {400, 500, 502} \<and> gate' = gate \<and> half_rolled app ident w w'
      | Inr j \<Rightarrow> rolled_back app ident j w w' \<and>
          (\<exists>k. step w1 \<le> k \<and> k < step w' \<and> gate' = Some (clock (env w) k))))
    (\<lambda>_ w'. settled (repo app) w w' \<and> half_rolled app ident w w')"
proof -
  have v1: "invar w1" "rows w1 = rows w" using view_read_only [OF inv w1] by auto
  have E: "env w1 = env w" using w1 by (simp add: frame_defs)
  have rok1: "repo_ok (root (repo app)) (env w1) (files w1) (rows w1)"
    using rok v1 w1 by (simp add: frame_defs)
  have tick: "read_only w2 (w2\<lparr>step := Suc (step w2)\<rparr>)" for w2 :: "'a world" by (simp add: frame_defs)
  have tick': "invar (w2\<lparr>step := Suc (step w2)\<rparr>)" if "invar w2" for w2
    using view_read_only [OF that tick] by simp
  have S: "settled (repo app) w w2" "settled (repo app) w (w2\<lparr>step := Suc (step w2)\<rparr>)" "env w2 = env w" "step w1 \<le> step w2"
    if "settled (repo app) w1 w2" for w2
    using settled_frame [OF inv w1 that] settled_frame [OF inv w1 that tick] that E
    by (auto simp: settled_def later_def)
  have H: "half_rolled app ident w w2" if "half_rolled app ident w1 w2" for w2
    using half_rolled_frame [OF inv w1 that] by simp
  have B: "rolled_back app ident j w (w2\<lparr>step := Suc (step w2)\<rparr>)"
    if "rolled_back app ident j w1 w2" "settled (repo app) w1 w2" for j w2
    using rolled_back_frame [OF inv _ w1 that(1) tick] that(2) by (simp add: settled_def)
  have K: "\<exists>k \<ge> step w1. k < Suc (step w2) \<and> clock (env w) (step w2) = clock (env w) k"
    if "settled (repo app) w1 w2" for w2
    using S(4) [OF that] by (intro exI [of _ "step w2"]) simp
  show ?thesis
    unfolding runs_bind
    by (rule runs_mono [OF runs_perform_rollback [OF v1(1) st rok1]])
       (use S H B K in \<open>auto simp: wp_simps split: sum.split\<close>)
qed

lemma runs_rollback_backup:
  assumes inv: "invar w" and st: "store (repo app) = st"
    and rok: "repo_ok (root (repo app)) (env w) (files w) (rows w)"
  shows "runs (rollback_backup app ident hs gate) w
    (\<lambda>(r, gate') w'. settled (repo app) w w' \<and> (case r of
        Inl code \<Rightarrow> gate' = gate \<and> (if code \<in> {401, 403, 429} then read_only w w'
          else code \<in> {400, 500, 502} \<and> half_rolled app ident w w')
      | Inr j \<Rightarrow> require_api_auth (env w) app hs = Inr () \<and> csrf_ok (env w) app hs \<and>
          gate_open (env w) gate (clock (env w) (step w)) \<and> rolled_back app ident j w w' \<and>
          (\<exists>k. step w \<le> k \<and> k < step w' \<and> gate' = Some (clock (env w) k))))
    (\<lambda>_ w'. settled (repo app) w w' \<and> half_rolled app ident w w')"
  (is "runs _ _ ?Q ?R")
proof -
  let ?w1 = "case gate of None \<Rightarrow> w | Some _ \<Rightarrow> w\<lparr>step := Suc (step w)\<rparr>"
  have w1: "read_only w ?w1" by (auto simp: frame_defs split: option.split)
  have k1: "step w \<le> step ?w1" by (auto split: option.split)
  have refused: "?Q (Inl code, gate) w'" if "read_only w w'" "code \<in> {401, 403, 429}" for code w'
    using that settled_read_only [OF inv rok] by auto
  have go: "runs (bind_io (perform_rollback app ident) (\<lambda>r. case r of
       Inl code \<Rightarrow> return_io (Inl code, gate)
     | Inr j \<Rightarrow> bind_io utc_now (\<lambda>now. return_io (Inr j, Some now)))) ?w1 ?Q ?R"
    if "require_api_auth (env w) app hs = Inr ()" "csrf_ok (env w) app hs"
      "gate_open (env w) gate (clock (env w) (step w))"
    by (rule runs_mono [OF runs_guarded_rollback [OF inv st rok w1]])
       (use that k1 in \<open>auto split: sum.splits, blast intro: order_trans\<close>)
  have closed: "\<not> gate_open (env w) gate (clock (env w) (step w)) \<longleftrightarrow>
      (\<exists>t. gate = Some t \<and> num_seconds (env w) (clock (env w) (step w) - t) < 10)"
    by (auto simp: gate_open_def split: option.split)
  show ?thesis
  proof (cases "require_api_auth (env w) app hs")
    case (Inl code)
    then show ?thesis
      using refused [of w 401] require_api_auth_code [OF Inl] by (simp add: rollback_backup_def wp_simps)
  next
    case (Inr x)
    show ?thesis
    proof (cases "csrf_ok (env w) app hs")
      case False
      then show ?thesis using refused [of w 403] Inr by (simp add: rollback_backup_def wp_simps)
    next
      case True
      show ?thesis
      proof (cases "gate_open (env w) gate (clock (env w) (step w))")
        case False
        then show ?thesis
          using closed refused [of "w\<lparr>step := Suc (step w)\<rparr>" 429] Inr \<open>csrf_ok (env w) app hs\<close> w1
          by (auto simp: rollback_backup_def wp_simps)
      next
        case is_open: True
        have "runs (rollback_backup app ident hs gate) w Q R =
            runs (bind_io (perform_rollback app ident) (\<lambda>r. case r of
               Inl code \<Rightarrow> return_io (Inl code, gate)
             | Inr j \<Rightarrow> bind_io utc_now (\<lambda>now. return_io (Inr j, Some now)))) ?w1 Q R" for Q R
          using Inr True is_open closed
          by (cases gate) (simp_all add: rollback_backup_def runs_bind [of "get_io env"]
              runs_bind [of "gate_closed g" for g] runs_get runs_gate_closed cong: sum.case_cong)
        then show ?thesis using go Inr True is_open by simp
      qed
    qed
  qed
qed

text \<open>Every request, whatever it asks and however it ends.\<close>

lemma runs_serve:
  assumes inv: "invar w" and st: "store (repo app) = st"
    and rok: "repo_ok (root (repo app)) (env w) (files w) (rows w)"
  shows "runs (serve app req ss hs gate) w
    (\<lambda>_ w'. settled (repo app) w w' \<and> (\<exists>ident. half_rolled app ident w w'))
    (\<lambda>_ w'. settled (repo app) w w' \<and> (\<exists>ident. half_rolled app ident w w'))"
proof -
  have ro: "settled (repo app) w w' \<and> (\<exists>ident. half_rolled app ident w w')" if "read_only w w'" for w'
    using that settled_read_only [OF inv rok that] by (auto simp: half_rolled_def frame_defs)
  have rolled: "half_rolled app ident w w'" if "rolled_back app ident j w w'" for ident j w'
    using that by (auto simp: half_rolled_def rolled_back_def)
  have "runs (handle app h ident hs gate) w
    (\<lambda>_ w'. settled (repo app) w w' \<and> (\<exists>ident. half_rolled app ident w w'))
    (\<lambda>_ w'. settled (repo app) w w' \<and> (\<exists>ident. half_rolled app ident w w'))" for h ident
  proof (cases "h = RollbackBackup")
    case True
    show ?thesis
      unfolding True handle.simps runs_bind
    proof (rule runs_mono [OF runs_rollback_backup [OF inv st rok]], goal_cases)
      case (1 p w')
      then show ?case using ro [of w'] rolled [of ident _ w']
        by (cases p; cases "fst p") (auto simp: wp_simps split: if_splits)
    qed auto
  next
    case False
    show ?thesis
      by (rule runs_mono [OF reads_handle [OF inv st False]]) (auto dest: ro)
  qed
  then show ?thesis using ro [of w] by (auto simp: serve_def wp_simps split: sum.split)
qed

end

end
