(* ===== verification/Config.thy ===== *)
theory Config
  imports Sync_Client File_Rules
begin

text \<open>
  \<open>crates/daemon/src/config.rs\<close> and the parts of \<open>main.rs\<close> that read the command line and the
  environment variables. What the process is started with is a record; the TOML parser with the
  derived \<open>Deserialize\<close> instances and the parser of socket addresses are fields of it.
\<close>

section \<open>Configuration\<close>

record ServerConfig =
  cfg_listen :: "string option"

record StorageConfig =
  cfg_root :: "string option"
  cfg_retention_days :: "i64 option"
  cfg_database_url :: "string option"

record AnkiwebConfig =
  cfg_username :: "string option"
  cfg_password :: "string option"
  cfg_endpoint :: "string option"

record SecurityConfig =
  cfg_api_token :: "string option"
  cfg_csrf_token :: "string option"

record Config =
  server :: ServerConfig
  storage :: StorageConfig
  ankiweb :: AnkiwebConfig
  security :: SecurityConfig

definition Config_default :: Config where
  "Config_default =
     \<lparr>server = \<lparr>cfg_listen = None\<rparr>,
      storage = \<lparr>cfg_root = None, cfg_retention_days = None, cfg_database_url = None\<rparr>,
      ankiweb = \<lparr>cfg_username = None, cfg_password = None, cfg_endpoint = None\<rparr>,
      security = \<lparr>cfg_api_token = None, cfg_csrf_token = None\<rparr>\<rparr>"

text \<open>What a process sees of its surroundings; \<open>env_var\<close> is \<open>env::var(..).ok()\<close>.\<close>

record process =
  args :: "string list"
  env_var :: "string \<Rightarrow> string option"
  current_dir :: path
  toml_from_str :: "string \<Rightarrow> Config option"
  parse_socket_addr :: "string \<Rightarrow> string option"

section \<open>Reading the configuration file\<close>

text \<open>\<open>read_to_string\<close> accepts UTF-8 only.\<close>

definition continuation :: "nat \<Rightarrow> bool" where
  "continuation b \<longleftrightarrow> 0x80 \<le> b \<and> b < 0xc0"

fun valid_utf8 :: "nat list \<Rightarrow> bool" where
  "valid_utf8 [] = True"
| "valid_utf8 (a # bs) =
     (if a < 0x80 then valid_utf8 bs
      else case bs of
        [] \<Rightarrow> False
      | b # cs \<Rightarrow>
          if 0xc2 \<le> a \<and> a < 0xe0 then continuation b \<and> valid_utf8 cs
          else if 0xe0 \<le> a \<and> a < 0xf0 then
            (case cs of
               [] \<Rightarrow> False
             | c # ds \<Rightarrow>
                 continuation b \<and> continuation c \<and> (a = 0xe0 \<longrightarrow> 0xa0 \<le> b) \<and> (a = 0xed \<longrightarrow> b < 0xa0) \<and>
                 valid_utf8 ds)
          else if 0xf0 \<le> a \<and> a < 0xf5 then
            (case cs of
               c # d # es \<Rightarrow>
                 continuation b \<and> continuation c \<and> continuation d \<and> (a = 0xf0 \<longrightarrow> 0x90 \<le> b) \<and>
                 (a = 0xf4 \<longrightarrow> b < 0x90) \<and> valid_utf8 es
             | _ \<Rightarrow> False)
          else False)"

definition load_config :: "process \<Rightarrow> string \<Rightarrow> ('db world, Config) io" where
  "load_config P file =
     bind_io (map_err (Context (''reading config file \"'' @ file @ ''\"''))
       (bind_io (fs_read (path_join (current_dir P) file)) (\<lambda>content.
        if valid_utf8 (map unat content) then return_io (string_of_bytes content)
        else fail_io (IoError ''stream did not contain valid UTF-8'')))) (\<lambda>contents.
     of_option (Context (''parsing config file \"'' @ file @ ''\"'') (Anyhow ''toml'')) (toml_from_str P contents))"

section \<open>The command line\<close>

text \<open>The loop over the arguments, from index \<open>i\<close> on.\<close>

function parse_args_loop ::
  "string list \<Rightarrow> nat \<Rightarrow> string option \<Rightarrow> string option \<Rightarrow> error + string option \<times> string option"
where
  "parse_args_loop as i config_path mode =
     (if i < length as then
        (if as ! i = ''--config'' then
           (if length as \<le> i + 1 then Inl (Anyhow ''--config requires a path argument'')
            else parse_args_loop as (i + 2) (Some (as ! (i + 1))) mode)
         else parse_args_loop as (i + 1) config_path (Some (as ! i)))
      else Inr (config_path, mode))"
  by pat_completeness auto
termination
  by (relation "measure (\<lambda>(as, i, _, _). length as - i)") auto

declare parse_args_loop.simps [simp del]

definition parse_args :: "process \<Rightarrow> ('db world, Config \<times> string option) io" where
  "parse_args P =
     bind_io (of_result (parse_args_loop (args P) 1 None None)) (\<lambda>(config_path, mode).
     bind_io (case config_path of Some file \<Rightarrow> load_config P file | None \<Rightarrow> return_io Config_default) (\<lambda>cfg.
     return_io (cfg, mode)))"

section \<open>Settings\<close>

definition sync_config_of :: "process \<Rightarrow> Config \<Rightarrow> SyncConfig" where
  "sync_config_of P cfg =
     \<lparr>username = unwrap_or (option_or (env_var P ''ANKIWEB_USERNAME'') (cfg_username (ankiweb cfg))) [],
      password = unwrap_or (option_or (env_var P ''ANKIWEB_PASSWORD'') (cfg_password (ankiweb cfg))) [],
      endpoint = option_or (env_var P ''ANKIWEB_ENDPOINT'') (cfg_endpoint (ankiweb cfg))\<rparr>"

definition root_setting :: "process \<Rightarrow> Config \<Rightarrow> string" where
  "root_setting P cfg =
     unwrap_or (option_or (env_var P ''ANKI_BACKUP_ROOT'') (cfg_root (storage cfg))) ''./data''"

definition listen_setting :: "process \<Rightarrow> Config \<Rightarrow> string" where
  "listen_setting P cfg =
     unwrap_or (option_or (env_var P ''ANKI_BACKUP_LISTEN'') (cfg_listen (server cfg))) ''127.0.0.1:8088''"

definition database_url_setting :: "process \<Rightarrow> Config \<Rightarrow> string option" where
  "database_url_setting P cfg = option_or (env_var P ''DATABASE_URL'') (cfg_database_url (storage cfg))"

definition retention_setting :: "process \<Rightarrow> Config \<Rightarrow> i64" where
  "retention_setting P cfg =
     unwrap_or (option_or (Option.bind (env_var P ''ANKI_BACKUP_RETENTION_DAYS'') parse_i64)
       (cfg_retention_days (storage cfg))) 90"

section \<open>What a command line means\<close>

text \<open>
  The reading of the arguments as a list: \<open>--config\<close> takes the next argument whatever it is, every
  other argument is the mode, and the last of each kind counts.
\<close>

fun config_args :: "string list \<Rightarrow> string list option" where
  "config_args [] = Some []"
| "config_args (a # rest) =
     (if a = ''--config''
      then (case rest of [] \<Rightarrow> None | p # rest' \<Rightarrow> map_option ((#) p) (config_args rest'))
      else config_args rest)"

fun mode_args :: "string list \<Rightarrow> string list" where
  "mode_args [] = []"
| "mode_args (a # rest) =
     (if a = ''--config'' then (case rest of [] \<Rightarrow> [] | _ # rest' \<Rightarrow> mode_args rest')
      else a # mode_args rest)"

definition last_option :: "'a option \<Rightarrow> 'a list \<Rightarrow> 'a option" where
  "last_option d xs = (if xs = [] then d else Some (List.last xs))"

section \<open>Lemmas\<close>

lemma last_option_Cons: "last_option d (x # xs) = last_option (Some x) xs"
  by (simp add: last_option_def)

lemma last_option_Nil [simp]: "last_option d [] = d"
  by (simp add: last_option_def)

lemma parse_args_loop_end: "length as \<le> i \<Longrightarrow> parse_args_loop as i cp m = Inr (cp, m)"
  by (subst parse_args_loop.simps) simp

lemma parse_args_loop_drop:
  "parse_args_loop as i cp m =
     (case config_args (drop i as) of
        None \<Rightarrow> Inl (Anyhow ''--config requires a path argument'')
      | Some ps \<Rightarrow> Inr (last_option cp ps, last_option m (mode_args (drop i as))))"
proof (induction as i cp m rule: parse_args_loop.induct)
  case (1 as i cp m)
  show ?case
  proof (cases "i < length as")
    case False
    then show ?thesis by (simp add: parse_args_loop_end)
  next
    case True
    then have d: "drop i as = as ! i # drop (Suc i) as" by (rule Cons_nth_drop_Suc [symmetric])
    show ?thesis
    proof (cases "as ! i = ''--config''")
      case False
      then show ?thesis
        using True 1(2) by (subst parse_args_loop.simps) (simp add: d last_option_Cons split: option.split)
    next
      case c: True
      show ?thesis
      proof (cases "length as \<le> i + 1")
        case True
        then show ?thesis using \<open>i < length as\<close> c by (subst parse_args_loop.simps) (simp add: d)
      next
        case False
        then have d': "drop (Suc i) as = as ! Suc i # drop (Suc (Suc i)) as"
          by (intro Cons_nth_drop_Suc [symmetric]) simp
        show ?thesis
          using False 1(1) \<open>i < length as\<close> c
          by (subst parse_args_loop.simps) (simp add: d d' last_option_Cons split: option.split)
      qed
    qed
  qed
qed

lemma runs_load_config:
  "runs (load_config P file) w
     (\<lambda>cfg w'. read_only w w' \<and> (\<exists>content. files w (path_join (current_dir P) file) = Some (File content) \<and>
        toml_from_str P (string_of_bytes content) = Some cfg))
     (\<lambda>_ w'. read_only w w')"
  unfolding load_config_def runs_bind runs_map_err
  by (rule runs_mono [OF runs_fs_read]) (auto simp: wp_simps split: option.split)

lemma runs_parse_args:
  "runs (parse_args P) w (\<lambda>_. read_only w) (\<lambda>_. read_only w)"
  by (auto simp: parse_args_def wp_simps split: sum.split option.split
      intro!: runs_mono [OF runs_load_config])

end
