(* ===== verification/Daemon.thy ===== *)
theory Daemon
  imports Server Config
begin

text \<open>
  \<open>crates/daemon/src/main.rs\<close>: the two commands, the scheduler and the running service. A service
  is a state machine: it serves requests in any order, and its scheduler sleeps until a deadline,
  backs up and prunes, and sleeps again. Handlers and the work of the scheduler run one after the
  other; time passes in between.
\<close>

section \<open>Backing up\<close>

definition backup_now :: "'db BackupRepository \<Rightarrow> SyncResult \<Rightarrow> ('db world, RunOnceOutcome) io" where
  "backup_now r sync =
     bind_io (get_io env) (\<lambda>E.
     run_once r
       \<lparr>payload_bytes = collection_bytes sync, payload_source_revision = result_source_revision sync,
        payload_sync_duration_ms = Some (result_sync_duration_ms sync)\<rparr>
       (content_hash (sha256 E) (hex_encode E) (collection_bytes sync)))"

definition run_once_command :: "'db BackupRepository \<Rightarrow> SyncConfig \<Rightarrow> ('db world, unit) io" where
  "run_once_command r cfg =
     bind_io (sync_collection cfg) (\<lambda>sync.
     bind_io (backup_now r sync) (\<lambda>_. return_io ()))"

section \<open>The scheduler\<close>

definition secs_to_next_hour :: "env \<Rightarrow> datetime \<Rightarrow> u64" where
  "secs_to_next_hour E now = 3600 - ucast (minute E now * 60 + second E now)"

definition sleep_secs :: "env \<Rightarrow> datetime \<Rightarrow> u64" where
  "sleep_secs E now = max (secs_to_next_hour E now) 1"

datatype Scheduler = Sleeping datetime | Stopped

definition go_to_sleep :: "('db world, Scheduler) io" where
  "go_to_sleep =
     bind_io utc_now (\<lambda>now.
     bind_io (get_io env) (\<lambda>E.
     return_io (Sleeping (now + int (unat (sleep_secs E now)) * 10 ^ 9))))"

definition scheduled_backup :: "'db BackupRepository \<Rightarrow> SyncConfig \<Rightarrow> i64 \<Rightarrow> ('db world, unit) io" where
  "scheduled_backup r cfg days =
     bind_io (try_await (sync_collection cfg)) (\<lambda>synced.
     case synced of
       Inl _ \<Rightarrow> return_io ()
     | Inr sync \<Rightarrow>
         seq_io (try_await (backup_now r sync))
         (seq_io (try_await (prune_created_older_than_days r days))
         (return_io ())))"

text \<open>One turn of \<open>scheduler_loop\<close>, from the end of one sleep to the beginning of the next.\<close>

definition scheduler_loop :: "'db BackupRepository \<Rightarrow> SyncConfig \<Rightarrow> i64 \<Rightarrow> ('db world, Scheduler) io" where
  "scheduler_loop r cfg days = seq_io (scheduled_backup r cfg days) go_to_sleep"

section \<open>The service\<close>

record 'db Service =
  app :: "'db AppState"
  last_rollback :: rollback_gate
  scheduler :: Scheduler
  scheduler_config :: SyncConfig
  retention_days :: i64

definition app_state :: "process \<Rightarrow> Config \<Rightarrow> 'db BackupRepository \<Rightarrow> 'db AppState" where
  "app_state P cfg r =
     \<lparr>repo = r,
      csrf_token = option_or (env_var P ''ANKI_BACKUP_CSRF_TOKEN'') (cfg_csrf_token (security cfg)),
      api_token = option_or (env_var P ''ANKI_BACKUP_API_TOKEN'') (cfg_api_token (security cfg)),
      sync_config =
        (let sc = sync_config_of P cfg in if username sc = [] \<or> password sc = [] then None else Some sc)\<rparr>"

definition run_service :: "process \<Rightarrow> 'db BackupRepository \<Rightarrow> string \<Rightarrow> Config \<Rightarrow> ('db world, 'db Service) io" where
  "run_service P r listen cfg =
     bind_io go_to_sleep (\<lambda>sched.
     bind_io (of_option (Context (''invalid listen address: '' @ listen) (Anyhow ''invalid socket address syntax''))
       (parse_socket_addr P listen)) (\<lambda>addr.
     seq_io (http_step ())
     (return_io \<lparr>app = app_state P cfg r, last_rollback = None, scheduler = sched,
        scheduler_config = sync_config_of P cfg, retention_days = retention_setting P cfg\<rparr>)))"

datatype 'db Outcome = Finished | Serving "'db Service"

text \<open>
  \<open>main\<close> for one kind of backend: \<open>open_repo\<close> is what \<open>BackupRepository::init\<close> calls for it.
\<close>

definition main_with ::
  "(path \<Rightarrow> ('db world, 'db BackupRepository) io) \<Rightarrow> process \<Rightarrow> Config \<times> string option \<Rightarrow> ('db world, 'db Outcome) io"
where
  "main_with open_repo P = (\<lambda>(cfg, mode).
     bind_io (open_repo (path_join (current_dir P) (root_setting P cfg))) (\<lambda>r.
     if mode = Some ''run-once''
     then seq_io (run_once_command r (sync_config_of P cfg)) (return_io Finished)
     else bind_io (run_service P r (listen_setting P cfg) cfg) (\<lambda>s. return_io (Serving s))))"

definition main_backend :: "process \<Rightarrow> Config \<Rightarrow> backend" where
  "main_backend P cfg = init_backend (database_url_setting P cfg)"

definition main_sqlite :: "process \<Rightarrow> Config \<times> string option \<Rightarrow> (sqlite_db world, sqlite_db Outcome) io" where
  "main_sqlite = main_with repository_new"

definition main_postgres :: "process \<Rightarrow> Config \<times> string option \<Rightarrow> (pg_db world, pg_db Outcome) io" where
  "main_postgres = main_with with_postgres"

section \<open>A service at work\<close>

text \<open>
  A handler that panics closes its connection, a scheduler that panics never runs again; the rest of
  the service goes on.
\<close>

inductive service_step :: "'db Service \<times> 'db world \<Rightarrow> 'db Service \<times> 'db world \<Rightarrow> bool" where
  answered: "serve (app s) req ss hs (last_rollback s) w = (Inr (reply, gate'), w') \<Longrightarrow>
    service_step (s, w) (s\<lparr>last_rollback := gate'\<rparr>, w')"
| panicked: "serve (app s) req ss hs (last_rollback s) w = (Inl e, w') \<Longrightarrow> service_step (s, w) (s, w')"
| scheduled: "scheduler s = Sleeping t \<Longrightarrow> t \<le> clock (env w) (step w) \<Longrightarrow>
    scheduler_loop (repo (app s)) (scheduler_config s) (retention_days s) w = (Inr sched, w') \<Longrightarrow>
    service_step (s, w) (s\<lparr>scheduler := sched\<rparr>, w')"
| stopped: "scheduler s = Sleeping t \<Longrightarrow> t \<le> clock (env w) (step w) \<Longrightarrow>
    scheduler_loop (repo (app s)) (scheduler_config s) (retention_days s) w = (Inl e, w') \<Longrightarrow>
    service_step (s, w) (s\<lparr>scheduler := Stopped\<rparr>, w')"
| idle: "service_step (s, w) (s, w\<lparr>step := Suc (step w)\<rparr>)"

inductive_cases service_stepE: "service_step (s, w) (s', w')"

section \<open>What the scheduler relies on and keeps\<close>

text \<open>
  The clock of a host whose time is not set back, and the directory names that chrono gives it: in
  range, and different for different seconds; the retention reaches back into the range.
\<close>

definition clock_steady :: "env \<Rightarrow> bool" where
  "clock_steady E \<longleftrightarrow> (\<forall>j k. j \<le> k \<longrightarrow> clock E j \<le> clock E k) \<and> (\<forall>k. ts_window (clock E k))"

definition dirs_by_second :: "env \<Rightarrow> bool" where
  "dirs_by_second E \<longleftrightarrow> dir_names_plain E \<and>
     (\<forall>t u. ts_window t \<longrightarrow> ts_window u \<longrightarrow> format_timestamp_dir E t = format_timestamp_dir E u \<longrightarrow>
        t div 10 ^ 9 = u div 10 ^ 9)"

definition retention_in_range :: "env \<Rightarrow> i64 \<Rightarrow> bool" where
  "retention_in_range E days \<longleftrightarrow> (\<forall>k c. minus_days E (clock E k) days = Some c \<longrightarrow> ts_window c)"

definition host_ok :: "env \<Rightarrow> i64 \<Rightarrow> bool" where
  "host_ok E days \<longleftrightarrow> clock_steady E \<and> dirs_by_second E \<and> retention_in_range E days"

text \<open>The directories of the created entries are named after times in \<open>T\<close>.\<close>

definition dirs_in :: "env \<Rightarrow> datetime set \<Rightarrow> BackupEntry list \<Rightarrow> bool" where
  "dirs_in E T es \<longleftrightarrow>
     (\<forall>e \<in> set es. is_created e \<longrightarrow> (\<exists>u \<in> T. ts_window u \<and> timestamp_dir e = format_timestamp_dir E u))"

definition seconds_before :: "datetime \<Rightarrow> datetime set" where
  "seconds_before t = {u. u div 10 ^ 9 < t div 10 ^ 9}"

text \<open>The pointer is absent or the complete document of an entry.\<close>

definition whole_pointer :: "env \<Rightarrow> node option \<Rightarrow> bool" where
  "whole_pointer E n \<longleftrightarrow> n = None \<or> (\<exists>e. points_to E e n)"

definition times_before :: "Scheduler \<Rightarrow> datetime set" where
  "times_before sched = (case sched of Sleeping t \<Rightarrow> seconds_before t | Stopped \<Rightarrow> UNIV)"

section \<open>Lemmas\<close>

lemma sleep_secs_pos: "1 \<le> unat (sleep_secs E now)"
proof -
  have "1 \<le> sleep_secs E now" by (simp add: sleep_secs_def)
  then show ?thesis by (simp add: word_le_nat_alt)
qed

lemma secs_to_next_hour_bounds:
  assumes "minute E now < 60" "second E now < 60"
  shows "1 \<le> unat (secs_to_next_hour E now)" "unat (secs_to_next_hour E now) \<le> 3600"
    "unat (secs_to_next_hour E now) = 3600 - (unat (minute E now) * 60 + unat (second E now))"
proof -
  let ?m = "unat (minute E now)" and ?s = "unat (second E now)"
  have ms: "?m < 60" "?s < 60" using assms by (simp_all add: word_less_nat_alt)
  have "unat (minute E now * 60 + second E now) = ?m * 60 + ?s"
    using ms by (simp add: unat_word_ariths unat_of_nat)
  then have u: "unat (ucast (minute E now * 60 + second E now) :: u64) = ?m * 60 + ?s"
    using ms by (simp add: unsigned_ucast_eq take_bit_nat_eq_self)
  have le: "(ucast (minute E now * 60 + second E now) :: u64) \<le> 3600"
    unfolding word_le_nat_alt u using ms by simp
  show *: "unat (secs_to_next_hour E now) = 3600 - (?m * 60 + ?s)"
    unfolding secs_to_next_hour_def by (simp add: unat_sub [OF le] u)
  show "1 \<le> unat (secs_to_next_hour E now)" "unat (secs_to_next_hour E now) \<le> 3600"
    unfolding * using ms by simp_all
qed

lemma sleep_secs_exact:
  assumes "minute E now < 60" "second E now < 60"
  shows "sleep_secs E now = secs_to_next_hour E now"
  using secs_to_next_hour_bounds(1) [OF assms] by (simp add: sleep_secs_def max_def word_le_nat_alt word_unat_eq_iff)

lemma dirs_in_mono: "dirs_in E S es \<Longrightarrow> S \<subseteq> T \<Longrightarrow> dirs_in E T es"
  unfolding dirs_in_def by blast

lemma dirs_in_filter: "dirs_in E S es \<Longrightarrow> dirs_in E S (filter P es)"
  unfolding dirs_in_def by simp

lemma dirs_in_snoc:
  "dirs_in E S es \<Longrightarrow> (is_created e \<Longrightarrow> u \<in> S \<and> ts_window u \<and> timestamp_dir e = format_timestamp_dir E u) \<Longrightarrow>
   dirs_in E S (es @ [with_ts t e])"
  unfolding dirs_in_def by (auto simp: with_ts_def is_created_def)

lemma dirs_in_fresh:
  assumes "dirs_by_second E" "dirs_in E (seconds_before t) es" "t \<le> now" "ts_window now"
  shows "format_timestamp_dir E now \<notin> set (created_dirs es)"
proof
  assume "format_timestamp_dir E now \<in> set (created_dirs es)"
  then obtain e where "e \<in> set es" "is_created e" "timestamp_dir e = format_timestamp_dir E now"
    by (auto simp: created_dirs_def)
  then obtain u where u: "u \<in> seconds_before t" "ts_window u" "format_timestamp_dir E now = format_timestamp_dir E u"
    using assms(2) unfolding dirs_in_def by metis
  then have "now div 10 ^ 9 = u div 10 ^ 9" using assms(1,4) unfolding dirs_by_second_def by blast
  moreover have "t div 10 ^ 9 \<le> now div 10 ^ 9" using assms(3) by (rule zdiv_mono1) simp
  ultimately show False using u(1) by (simp add: seconds_before_def)
qed

end
