(* ===== verification/Daemon_Laws.thy ===== *)
theory Daemon_Laws
  imports Server_Laws Daemon
begin

text \<open>
  The service on any store that satisfies \<open>metadata_store_laws\<close>: requests, scheduled runs and prunings
  in any order keep the repository intact. That a scheduled run never meets the directory of an
  earlier one is not assumed but follows from the sleep of at least a second between two runs.
\<close>

section \<open>Lemmas\<close>

lemma seconds_before_mono: "t \<le> b \<Longrightarrow> seconds_before t \<subseteq> {u. u \<le> b}"
proof
  fix u assume t: "t \<le> b" and u: "u \<in> seconds_before t"
  then have "\<not> t \<le> u" using zdiv_mono1 [of t u "10 ^ 9"] by (auto simp: seconds_before_def)
  with t show "u \<in> {u. u \<le> b}" by simp
qed

lemma seconds_before_sleep: "{u. u \<le> now} \<subseteq> seconds_before (now + int n * 10 ^ 9)" if "1 \<le> n"
proof
  fix u assume "u \<in> {u. u \<le> now}"
  then have "u div 10 ^ 9 \<le> now div 10 ^ 9" by (intro zdiv_mono1) simp_all
  moreover have "(now + int n * 10 ^ 9) div 10 ^ 9 = now div 10 ^ 9 + int n" by simp
  ultimately show "u \<in> seconds_before (now + int n * 10 ^ 9)" using that by (simp add: seconds_before_def)
qed

lemma whole_pointerI: "points_to E e n \<Longrightarrow> whole_pointer E n"
  by (auto simp: whole_pointer_def)

lemma clock_steadyD: "clock_steady E \<Longrightarrow> j \<le> k \<Longrightarrow> clock E j \<le> clock E k"
  by (simp add: clock_steady_def)

lemma clock_steady_window: "clock_steady E \<Longrightarrow> ts_window (clock E k)"
  by (simp add: clock_steady_def)

context metadata_store_laws
begin

definition serving :: "'db BackupRepository \<Rightarrow> datetime set \<Rightarrow> 'db world \<Rightarrow> bool" where
  "serving r T w \<longleftrightarrow> invar w \<and> store r = st \<and> repo_ok (root r) (env w) (files w) (rows w) \<and>
     dirs_in (env w) T (rows w) \<and> whole_pointer (env w) (files w (pointer_at (root r)))"

lemma serving_mono: "serving r S w \<Longrightarrow> S \<subseteq> T \<Longrightarrow> serving r T w"
  by (auto simp: serving_def intro: dirs_in_mono)

lemma serving_same:
  "serving r T w \<Longrightarrow> env w' = env w \<Longrightarrow> db w' = db w \<Longrightarrow> files w' = files w \<Longrightarrow> serving r T w'"
  using view_db [of w w'] by (auto simp: serving_def)

lemma serving_talks: "serving r T w \<Longrightarrow> talks w w' rs \<Longrightarrow> serving r T w'"
  by (auto simp: talks_def later_def intro: serving_same)

lemma serving_serve:
  assumes s: "serving (repo a) T w"
  shows "runs (serve a req ss hs g) w (\<lambda>_ w'. serving (repo a) T w' \<and> env w' = env w)
    (\<lambda>_ w'. serving (repo a) T w' \<and> env w' = env w)"
proof -
  have ok: "serving (repo a) T w' \<and> env w' = env w"
    if "settled (repo a) w w' \<and> (\<exists>ident. half_rolled a ident w w')" for w'
    using that s by (auto simp: serving_def settled_def half_rolled_def later_def intro: whole_pointerI)
  have "invar w" "store (repo a) = st" "repo_ok (root (repo a)) (env w) (files w) (rows w)"
    using s by (simp_all add: serving_def)
  from runs_serve [OF this] show ?thesis by (rule runs_mono) (rule ok, assumption)+
qed

lemma serving_backup_now:
  assumes s: "serving r (seconds_before t) w" and E: "clock_steady (env w)" "dirs_by_second (env w)"
    and t: "t \<le> clock (env w) (step w)" and good: "\<And>u. ts_window u \<Longrightarrow> good_ts u" and ord: "row_order_ok (env w)"
  defines "P \<equiv> \<lambda>w'. serving r {u. u \<le> clock (env w) (step w')} w' \<and> later w w'"
  shows "runs (backup_now r sync) w (\<lambda>_. P) (\<lambda>_. P)"
proof -
  let ?now = "clock (env w) (step w)"
  have now: "ts_window ?now" using E(1) by (rule clock_steady_window)
  have plain: "plain_name (format_timestamp_dir (env w) ?now)"
    using E(2) now by (simp add: dirs_by_second_def dir_names_plain_def format_timestamp_dir_def)
  have sw: "invar w" "store r = st" "repo_ok (root r) (env w) (files w) (rows w)"
    "dirs_in (env w) (seconds_before t) (rows w)" "whole_pointer (env w) (files w (pointer_at (root r)))"
    using s by (simp_all add: serving_def)
  have fresh: "format_timestamp_dir (env w) ?now \<notin> set (created_dirs (rows w))"
    by (rule dirs_in_fresh [OF E(2) sw(4) t now])
  have D: "dirs_in (env w) {u. u \<le> clock (env w) (step w')} (rows w)" "?now \<le> clock (env w) (step w')"
    if "later w w'" for w'
  proof -
    show "?now \<le> clock (env w) (step w')"
      using that by (intro clock_steadyD [OF E(1)]) (simp add: later_def)
    then show "dirs_in (env w) {u. u \<le> clock (env w) (step w')} (rows w)"
      using t by (intro dirs_in_mono [OF sw(4) seconds_before_mono]) simp
  qed
  have D': "dirs_in (env w) {u. u \<le> clock (env w) (step w')} (rows w @ [with_ts t' e])"
    if "later w w'" "is_created e \<longrightarrow> timestamp_dir e = format_timestamp_dir (env w) ?now" for w' e t'
    using that D [OF that(1)] now by (intro dirs_in_snoc [where u = ?now]) simp_all
  have K: "P w'" if "kept r w w'" "whole_pointer (env w) (files w' (pointer_at (root r)))"
      "rows w' = rows w \<or> (\<exists>e t'. rows w' = rows w @ [with_ts t' e] \<and>
        (is_created e \<longrightarrow> timestamp_dir e = format_timestamp_dir (env w) ?now))" for w'
    using that D(1) [of w'] D' [of w'] sw(2) unfolding P_def serving_def kept_def later_def by auto
  show ?thesis
    unfolding backup_now_def runs_bind runs_get
  proof (rule runs_mono [OF runs_run_once [OF sw(1,2) ord sw(3) _ refl good [OF now] plain fresh]])
    fix out w'
    assume a: "kept r w w' \<and> outcome_ok (env w) (root r) \<lparr>payload_bytes = collection_bytes sync,
        payload_source_revision = result_source_revision sync,
        payload_sync_duration_ms = Some (result_sync_duration_ms sync)\<rparr>
      (content_hash (sha256 (env w)) (hex_encode (env w)) (collection_bytes sync)) ?now
      (stored_ts (env w) ?now) (rows w) (files w) out (rows w') (files w')"
    show "P w'"
    proof (cases out)
      case (OutcomeCreated e)
      then obtain s where e: "e = entry_of_new (backup_id e) (new_created ?now (format_timestamp_dir (env w) ?now)
          (content_hash (sha256 (env w)) (hex_encode (env w)) (collection_bytes sync))
          (result_source_revision sync) (Some (result_sync_duration_ms sync))
          (of_nat (length (collection_bytes sync))) s)"
        using a by (auto simp: outcome_ok_def)
      have "timestamp_dir e = format_timestamp_dir (env w) ?now" by (subst e) simp
      then show ?thesis
        using a OutcomeCreated by (intro K) (auto simp: outcome_ok_def intro: whole_pointerI)
    next
      case (OutcomeSkipped e)
      then have "e = entry_of_new (backup_id e) (skipped_unchanged ?now
          (content_hash (sha256 (env w)) (hex_encode (env w)) (collection_bytes sync)))"
        using a by (simp add: outcome_ok_def)
      then have "\<not> is_created e" unfolding is_created_def by (metis BackupStatus.distinct(1) entry_of_new_simps(4) skipped_unchanged_simps(4))
      then show ?thesis
        using a OutcomeSkipped sw(5) by (intro K) (auto simp: outcome_ok_def)
    qed
  next
    fix err w'
    assume "run_failed r \<lparr>payload_bytes = collection_bytes sync,
        payload_source_revision = result_source_revision sync,
        payload_sync_duration_ms = Some (result_sync_duration_ms sync)\<rparr>
      (content_hash (sha256 (env w)) (hex_encode (env w)) (collection_bytes sync)) ?now w w'"
    then show "P w'" using sw(5) by (intro K) (auto simp: run_failed_def)
  qed simp
qed

lemma serving_prune:
  assumes s: "serving r T w" and days: "retention_in_range (env w) days" and good: "\<And>u. ts_window u \<Longrightarrow> good_ts u"
  shows "runs (prune_created_older_than_days r days) w (\<lambda>_ w'. serving r T w' \<and> later w w')
    (\<lambda>_ w'. serving r T w' \<and> later w w')"
proof -
  have sw: "invar w" "store r = st" "repo_ok (root r) (env w) (files w) (rows w)"
    "dirs_in (env w) T (rows w)" "whole_pointer (env w) (files w (pointer_at (root r)))"
    using s by (simp_all add: serving_def)
  have K: "serving r T w' \<and> later w w'" if "kept r w w'"
    "files w' (pointer_at (root r)) = files w (pointer_at (root r))" "rows w' = filter Q (rows w)" for w' Q
    using that sw dirs_in_filter [OF sw(4), of Q] by (auto simp: serving_def kept_def later_def)
  have same: "serving r T (w\<lparr>step := Suc (step w)\<rparr>)" using s by (rule serving_same) simp_all
  show ?thesis
  proof (cases "0 < sint days")
    case False
    then show ?thesis using s by (simp add: prune_created_older_than_days_def wp_simps)
  next
    case pos: True
    show ?thesis
    proof (cases "minus_days (env w) (clock (env w) (step w)) days")
      case None
      then show ?thesis using pos same by (simp add: prune_created_older_than_days_def wp_simps later_def)
    next
      case (Some c)
      then have "good_ts c" using days good by (auto simp: retention_in_range_def)
      from runs_prune [OF sw(1-3) pos Some this] show ?thesis
        by (rule runs_mono) (auto simp: prune_failed_def dest: K)
    qed
  qed
qed

lemma serving_scheduled_backup:
  assumes s: "serving r (seconds_before t) w" and h: "host_ok (env w) days" and t: "t \<le> clock (env w) (step w)"
    and good: "\<And>u. ts_window u \<Longrightarrow> good_ts u" and ord: "row_order_ok (env w)"
  defines "P \<equiv> \<lambda>w'. serving r {u. u \<le> clock (env w) (step w')} w' \<and> later w w'"
  shows "runs (scheduled_backup r cfg days) w (\<lambda>_. P) (\<lambda>_. P)"
proof -
  have E: "clock_steady (env w)" "dirs_by_second (env w)" "retention_in_range (env w) days"
    using h by (simp_all add: host_ok_def)
  have synced: "serving r (seconds_before t) w1" "later w w1" "t \<le> clock (env w) (step w1)" "P w1"
    if "talks w w1 rs" for w1 rs
  proof -
    show 1: "serving r (seconds_before t) w1" "later w w1"
      using serving_talks [OF s that] talks_later [OF that] by simp_all
    show 2: "t \<le> clock (env w) (step w1)"
      using t clock_steadyD [OF E(1), of "step w" "step w1"] 1(2) by (simp add: later_def)
    show "P w1" unfolding P_def using serving_mono [OF 1(1) seconds_before_mono [OF 2]] 1(2) by simp
  qed
  have backup: "runs (backup_now r sync) w1 (\<lambda>_. P) (\<lambda>_. P)" if "talks w w1 rs" for w1 rs sync
    by (rule runs_mono [OF serving_backup_now [OF synced(1) [OF that]]])
       (use synced [OF that] E ord good in \<open>auto simp: P_def later_def\<close>)
  have prune: "runs (prune_created_older_than_days r days) w1 (\<lambda>_. P) (\<lambda>_. P)" if "P w1" for w1
  proof -
    have *: "serving r {u. u \<le> clock (env w) (step w1)} w1" "env w1 = env w" "later w w1"
      using that by (auto simp: P_def later_def)
    have mono: "serving r {u. u \<le> clock (env w) (step w2)} w2"
      if "serving r {u. u \<le> clock (env w) (step w1)} w2" "later w1 w2" for w2
      using clock_steadyD [OF E(1), of "step w1" "step w2"] that(2)
      by (intro serving_mono [OF that(1)]) (auto simp: later_def)
    show ?thesis
      by (rule runs_mono [OF serving_prune [OF *(1) _ good]])
         (use * E(3) mono in \<open>auto simp: P_def dest: later_trans\<close>)
  qed
  have sync: "runs (sync_collection cfg) w (\<lambda>_ w'. \<exists>rs. talks w w' rs) (\<lambda>_ w'. \<exists>rs. talks w w' rs)"
    by (rule runs_mono [OF runs_sync_collection]) (auto split: if_splits)
  show ?thesis
    unfolding scheduled_backup_def runs_bind runs_try_await
    by (rule runs_mono [OF sync])
       (auto simp: wp_simps synced(4) intro!: runs_mono [OF backup] runs_mono [OF prune])
qed

lemma serving_go_to_sleep:
  assumes "serving r {u. u \<le> clock (env w) (step w)} w"
  shows "runs go_to_sleep w (\<lambda>sched w'. serving r (times_before sched) w' \<and> env w' = env w) (\<lambda>_ _. False)"
proof -
  let ?t = "clock (env w) (step w) + int (unat (sleep_secs (env w) (clock (env w) (step w)))) * 10 ^ 9"
  have "serving r (seconds_before ?t) w"
    by (rule serving_mono [OF assms seconds_before_sleep]) (rule sleep_secs_pos)
  then have "serving r (seconds_before ?t) (w\<lparr>step := Suc (step w)\<rparr>)" by (rule serving_same) simp_all
  then show ?thesis by (simp add: go_to_sleep_def wp_simps times_before_def)
qed

lemma serving_scheduler_loop:
  assumes s: "serving r (seconds_before t) w" and h: "host_ok (env w) days" and t: "t \<le> clock (env w) (step w)"
    and good: "\<And>u. ts_window u \<Longrightarrow> good_ts u" and ord: "row_order_ok (env w)"
  shows "runs (scheduler_loop r cfg days) w (\<lambda>sched w'. serving r (times_before sched) w' \<and> env w' = env w)
    (\<lambda>_ w'. serving r UNIV w' \<and> env w' = env w)"
  unfolding scheduler_loop_def runs_seq
proof (rule runs_mono [OF serving_scheduled_backup [OF s h t good ord]])
  fix x w1
  assume "serving r {u. u \<le> clock (env w) (step w1)} w1 \<and> later w w1"
  then have "serving r {u. u \<le> clock (env w1) (step w1)} w1" "env w1 = env w" by (simp_all add: later_def)
  from serving_go_to_sleep [OF this(1)] this(2)
  show "runs go_to_sleep w1 (\<lambda>sched w'. serving r (times_before sched) w' \<and> env w' = env w)
      (\<lambda>_ w'. serving r UNIV w' \<and> env w' = env w)"
    by (auto elim!: runs_mono)
qed (auto simp: later_def intro: serving_mono)

text \<open>The invariant of the whole service, and that no step breaks it.\<close>

definition service_ok :: "env \<Rightarrow> 'db Service \<times> 'db world \<Rightarrow> bool" where
  "service_ok E = (\<lambda>(s, w). env w = E \<and> host_ok E (retention_days s) \<and>
     serving (repo (app s)) (times_before (scheduler s)) w)"

lemma service_ok_step:
  assumes good: "\<And>u. ts_window u \<Longrightarrow> good_ts u" and ord: "row_order_ok E"
  shows "service_step c c' \<Longrightarrow> service_ok E c \<Longrightarrow> service_ok E c'"
proof (induction rule: service_step.induct)
  case (answered s req ss hs w reply gate' w')
  then show ?case
    using runs_okD [OF serving_serve answered.hyps] by (auto simp: service_ok_def)
next
  case (panicked s req ss hs w e w')
  then show ?case
    using runs_errD [OF serving_serve panicked.hyps] by (auto simp: service_ok_def)
next
  case (scheduled s t w sched w')
  then have "serving (repo (app s)) (seconds_before t) w" "host_ok (env w) (retention_days s)" "env w = E"
    by (auto simp: service_ok_def times_before_def)
  from runs_okD [OF serving_scheduler_loop [OF this(1,2) scheduled.hyps(2) good] scheduled.hyps(3)] ord this
  show ?case by (simp add: service_ok_def)
next
  case (stopped s t w e w')
  then have "serving (repo (app s)) (seconds_before t) w" "host_ok (env w) (retention_days s)" "env w = E"
    by (auto simp: service_ok_def times_before_def)
  from runs_errD [OF serving_scheduler_loop [OF this(1,2) stopped.hyps(2) good] stopped.hyps(3)] ord this
  show ?case by (simp add: service_ok_def times_before_def)
next
  case (idle s w)
  then show ?case by (auto simp: service_ok_def intro: serving_same)
qed

lemma service_ok_reachable:
  assumes "\<And>u. ts_window u \<Longrightarrow> good_ts u" "row_order_ok E"
  shows "service_step\<^sup>*\<^sup>* c c' \<Longrightarrow> service_ok E c \<Longrightarrow> service_ok E c'"
  by (induction rule: rtranclp_induct) (auto intro: service_ok_step [OF assms])

lemma service_ok_start:
  assumes s: "serving r {u. u \<le> clock (env w) (step w)} w" and h: "host_ok (env w) (retention_setting P cfg)"
  shows "runs (run_service P r listen cfg) w (\<lambda>s w'. service_ok (env w) (s, w')) (\<lambda>_ _. True)"
  unfolding run_service_def runs_bind [of go_to_sleep]
proof (rule runs_mono [OF serving_go_to_sleep [OF s]])
  fix sched w1
  assume w1: "serving r (times_before sched) w1 \<and> env w1 = env w"
  let ?s = "\<lparr>app = app_state P cfg r, last_rollback = None, scheduler = sched,
    scheduler_config = sync_config_of P cfg, retention_days = retention_setting P cfg\<rparr>"
  have "service_ok (env w) (?s, w')" if "talks w1 w' []" for w'
    using serving_talks [OF conjunct1 [OF w1] that] talks_env [OF that] w1 h
    by (simp add: service_ok_def app_state_def)
  then show "runs (bind_io (of_option (Context (''invalid listen address: '' @ listen)
      (Anyhow ''invalid socket address syntax'')) (parse_socket_addr P listen))
      (\<lambda>addr. seq_io (http_step ()) (return_io ?s))) w1 (\<lambda>s w'. service_ok (env w) (s, w')) (\<lambda>_ _. True)"
    by (auto simp: wp_simps split: option.split intro!: runs_mono [OF runs_http_step])
qed simp

end

end
