(* ===== verification/Server_Facts.thy ===== *)
theory Server_Facts
  imports Rollback_Facts Sync_Facts Daemon_Laws
begin

text \<open>
  What the handlers of the service guarantee on a repository with SQLite, what the scheduler and the
  command line do: the lemmas of \<open>Server_Laws\<close> through the interpretation \<open>sqlite\<close>, with their
  statements written out over the model.
\<close>

section \<open>Definitions\<close>

text \<open>\<open>TimeDelta::num_seconds\<close> drops the fraction of a second.\<close>

definition num_seconds_truncates :: "env \<Rightarrow> bool" where
  "num_seconds_truncates E \<longleftrightarrow>
     (\<forall>d. num_seconds E d = (if 0 \<le> d then d div 10 ^ 9 else - (- d div 10 ^ 9)))"

text \<open>\<open>untar\<close> reads back the archives that the program writes.\<close>

definition tar_codec :: "env \<Rightarrow> (bytes \<Rightarrow> (string \<times> bytes) list) \<Rightarrow> bool" where
  "tar_codec E untar \<longleftrightarrow> (\<forall>content t. tar_single_file E ''collection.anki2'' content = Some t \<longrightarrow>
     untar t = [(''collection.anki2'', content)])"

definition protected_endpoints :: "Endpoint set" where
  "protected_endpoints = {DownloadBackup, RollbackBackup, ApiListBackups, ApiBackupDetail}"

definition demo_app :: "sqlite_db AppState" where
  "demo_app = \<lparr>repo = demo_sqlite_repo, csrf_token = None, api_token = Some ''t'', sync_config = Some demo_config\<rparr>"

definition demo_headers :: HeaderMap where
  "demo_headers = [(''authorization'', ''Bearer t'')]"

section \<open>Lemmas\<close>


lemma demo_app_repo: "sqlite_repo (repo demo_app) demo_backup_world"
  by (simp add: demo_app_def demo_backup_facts)

lemma demo_app_root: "root (repo demo_app) = demo_root"
  by (simp add: demo_app_def)

lemma demo_clock_steady: "clock_steady demo_env"
proof -
  have "clock demo_env j \<le> clock demo_env k" if "j \<le> k" for j k
    using that by (auto simp: demo_env_def min_def)
  then show ?thesis using demo_clock by (simp add: clock_steady_def)
qed

lemma ten_seconds:
  assumes "num_seconds_truncates E" "10 \<le> num_seconds E d"
  shows "10 * 10 ^ 9 \<le> d"
proof -
  have "0 \<le> d"
    using assms div_pos_pos_trivial by (auto simp: num_seconds_truncates_def split: if_splits)
  then have "10 \<le> d div 10 ^ 9" using assms by (simp add: num_seconds_truncates_def)
  then have "10 \<le> d div 1000000000" by simp
  moreover have "d div 1000000000 * 1000000000 + d mod 1000000000 = d" "0 \<le> d mod 1000000000"
    by (simp_all add: div_mult_mod_eq)
  ultimately have "10000000000 \<le> d" by linarith
  then show ?thesis by simp
qed

section \<open>Requests\<close>

text \<open>C9. With an API token configured, a request for a protected endpoint without that token is
  answered with 401, and nothing happens: no file, no entry, no request, not even the gate.\<close>

theorem api_requires_token:
  assumes "dispatch req ss = Inr (h, ident)" "h \<in> protected_endpoints" "api_token st = Some tok"
    and "header_str (env w) ''authorization'' hs \<noteq> Some (''Bearer '' @ tok)"
  shows "serve st req ss hs gate w = (Inr (StatusReply 401, gate), w)"
proof -
  have "require_api_auth (env w) st hs \<noteq> Inr ()" using assms(3,4) require_api_auth_iff by blast
  then obtain code where "require_api_auth (env w) st hs = Inl code" by (cases "require_api_auth (env w) st hs") auto
  then have a: "require_api_auth (env w) st hs = Inl 401" using require_api_auth_code by blast
  have "runs (handle st h ident hs gate) w (\<lambda>p w'. p = (StatusReply 401, gate) \<and> w' = w) (\<lambda>_ _. False)"
    using assms(2) a
    by (auto simp: protected_endpoints_def reading_def download_backup_def rollback_backup_def api_list_backups_def
        api_backup_detail_def reply_with_def wp_simps)
  then show ?thesis using assms(1) by (auto simp: serve_def runs_def split: prod.splits sum.splits)
qed

theorem api_requires_token_witness:
  "serve demo_app POST [''backups'', ''7'', ''rollback''] [] None demo_backup_world =
     (Inr (StatusReply 401, None), demo_backup_world)"
  by (rule api_requires_token [where h = RollbackBackup and ident = "''7''" and tok = "''t''"])
     (simp_all add: dispatch_def build_router_def path_matches_def segment_matches_def method_matches_def captured_def
        protected_endpoints_def demo_app_def header_str_def)

text \<open>C36. Reading is safe: a \<open>GET\<close> or \<open>HEAD\<close> request, whatever its path and headers, leaves files,
  database, trace and gate as they are.\<close>

theorem get_requests_read_only:
  assumes "sqlite_repo (repo st) w" "req = GET \<or> req = HEAD"
  shows "runs (serve st req ss hs gate) w (\<lambda>(_, gate') w'. gate' = gate \<and> read_only w w') (\<lambda>_. read_only w)"
  using sqlite.reads_serve [OF _ _ assms(2)] assms(1) by (simp add: sqlite_repo_def)

theorem get_requests_read_only_witness:
  "runs (serve demo_app GET [''api'', ''v1'', ''backups''] demo_headers None) demo_backup_world
     (\<lambda>(_, gate') w'. gate' = None \<and> read_only demo_backup_world w') (\<lambda>_. read_only demo_backup_world)"
  by (rule get_requests_read_only [OF demo_app_repo]) simp



text \<open>C37. Rollbacks are spaced: on a host whose clock is not set back, a rollback that succeeds after
  one at \<open>t\<close> is recorded at least ten seconds later; a request that fails leaves the gate alone.\<close>

theorem rollbacks_spaced:
  assumes "sqlite_repo (repo st) w" "clock_steady (env w)" "num_seconds_truncates (env w)"
  shows "runs (rollback_backup st ident hs (Some t)) w
    (\<lambda>(r, gate') w'. case r of
        Inl _ \<Rightarrow> gate' = Some t
      | Inr _ \<Rightarrow> \<exists>t'. gate' = Some t' \<and> t + 10 * 10 ^ 9 \<le> t')
    (\<lambda>_ _. True)"
proof (rule runs_mono [OF sqlite.runs_rollback_backup], goal_cases)
  case (4 p w')
  have "t + 10 * 10 ^ 9 \<le> clock (env w) k"
    if "gate_open (env w) (Some t) (clock (env w) (step w))" "step w \<le> k" for k
  proof -
    have "10 * 10 ^ 9 \<le> clock (env w) (step w) - t"
      using that(1) by (intro ten_seconds [OF assms(3)]) (simp add: gate_open_def)
    then show ?thesis using clock_steadyD [OF assms(2) that(2)] by linarith
  qed
  with 4 show ?case by (cases p; cases "fst p") auto
qed (use assms(1) in \<open>auto simp: sqlite_repo_def\<close>)

theorem rollbacks_spaced_witness:
  "runs (rollback_backup demo_app ''5'' demo_headers (Some 7)) demo_backup_world
    (\<lambda>(r, gate') w'. case r of Inl _ \<Rightarrow> gate' = Some 7 | Inr _ \<Rightarrow> \<exists>t'. gate' = Some t' \<and> 7 + 10 * 10 ^ 9 \<le> t')
    (\<lambda>_ _. True)"
proof -
  have "clock_steady demo_env" "num_seconds_truncates demo_env"
    by (rule demo_clock_steady) (simp add: num_seconds_truncates_def demo_env_def)
  then show ?thesis
    using rollbacks_spaced [OF demo_app_repo, of "''5''" demo_headers 7] by (simp add: demo_backup_facts)
qed

text \<open>C38. Round trip of a download: when it succeeds, decompressing the body and reading the archive
  gives one file, the payload of the requested backup, with the hash that its entry records.\<close>

theorem download_backup_correct:
  assumes "sqlite_repo (repo st) w" "zstd_codec (env w)" "tar_codec (env w) untar"
  shows "runs (download_backup st ident hs) w
    (\<lambda>r w'. read_only w w' \<and> (case r of
        Inl code \<Rightarrow> code \<in> {400, 401, 404, 500}
      | Inr d \<Rightarrow> (\<exists>e \<in> set (sqlite_rows w). is_created e \<and> uuid_parse_str (env w) ident = Some (backup_id e) \<and>
          (\<exists>content. entry_hash e = content_hash (sha256 (env w)) (hex_encode (env w)) content \<and>
             files w (payload_at (root (repo st)) (timestamp_dir e)) = Some (File content) \<and>
             map_option untar (zstd_decode (env w) (download_body d)) = Some [(''collection.anki2'', content)]))))
    (\<lambda>_. read_only w)"
proof (rule runs_mono [OF sqlite.runs_download_backup], goal_cases)
  case (4 r w')
  have "\<exists>content. entry_hash e = content_hash (sha256 (env w)) (hex_encode (env w)) content \<and>
      files w (payload_at (root (repo st)) (timestamp_dir e)) = Some (File content) \<and>
      map_option untar (zstd_decode (env w) (download_body d)) = Some [(''collection.anki2'', content)]"
    if "delivers (env w) (root (repo st)) (files w) e d" for e d
    using that assms(2,3) unfolding delivers_def zstd_codec_def tar_codec_def by fastforce
  with 4 show ?case by (cases r) (simp, simp, blast)
qed (use assms(1) in \<open>auto simp: sqlite_repo_def\<close>)

theorem download_backup_correct_witness:
  "runs (download_backup demo_app ''5'' demo_headers) demo_backup_world
    (\<lambda>r w'. case r of Inl _ \<Rightarrow> True | Inr d \<Rightarrow> zstd_decode demo_env (download_body d) = Some [1, 2, 3])
    (\<lambda>_. read_only demo_backup_world)"
proof -
  have t: "tar_codec demo_env (\<lambda>t. [(''collection.anki2'', t)])" by (simp add: tar_codec_def demo_env_def)
  show ?thesis
  proof (rule runs_mono [OF download_backup_correct [OF demo_app_repo, unfolded demo_backup_facts(2), OF demo_zstd_codec t]], goal_cases)
    case (1 r w')
    show ?case
    proof (cases r)
      case (Inr d)
      with 1 obtain content where
        "files demo_backup_world (payload_at demo_root (timestamp_dir demo_backup)) = Some (File content)"
        and m: "map_option (\<lambda>t. [(''collection.anki2'', t)]) (zstd_decode demo_env (download_body d)) =
          Some [(''collection.anki2'', content)]"
        unfolding demo_app_root demo_backup_facts(4) by (simp only: sum.case list.set) blast
      then have "content = [1, 2, 3]" using demo_backup_facts(9) by simp
      with m Inr show ?thesis by auto
    qed simp
  qed
qed

section \<open>The scheduler and the command line\<close>

text \<open>C39. The scheduler sleeps until the next full hour, for at least one and at most 3600 seconds;
  the arithmetic at 32 and 64 bits neither wraps nor underflows.\<close>

theorem sleep_until_next_hour:
  assumes "minute E now < 60" "second E now < 60"
  shows "unat (sleep_secs E now) = 3600 - (unat (minute E now) * 60 + unat (second E now)) \<and>
    1 \<le> unat (sleep_secs E now) \<and> unat (sleep_secs E now) \<le> 3600"
  unfolding sleep_secs_exact [OF assms] using secs_to_next_hour_bounds [OF assms] by simp

theorem sleep_until_next_hour_witness:
  "unat (sleep_secs demo_env (3599 * 10 ^ 9)) = 1 \<and> unat (sleep_secs demo_env 0) = 3600"
  using sleep_until_next_hour [of demo_env "3599 * 10 ^ 9"] sleep_until_next_hour [of demo_env 0]
  by (simp add: demo_env_def)

text \<open>C40. The loop over the command line ends, and it reads the arguments as a list of options: it
  fails exactly if a \<open>--config\<close> comes last, and the last path and the last mode win.\<close>

theorem parse_args_loop_correct:
  "parse_args_loop as 1 None None =
     (case config_args (drop 1 as) of
        None \<Rightarrow> Inl (Anyhow ''--config requires a path argument'')
      | Some ps \<Rightarrow> Inr (last_option None ps, last_option None (mode_args (drop 1 as))))"
  by (rule parse_args_loop_drop)

end
